theory Spec2Isabelle
  imports Complex_Main "HOL-Library.Log_Nat" "HOL-Library.Signed_Division"
    "HOL-Library.Monad_Syntax"
begin

section \<open>Numbers of the source\<close>

text \<open>
  The interpreter (\<^verbatim>\<open>laserscan_interpreter.cpp\<close>) computes with C++ \<^verbatim>\<open>double\<close>, \<^verbatim>\<open>float\<close>,
  \<^verbatim>\<open>int\<close> and \<^verbatim>\<open>long\<close>. A finite \<^verbatim>\<open>double\<close> is the \<^typ>\<open>real\<close> it denotes, and every
  arithmetic operation on doubles is the exact operation followed by the rounding of
  IEEE 754 binary64: to the nearest representable value, a tie to the one with the even
  significand. (Each operation is rounded on its own, as on a target that evaluates
  \<^verbatim>\<open>double\<close> expressions in \<^verbatim>\<open>double\<close> and does not contract a product and a sum into
  one operation.) An operation whose rounded result is too large for the format gives an
  infinity, and a division by \<^verbatim>\<open>0.0\<close> an infinity or a NaN; neither is a \<^typ>\<open>real\<close>, and
  such an operation has the value \<open>None\<close>, as has every step that C++ leaves undefined.
  Integer division truncates towards zero, and a conversion from \<^verbatim>\<open>double\<close> to an integer
  type truncates towards zero and is undefined when the truncated value does not fit the
  type. What a function receives (its arguments, the parameters, a clock reading) is taken
  to be finite.
\<close>

definition round_half_even :: "real \<Rightarrow> int" where
  \<comment> \<open>the nearest integer, a tie to the even one\<close>
  "round_half_even x =
     (let f = \<lfloor>x\<rfloor>; r = x - real_of_int f
      in if r < 1 / 2 then f else if 1 / 2 < r then f + 1 else if even f then f else f + 1)"

definition quantize :: "nat \<Rightarrow> real \<Rightarrow> int" where
  \<comment> \<open>the nearest multiple of \<open>2 ^ t\<close>\<close>
  "quantize t y = round_half_even (y / 2 ^ t) * 2 ^ t"

definition round_to :: "nat \<Rightarrow> nat \<Rightarrow> real \<Rightarrow> real" where
  \<comment> \<open>rounding to a binary format with \<open>p\<close> significant bits whose smallest positive
      (subnormal) value is \<open>2 ^ - d\<close>; the exponent is not bounded from above here\<close>
  "round_to p d x =
     (let y = \<bar>x\<bar> * 2 ^ d;
          shift = nat (bitlen \<lfloor>y\<rfloor> - int p)
      in sgn x * real_of_int (quantize shift y) / 2 ^ d)"

definition double :: "real \<Rightarrow> real" where
  \<comment> \<open>binary64: 53 significant bits, smallest subnormal \<open>2 ^ - 1074\<close>. This is also the
      value of a decimal literal such as \<^verbatim>\<open>0.35\<close>\<close>
  "double x = round_to 53 1074 x"

definition float :: "real \<Rightarrow> real" where
  \<comment> \<open>binary32: 24 significant bits, smallest subnormal \<open>2 ^ - 149\<close>\<close>
  "float x = round_to 24 149 x"

definition finite_double :: "real \<Rightarrow> bool" where
  \<comment> \<open>the format ends below \<open>2 ^ 1024\<close>: a rounded result of that size has overflowed\<close>
  "finite_double x \<longleftrightarrow> \<bar>x\<bar> < 2 ^ 1024"

definition finite_float :: "real \<Rightarrow> bool" where
  "finite_float x \<longleftrightarrow> \<bar>x\<bar> < 2 ^ 128"

definition to_double :: "real \<Rightarrow> real option" where
  \<comment> \<open>the \<^verbatim>\<open>double\<close> result of an operation whose exact result is \<open>x\<close>\<close>
  "to_double x = (if finite_double (double x) then Some (double x) else None)"

definition to_float :: "real \<Rightarrow> real option" where
  \<comment> \<open>the conversion of a \<^verbatim>\<open>double\<close> to \<^verbatim>\<open>float\<close>\<close>
  "to_float x = (if finite_float (float x) then Some (float x) else None)"

definition double_add :: "real \<Rightarrow> real \<Rightarrow> real option" where
  "double_add x y = to_double (x + y)"

definition double_sub :: "real \<Rightarrow> real \<Rightarrow> real option" where
  "double_sub x y = to_double (x - y)"

definition double_mul :: "real \<Rightarrow> real \<Rightarrow> real option" where
  "double_mul x y = to_double (x * y)"

definition double_div :: "real \<Rightarrow> real \<Rightarrow> real option" where
  \<comment> \<open>\<^verbatim>\<open>x / y\<close> on doubles\<close>
  "double_div x y = (if y = 0 then None else to_double (x / y))"

definition fabsf :: "real \<Rightarrow> real option" where
  \<comment> \<open>\<^verbatim>\<open>float fabsf(float)\<close> called with a \<^verbatim>\<open>double\<close>: the argument is converted to
      \<^verbatim>\<open>float\<close> first; the result is widened to \<^verbatim>\<open>double\<close> again where it is used, which
      changes nothing\<close>
  "fabsf x = map_option (\<lambda>v. \<bar>v\<bar>) (to_float x)"

definition trunc :: "real \<Rightarrow> int" where
  "trunc x = (if 0 \<le> x then \<lfloor>x\<rfloor> else \<lceil>x\<rceil>)"

definition long_of_double :: "real \<Rightarrow> int option" where
  \<comment> \<open>the cast \<^verbatim>\<open>(long) x\<close>, 64 bits\<close>
  "long_of_double x =
     (if - (2 ^ 63) \<le> trunc x \<and> trunc x < 2 ^ 63 then Some (trunc x) else None)"

definition int_of_double :: "real \<Rightarrow> int option" where
  \<comment> \<open>the implicit conversion of a \<^verbatim>\<open>double\<close> stored into an \<^verbatim>\<open>int\<close>, 32 bits\<close>
  "int_of_double x =
     (if - (2 ^ 31) \<le> trunc x \<and> trunc x < 2 ^ 31 then Some (trunc x) else None)"

fun to_string :: "nat \<Rightarrow> string" where
  \<comment> \<open>\<^verbatim>\<open>std::to_string\<close> of a non-negative \<^verbatim>\<open>int\<close>: its decimal digits\<close>
  "to_string n =
     (if n < 10 then [char_of (48 + n)] else to_string (n div 10) @ [char_of (48 + n mod 10)])"

declare to_string.simps [simp del]

definition resize :: "nat \<Rightarrow> 'x \<Rightarrow> 'x list \<Rightarrow> 'x list" where
  \<comment> \<open>\<^verbatim>\<open>std::vector::resize\<close>: cut, or fill up with default-constructed elements \<open>d\<close>\<close>
  "resize n d xs = take n xs @ replicate (n - length xs) d"


section \<open>Data\<close>

text \<open>
  Modelled from the spec: the declarations of \<^verbatim>\<open>BankArgument\<close> and \<^verbatim>\<open>MovingObject\<close>
  (\<^verbatim>\<open>find_moving_objects/bank.h\<close>) are not among the sources. \<open>BankArgument\<close> is the
  configuration bundle of the spec: thresholds, the smoothing factor \<open>ema_alpha\<close>, the base
  sensor trust \<open>base_confidence\<close>, the frame names and the pass-through topic and namespace
  strings. Its fields are the ones the interpreter reads or writes, typed by their use there;
  \<open>nr_scans_in_bank\<close> is a scan count held in an \<^verbatim>\<open>int\<close>. Of a \<open>MovingObject\<close> the
  confidence calculation reads the seen width only.
\<close>

record MovingObject =
  seen_width :: real

record BankArgument =
  ema_alpha :: real
  nr_scans_in_bank :: int
  object_threshold_edge_max_delta_range :: real
  object_threshold_min_nr_points :: int
  object_threshold_max_distance :: real
  object_threshold_min_speed :: real
  object_threshold_max_delta_width_in_points :: int
  object_threshold_bank_tracking_max_delta_distance :: real
  object_threshold_min_confidence :: real
  base_confidence :: real
  publish_ema :: bool
  publish_objects_closest_point_markers :: bool
  publish_objects_velocity_arrows :: bool
  publish_objects_delta_position_lines :: bool
  publish_objects_width_lines :: bool
  velocity_arrows_use_full_gray_scale :: bool
  velocity_arrows_use_sensor_frame :: bool
  velocity_arrows_use_base_frame :: bool
  velocity_arrows_use_fixed_frame :: bool
  publish_objects :: bool
  map_frame :: string
  fixed_frame :: string
  base_frame :: string
  velocity_arrow_ns :: string
  delta_position_line_ns :: string
  width_line_ns :: string
  topic_ema :: string
  topic_objects_closest_point_markers :: string
  topic_objects_velocity_arrows :: string
  topic_objects_delta_position_lines :: string
  topic_objects_width_lines :: string
  topic_objects :: string
  publish_buffer_size :: int
  node_name_suffix :: string

text \<open>
  The two file-level variables \<^verbatim>\<open>root_1\<close> and \<^verbatim>\<open>root_2\<close> are shared by the confidence
  calculation, which reads them, and the rate calculation, which writes them.
\<close>

record globals =
  root_1 :: real
  root_2 :: real

text \<open>The member function the subscriber \<^verbatim>\<open>sub\<close> is bound to.\<close>

datatype subscription =
    Sub_waitForFirstMessageCallback
  | Sub_hzCalculationCallback
  | Sub_CallbackFirst
  | Sub_Callback

text \<open>
  The state of the process: the file-level variables and the members of the interpreter
  object, shared by the single-scan class and the scan-array class (\<^verbatim>\<open>LSARRAY\<close>).
\<close>

record node = globals +
  sub :: subscription
  subscribe_topic :: string
  subscribe_buffer_size :: int
  received_messages :: int
  optimize_nr_scans_in_bank :: real
  start_time :: real

record 'bank LaserScanInterpreter = node +
  bank_argument :: BankArgument
  bank :: 'bank

record 'bank LaserScanArrayInterpreter = node +
  bank_arguments :: "BankArgument list"
  banks :: "'bank list"

text \<open>
  The class \<^verbatim>\<open>Bank\<close> (\<^verbatim>\<open>bank.cpp\<close>) is not among the sources either: its operations are
  parameters of the model. An operation takes the bank and returns it changed, together
  with its return code where it has one; the argument and the message are only read.
\<close>

record ('bank, 'scan) Bank =
  new_Bank :: 'bank
  init :: "BankArgument \<Rightarrow> 'scan \<Rightarrow> 'bank \<Rightarrow> int \<times> 'bank"
  addMessage :: "'scan \<Rightarrow> 'bank \<Rightarrow> int \<times> 'bank"
  findAndReportMovingObjects :: "'bank \<Rightarrow> 'bank"

text \<open>
  The values \<^verbatim>\<open>onInit\<close> obtains from the parameter server, each already resolved against
  its default (the defaults are constants of the absent header
  \<^verbatim>\<open>LaserScanInterpreter.h\<close>).
\<close>

record parameters =
  param_subscribe_topic :: string
  param_subscribe_buffer_size :: int
  param_bank_argument :: BankArgument
  param_optimize_nr_scans_in_bank :: real


section \<open>Confidence calculation\<close>

definition a :: real where
  \<comment> \<open>\<^verbatim>\<open>const double a = -10 / 3;\<close> The quotient is taken on \<^verbatim>\<open>int\<close> and then converted,
      which is exact\<close>
  "a = real_of_int ((- 10) sdiv 3)"

text \<open>
  The return expression, operation by operation in the order C++ gives it: sums and
  products associate to the left, so that the parabola is \<^verbatim>\<open>(a*(dt-root_1))*(dt-root_2)\<close>.
  The result is \<open>None\<close> when an operation overflows; the value the code returns is then an
  infinity or a NaN.
\<close>

definition calculateConfidence ::
  "'g globals_scheme \<Rightarrow> 'm MovingObject_scheme \<Rightarrow> 'b BankArgument_scheme \<Rightarrow> real \<Rightarrow> real \<Rightarrow>
   bool \<Rightarrow> bool \<Rightarrow> bool \<Rightarrow> bool \<Rightarrow> bool \<Rightarrow> bool \<Rightarrow> real option" where
  "calculateConfidence g mo ba dt mo_old_width
     transform_old_time_map_frame_success transform_new_time_map_frame_success
     transform_old_time_fixed_frame_success transform_new_time_fixed_frame_success
     transform_old_time_base_frame_success transform_new_time_base_frame_success =
   do {
     sum_1 \<leftarrow> double_add (base_confidence ba)
                (if transform_old_time_map_frame_success \<and>
                    transform_new_time_map_frame_success \<and>
                    transform_old_time_fixed_frame_success \<and>
                    transform_new_time_fixed_frame_success \<and>
                    transform_old_time_base_frame_success \<and>
                    transform_new_time_base_frame_success then 0.5 else 0.0);
     factor_1 \<leftarrow> double_sub dt (root_1 g);
     product_1 \<leftarrow> double_mul a factor_1;
     factor_2 \<leftarrow> double_sub dt (root_2 g);
     product_2 \<leftarrow> double_mul product_1 factor_2;
     sum_2 \<leftarrow> double_add sum_1 product_2;
     delta_width \<leftarrow> double_sub (seen_width mo) mo_old_width;
     abs_width \<leftarrow> fabsf delta_width;
     product_3 \<leftarrow> double_mul (- 5.0) abs_width;
     sum_3 \<leftarrow> double_add sum_2 product_3;
     double_mul (ema_alpha ba) sum_3
   }"

text \<open>
  The formula as the specification words it, on the reals, with the coefficient \<open>-10/3\<close>
  and the roots passed in, for comparison with \<^const>\<open>calculateConfidence\<close>.
\<close>

definition confidence_spec ::
  "real \<Rightarrow> real \<Rightarrow> real \<Rightarrow> real \<Rightarrow> bool \<Rightarrow> real \<Rightarrow> real \<Rightarrow> real \<Rightarrow> real" where
  "confidence_spec alpha base r1 r2 all_six_succeeded dt new_width old_width =
     alpha * (base + (if all_six_succeeded then 0.5 else 0.0)
              + (- 10 / 3) * (dt - r1) * (dt - r2)
              + (- 5.0 * \<bar>new_width - old_width\<bar>))"


section \<open>Start-up\<close>

text \<open>
  Static initialisation sets the roots; the constructor sets the message counter and the
  optimisation target (and, in the single-scan class, creates the bank). All other members
  keep whatever the object held. \<^verbatim>\<open>onInit\<close> then reads the parameters and subscribes.
\<close>

definition static_initialisation :: "'n globals_scheme \<Rightarrow> 'n globals_scheme" where
  "static_initialisation s = s\<lparr>root_1 := double 0.35, root_2 := double 0.65\<rparr>"

definition LaserScanInterpreterNode ::
  "('bank, 'scan) Bank \<Rightarrow> 'bank LaserScanInterpreter \<Rightarrow> 'bank LaserScanInterpreter" where
  "LaserScanInterpreterNode B s =
     s\<lparr>received_messages := 0, optimize_nr_scans_in_bank := 0.0, bank := new_Bank B\<rparr>"

definition LaserScanArrayInterpreterNode ::
  "'bank LaserScanArrayInterpreter \<Rightarrow> 'bank LaserScanArrayInterpreter" where
  "LaserScanArrayInterpreterNode s =
     s\<lparr>received_messages := 0, optimize_nr_scans_in_bank := 0.0,
       bank_arguments := [], banks := []\<rparr>"

definition read_parameters :: "parameters \<Rightarrow> BankArgument \<Rightarrow> BankArgument" where
  \<comment> \<open>the calls of \<^verbatim>\<open>nh_priv.param\<close> on the fields of the argument: every field of the
      record is overwritten except \<open>node_name_suffix\<close>, which \<^verbatim>\<open>onInit\<close> does not touch\<close>
  "read_parameters p ba = (param_bank_argument p)\<lparr>node_name_suffix := node_name_suffix ba\<rparr>"

definition onInit ::
  "parameters \<Rightarrow> 'bank LaserScanInterpreter \<Rightarrow> 'bank LaserScanInterpreter" where
  "onInit p s =
     (let s1 = s\<lparr>subscribe_topic := param_subscribe_topic p,
                 subscribe_buffer_size := param_subscribe_buffer_size p,
                 bank_argument := read_parameters p (bank_argument s),
                 optimize_nr_scans_in_bank := param_optimize_nr_scans_in_bank p\<rparr>
      in if optimize_nr_scans_in_bank s1 \<noteq> 0.0
         then s1\<lparr>sub := Sub_waitForFirstMessageCallback\<rparr>
         else s1\<lparr>sub := Sub_CallbackFirst\<rparr>)"

definition onInit_array ::
  "BankArgument \<Rightarrow> parameters \<Rightarrow> 'bank LaserScanArrayInterpreter \<Rightarrow>
   'bank LaserScanArrayInterpreter" where
  \<comment> \<open>\<^verbatim>\<open>onInit\<close> under \<^verbatim>\<open>LSARRAY\<close>: the argument is a local, default-constructed (\<open>d\<close>),
      filled from the parameters and pushed onto the vector\<close>
  "onInit_array d p s =
     (let s1 = s\<lparr>subscribe_topic := param_subscribe_topic p,
                 subscribe_buffer_size := param_subscribe_buffer_size p,
                 bank_arguments := bank_arguments s @ [read_parameters p d],
                 optimize_nr_scans_in_bank := param_optimize_nr_scans_in_bank p\<rparr>
      in if optimize_nr_scans_in_bank s1 \<noteq> 0.0
         then s1\<lparr>sub := Sub_waitForFirstMessageCallback\<rparr>
         else s1\<lparr>sub := Sub_CallbackFirst\<rparr>)"

text \<open>
  The start of the process: static initialisation, the constructor, \<^verbatim>\<open>onInit\<close> (which
  the constructor of a node calls itself, and the nodelet manager calls for a nodelet).
  \<open>m\<close> is the object before construction.
\<close>

definition start_up ::
  "('bank, 'scan) Bank \<Rightarrow> parameters \<Rightarrow> 'bank LaserScanInterpreter \<Rightarrow>
   'bank LaserScanInterpreter" where
  "start_up B p m = onInit p (LaserScanInterpreterNode B (static_initialisation m))"

definition start_up_array ::
  "BankArgument \<Rightarrow> parameters \<Rightarrow> 'bank LaserScanArrayInterpreter \<Rightarrow>
   'bank LaserScanArrayInterpreter" where
  "start_up_array d p m =
     onInit_array d p (LaserScanArrayInterpreterNode (static_initialisation m))"


section \<open>Rate calculation\<close>

definition waitForFirstMessageCallback :: "real \<Rightarrow> 'n node_scheme \<Rightarrow> 'n node_scheme" where
  \<comment> \<open>\<open>now\<close> is the reading of \<^verbatim>\<open>ros::Time::now().toSec()\<close>\<close>
  "waitForFirstMessageCallback now s =
     s\<lparr>start_time := now, sub := Sub_hzCalculationCallback\<rparr>"

definition optimized_nr_scans :: "real \<Rightarrow> int option" where
  \<comment> \<open>\<^verbatim>\<open>nr_scans - ((long) nr_scans) == 0.0 ? nr_scans + 1 : ceil(nr_scans)\<close>, stored into
      the \<^verbatim>\<open>int\<close> \<^verbatim>\<open>nr_scans_in_bank\<close>\<close>
  "optimized_nr_scans nr_scans =
     do {
       l \<leftarrow> long_of_double nr_scans;
       int_of_double (if nr_scans - real_of_int l = 0.0 then nr_scans + 1
                      else real_of_int \<lceil>nr_scans\<rceil>)
     }"

definition sanity_check :: "int \<Rightarrow> int" where
  \<comment> \<open>\<^verbatim>\<open>if (nr_scans_in_bank < 2) nr_scans_in_bank = 2;\<close>\<close>
  "sanity_check n = (if n < 2 then 2 else n)"

text \<open>
  \<open>max_time\<close> and \<open>max_messages\<close> are constants of the absent header, taken as parameters.
  The elapsed time, the rate and the scan count \<open>nr_scans\<close> are doubles, each the rounded
  result of its operation; the counter is converted to \<^verbatim>\<open>double\<close> without loss. With an
  elapsed time of zero the rate is an infinity or a NaN, and so is \<open>nr_scans\<close>, as it is
  when the rate or the product overflows: the cast of \<open>nr_scans\<close> to \<^verbatim>\<open>long\<close> is then
  undefined and the callback has no result. Two further cases have no result in the model
  although the code goes on with an infinity: an elapsed time that overflows, and a root
  that overflows. The message counter is an integer without a bound here; the callback
  stops counting at \<open>max_messages\<close>.
\<close>

definition hzCalculationCallback ::
  "real \<Rightarrow> int \<Rightarrow> real \<Rightarrow> 'bank LaserScanInterpreter \<Rightarrow> 'bank LaserScanInterpreter option" where
  "hzCalculationCallback max_time max_messages now s =
     (let s1 = s\<lparr>received_messages := received_messages s + 1\<rparr>
      in do {
           elapsed_time \<leftarrow> double_sub now (start_time s1);
           if max_time \<le> elapsed_time \<or> max_messages \<le> received_messages s1 then
             do {
               hz \<leftarrow> double_div (real_of_int (received_messages s1)) elapsed_time;
               nr_scans \<leftarrow> double_mul (optimize_nr_scans_in_bank s1) hz;
               n \<leftarrow> optimized_nr_scans nr_scans;
               new_root_1 \<leftarrow> double_mul (optimize_nr_scans_in_bank s1) (double 0.6);
               new_root_2 \<leftarrow> double_mul (optimize_nr_scans_in_bank s1) (double 1.4);
               Some (s1\<lparr>bank_argument := (bank_argument s1)\<lparr>nr_scans_in_bank := sanity_check n\<rparr>,
                        root_1 := new_root_1,
                        root_2 := new_root_2,
                        sub := Sub_CallbackFirst\<rparr>)
             }
           else Some s1
         })"

definition hzCalculationCallback_array ::
  "real \<Rightarrow> int \<Rightarrow> real \<Rightarrow> 'bank LaserScanArrayInterpreter \<Rightarrow>
   'bank LaserScanArrayInterpreter option" where
  \<comment> \<open>the same under \<^verbatim>\<open>LSARRAY\<close>, on \<^verbatim>\<open>bank_arguments[0]\<close>\<close>
  "hzCalculationCallback_array max_time max_messages now s =
     (let s1 = s\<lparr>received_messages := received_messages s + 1\<rparr>
      in do {
           elapsed_time \<leftarrow> double_sub now (start_time s1);
           if max_time \<le> elapsed_time \<or> max_messages \<le> received_messages s1 then
             do {
               hz \<leftarrow> double_div (real_of_int (received_messages s1)) elapsed_time;
               nr_scans \<leftarrow> double_mul (optimize_nr_scans_in_bank s1) hz;
               n \<leftarrow> optimized_nr_scans nr_scans;
               new_root_1 \<leftarrow> double_mul (optimize_nr_scans_in_bank s1) (double 0.6);
               new_root_2 \<leftarrow> double_mul (optimize_nr_scans_in_bank s1) (double 1.4);
               if bank_arguments s1 = [] then None
               else Some (s1\<lparr>bank_arguments :=
                               (bank_arguments s1)
                                 [0 := (bank_arguments s1 ! 0)\<lparr>nr_scans_in_bank := sanity_check n\<rparr>],
                             root_1 := new_root_1,
                             root_2 := new_root_2,
                             sub := Sub_CallbackFirst\<rparr>)
             }
           else Some s1
         })"


section \<open>Scan callbacks, single-scan class\<close>

definition laserScanCallbackFirst ::
  "('bank, 'scan) Bank \<Rightarrow> 'scan \<Rightarrow> 'bank LaserScanInterpreter \<Rightarrow> 'bank LaserScanInterpreter" where
  "laserScanCallbackFirst B msg s =
     (let (rc, b) = init B (bank_argument s) msg (bank s);
          s1 = s\<lparr>bank := b\<rparr>
      in if rc \<noteq> 0 then s1
         else s1\<lparr>sub := Sub_Callback\<rparr>)"

definition laserScanCallback ::
  "('bank, 'scan) Bank \<Rightarrow> 'scan \<Rightarrow> 'bank LaserScanInterpreter \<Rightarrow> 'bank LaserScanInterpreter" where
  "laserScanCallback B msg s =
     (let (rc, b) = addMessage B msg (bank s);
          s1 = s\<lparr>bank := b\<rparr>
      in if rc \<noteq> 0 then s1
         else s1\<lparr>bank := findAndReportMovingObjects B b\<rparr>)"


section \<open>Scan callbacks, scan-array class\<close>

definition append_str :: "string \<Rightarrow> BankArgument \<Rightarrow> BankArgument" where
  \<comment> \<open>the nine \<^verbatim>\<open>append(append_str)\<close> calls of the loop body\<close>
  "append_str str ba =
     ba\<lparr>topic_ema := topic_ema ba @ str,
        topic_objects_closest_point_markers := topic_objects_closest_point_markers ba @ str,
        topic_objects_velocity_arrows := topic_objects_velocity_arrows ba @ str,
        topic_objects_delta_position_lines := topic_objects_delta_position_lines ba @ str,
        topic_objects_width_lines := topic_objects_width_lines ba @ str,
        velocity_arrow_ns := velocity_arrow_ns ba @ str,
        delta_position_line_ns := delta_position_line_ns ba @ str,
        width_line_ns := width_line_ns ba @ str,
        node_name_suffix := node_name_suffix ba @ str\<rparr>"

definition create_banks ::
  "('bank, 'scan) Bank \<Rightarrow> BankArgument \<Rightarrow> nat \<Rightarrow> BankArgument list \<times> 'bank list \<Rightarrow>
   BankArgument list \<times> 'bank list" where
  \<comment> \<open>the block guarded by \<^verbatim>\<open>banks.size() == 0\<close>; \<open>d\<close> is a default-constructed argument.
      The first loop overwrites every slot that \<^verbatim>\<open>banks.resize\<close> has filled.\<close>
  "create_banks B d nr_msgs vs =
     (let (bas, bs) = (resize nr_msgs d (fst vs), resize nr_msgs (new_Bank B) (snd vs));
          (bas, bs) = fold (\<lambda>i (bas, bs). (bas[i := bas ! 0], bs[i := new_Bank B]))
                        [0..<nr_msgs] (bas, bs);
          bas = fold (\<lambda>i bas. bas[i := append_str (''_'' @ to_string i) (bas ! i)])
                  [0..<nr_msgs] bas
      in (bas, bs))"

definition laserScanArrayCallbackFirst ::
  "('bank, 'scan) Bank \<Rightarrow> BankArgument \<Rightarrow> 'scan list \<Rightarrow> 'bank LaserScanArrayInterpreter \<Rightarrow>
   'bank LaserScanArrayInterpreter option" where
  "laserScanArrayCallbackFirst B d msgs s =
     (let nr_msgs = length msgs;
          (bas, bs) = (if length (banks s) = 0
                       then create_banks B d nr_msgs (bank_arguments s, banks s)
                       else (bank_arguments s, banks s))
      in if nr_msgs \<le> length bs \<and> nr_msgs \<le> length bas then
           Some (s\<lparr>bank_arguments := bas,
                   banks := fold (\<lambda>i bs. bs[i := snd (init B (bas ! i) (msgs ! i) (bs ! i))])
                              [0..<nr_msgs] bs,
                   sub := Sub_Callback\<rparr>)
         else None)"

definition laserScanArrayCallback ::
  "('bank, 'scan) Bank \<Rightarrow> 'scan list \<Rightarrow> 'bank LaserScanArrayInterpreter \<Rightarrow>
   'bank LaserScanArrayInterpreter option" where
  "laserScanArrayCallback B msgs s =
     (if length msgs \<le> length (banks s) then
        Some (s\<lparr>banks := fold (\<lambda>i bs.
                                  let (rc, b) = addMessage B (msgs ! i) (bs ! i)
                                  in if rc \<noteq> 0 then bs[i := b]
                                     else bs[i := findAndReportMovingObjects B b])
                           [0..<length msgs] (banks s)\<rparr>)
      else None)"


section \<open>Message delivery\<close>

text \<open>
  A message arrives together with the clock reading of its callback, and goes to the member
  function the subscriber is bound to at that moment.
\<close>

definition deliver ::
  "('bank, 'scan) Bank \<Rightarrow> real \<Rightarrow> int \<Rightarrow> real \<times> 'scan \<Rightarrow> 'bank LaserScanInterpreter \<Rightarrow>
   'bank LaserScanInterpreter option" where
  "deliver B max_time max_messages ev s =
     (case sub s of
        Sub_waitForFirstMessageCallback \<Rightarrow> Some (waitForFirstMessageCallback (fst ev) s)
      | Sub_hzCalculationCallback \<Rightarrow> hzCalculationCallback max_time max_messages (fst ev) s
      | Sub_CallbackFirst \<Rightarrow> Some (laserScanCallbackFirst B (snd ev) s)
      | Sub_Callback \<Rightarrow> Some (laserScanCallback B (snd ev) s))"

fun run ::
  "('bank, 'scan) Bank \<Rightarrow> real \<Rightarrow> int \<Rightarrow> (real \<times> 'scan) list \<Rightarrow> 'bank LaserScanInterpreter \<Rightarrow>
   'bank LaserScanInterpreter option" where
  "run B max_time max_messages [] s = Some s"
| "run B max_time max_messages (ev # evs) s =
     (case deliver B max_time max_messages ev s of
        None \<Rightarrow> None
      | Some s' \<Rightarrow> run B max_time max_messages evs s')"

definition deliver_array ::
  "('bank, 'scan) Bank \<Rightarrow> BankArgument \<Rightarrow> real \<Rightarrow> int \<Rightarrow> real \<times> 'scan list \<Rightarrow>
   'bank LaserScanArrayInterpreter \<Rightarrow> 'bank LaserScanArrayInterpreter option" where
  "deliver_array B d max_time max_messages ev s =
     (case sub s of
        Sub_waitForFirstMessageCallback \<Rightarrow> Some (waitForFirstMessageCallback (fst ev) s)
      | Sub_hzCalculationCallback \<Rightarrow> hzCalculationCallback_array max_time max_messages (fst ev) s
      | Sub_CallbackFirst \<Rightarrow> laserScanArrayCallbackFirst B d (snd ev) s
      | Sub_Callback \<Rightarrow> laserScanArrayCallback B (snd ev) s)"

fun run_array ::
  "('bank, 'scan) Bank \<Rightarrow> BankArgument \<Rightarrow> real \<Rightarrow> int \<Rightarrow> (real \<times> 'scan list) list \<Rightarrow>
   'bank LaserScanArrayInterpreter \<Rightarrow> 'bank LaserScanArrayInterpreter option" where
  "run_array B d max_time max_messages [] s = Some s"
| "run_array B d max_time max_messages (ev # evs) s =
     (case deliver_array B d max_time max_messages ev s of
        None \<Rightarrow> None
      | Some s' \<Rightarrow> run_array B d max_time max_messages evs s')"


section \<open>Auxiliary notions and example data\<close>

text \<open>
  The quantities \<^const>\<open>hzCalculationCallback\<close> computes, as functions of the clock reading
  and the state before the call (the counter is incremented first): the elapsed time, the
  condition under which the warm-up ends, the rate and the scan count before it is made an
  integer.
\<close>

definition elapsed :: "real \<Rightarrow> 'n node_scheme \<Rightarrow> real" where
  "elapsed now s = double (now - start_time s)"

definition warm_up_done :: "real \<Rightarrow> int \<Rightarrow> real \<Rightarrow> 'n node_scheme \<Rightarrow> bool" where
  "warm_up_done max_time max_messages now s \<longleftrightarrow>
     max_time \<le> elapsed now s \<or> max_messages \<le> received_messages s + 1"

definition measured_hz :: "real \<Rightarrow> 'n node_scheme \<Rightarrow> real" where
  "measured_hz now s = double (real_of_int (received_messages s + 1) / elapsed now s)"

definition measured_nr_scans :: "real \<Rightarrow> 'n node_scheme \<Rightarrow> real" where
  "measured_nr_scans now s = double (optimize_nr_scans_in_bank s * measured_hz now s)"

definition steady :: "'n node_scheme \<Rightarrow> bool" where
  \<comment> \<open>the subscriber is bound to one of the two scan callbacks\<close>
  "steady s \<longleftrightarrow> sub s = Sub_CallbackFirst \<or> sub s = Sub_Callback"

text \<open>
  Concrete inputs for the examples. A decimal that is not a binary fraction stands for the
  \<^verbatim>\<open>double\<close> nearest to it.
\<close>

definition test_bank_argument :: BankArgument where
  "test_bank_argument =
     \<lparr>ema_alpha = 1.0,
      nr_scans_in_bank = 11,
      object_threshold_edge_max_delta_range = double 0.15,
      object_threshold_min_nr_points = 5,
      object_threshold_max_distance = 6.5,
      object_threshold_min_speed = double 0.03,
      object_threshold_max_delta_width_in_points = 5,
      object_threshold_bank_tracking_max_delta_distance = double 0.2,
      object_threshold_min_confidence = double 0.67,
      base_confidence = double 0.4,
      publish_ema = True,
      publish_objects_closest_point_markers = True,
      publish_objects_velocity_arrows = True,
      publish_objects_delta_position_lines = True,
      publish_objects_width_lines = True,
      velocity_arrows_use_full_gray_scale = False,
      velocity_arrows_use_sensor_frame = False,
      velocity_arrows_use_base_frame = False,
      velocity_arrows_use_fixed_frame = False,
      publish_objects = True,
      map_frame = ''map'',
      fixed_frame = ''odom'',
      base_frame = ''base_link'',
      velocity_arrow_ns = ''velocity_arrow_ns'',
      delta_position_line_ns = ''delta_position_line_ns'',
      width_line_ns = ''width_line_ns'',
      topic_ema = ''ema'',
      topic_objects_closest_point_markers = ''objects_closest_point_markers'',
      topic_objects_velocity_arrows = ''objects_velocity_arrows'',
      topic_objects_delta_position_lines = ''objects_delta_position_lines'',
      topic_objects_width_lines = ''objects_width_lines'',
      topic_objects = ''moving_objects'',
      publish_buffer_size = 2,
      node_name_suffix = []\<rparr>"

definition test_parameters :: "real \<Rightarrow> parameters" where
  \<comment> \<open>the argument is the value of \<^verbatim>\<open>optimize_nr_scans_in_bank\<close>\<close>
  "test_parameters target =
     \<lparr>param_subscribe_topic = ''scan'',
      param_subscribe_buffer_size = 1,
      param_bank_argument = test_bank_argument,
      param_optimize_nr_scans_in_bank = target\<rparr>"

definition test_Bank :: "(nat, real list) Bank" where
  \<comment> \<open>a bank that counts the scans it holds and rejects a scan without readings\<close>
  "test_Bank =
     \<lparr>new_Bank = 0,
      init = (\<lambda>ba msg b. if msg = [] then (- 1, b) else (0, 1)),
      addMessage = (\<lambda>msg b. if msg = [] then (- 1, b) else (0, b + 1)),
      findAndReportMovingObjects = (\<lambda>b. b)\<rparr>"

definition default_roots :: globals where
  "default_roots = static_initialisation \<lparr>root_1 = 0, root_2 = 0\<rparr>"

definition test_node :: "real \<Rightarrow> nat LaserScanInterpreter" where
  \<comment> \<open>the single-scan node after start-up with the given optimisation target\<close>
  "test_node target =
     start_up test_Bank (test_parameters target)
       \<lparr>root_1 = 0, root_2 = 0, sub = Sub_Callback, subscribe_topic = [],
        subscribe_buffer_size = 0, received_messages = 7,
        optimize_nr_scans_in_bank = 7, start_time = 7,
        bank_argument = test_bank_argument, bank = 7\<rparr>"

definition test_array_node :: "real \<Rightarrow> nat LaserScanArrayInterpreter" where
  \<comment> \<open>the scan-array node after start-up with the given optimisation target\<close>
  "test_array_node target =
     start_up_array test_bank_argument (test_parameters target)
       \<lparr>root_1 = 0, root_2 = 0, sub = Sub_Callback, subscribe_topic = [],
        subscribe_buffer_size = 0, received_messages = 7,
        optimize_nr_scans_in_bank = 7, start_time = 7,
        bank_arguments = [test_bank_argument], banks = [7]\<rparr>"


section \<open>Rounding\<close>

lemma round_half_even_bounds: "\<lfloor>x\<rfloor> \<le> round_half_even x \<and> round_half_even x \<le> \<lfloor>x\<rfloor> + 1"
  by (simp add: round_half_even_def Let_def)

lemma round_half_even_of_int [simp]: "round_half_even (real_of_int n) = n"
  by (simp add: round_half_even_def Let_def)

lemma round_half_even_zero [simp]: "round_half_even 0 = 0"
  using round_half_even_of_int [of 0] by simp

lemma round_half_even_mono:
  assumes "x \<le> y"
  shows "round_half_even x \<le> round_half_even y"
proof (cases "\<lfloor>x\<rfloor> = \<lfloor>y\<rfloor>")
  case True
  with assms have "x - real_of_int \<lfloor>x\<rfloor> \<le> y - real_of_int \<lfloor>y\<rfloor>" by simp
  with True show ?thesis
    by (auto simp add: round_half_even_def Let_def)
next
  case False
  with assms have "\<lfloor>x\<rfloor> < \<lfloor>y\<rfloor>"
    using floor_mono [OF assms] by linarith
  with round_half_even_bounds [of x] round_half_even_bounds [of y] show ?thesis
    by linarith
qed

lemma round_half_even_nonneg: "0 \<le> x \<Longrightarrow> 0 \<le> round_half_even x"
  using round_half_even_mono [of 0 x] by simp

lemma quantize_mono: "x \<le> y \<Longrightarrow> quantize t x \<le> quantize t y"
  unfolding quantize_def
  by (intro mult_right_mono round_half_even_mono divide_right_mono) simp_all

lemma quantize_multiple [simp]: "quantize t (real_of_int (m * 2 ^ t)) = m * 2 ^ t"
  by (simp add: quantize_def)

lemma quantize_le: "y \<le> real_of_int (m * 2 ^ t) \<Longrightarrow> quantize t y \<le> m * 2 ^ t"
  using quantize_mono [of y "real_of_int (m * 2 ^ t)" t] by (simp only: quantize_multiple)

lemma quantize_ge: "real_of_int (m * 2 ^ t) \<le> y \<Longrightarrow> m * 2 ^ t \<le> quantize t y"
  using quantize_mono [of "real_of_int (m * 2 ^ t)" y t] by (simp only: quantize_multiple)

lemma quantize_nonneg: "0 \<le> y \<Longrightarrow> 0 \<le> quantize t y"
  using quantize_ge [of 0 t y] by simp

lemma bitlen_mono: "m \<le> n \<Longrightarrow> bitlen m \<le> bitlen n"
  by (simp add: bitlen_def floorlog_mono)

text \<open>
  Rounding is monotone. Within one binade the quantum is the same for both arguments; across
  binades a power of two lies between them, which both quanta divide.
\<close>

lemma quantize_shift_mono:
  assumes "0 \<le> x" and "x \<le> y" and "1 \<le> p"
  shows "quantize (nat (bitlen \<lfloor>x\<rfloor> - int p)) x \<le> quantize (nat (bitlen \<lfloor>y\<rfloor> - int p)) y"
proof -
  define s where "s = nat (bitlen \<lfloor>x\<rfloor> - int p)"
  define t where "t = nat (bitlen \<lfloor>y\<rfloor> - int p)"
  have le: "s \<le> t"
    unfolding s_def t_def using bitlen_mono [OF floor_mono [OF assms(2)]] by simp
  have "quantize s x \<le> quantize t y"
  proof (cases "s = t")
    case True
    with assms(2) show ?thesis by (simp add: quantize_mono)
  next
    case False
    with le have st: "s < t" by simp
    then have "0 < t" by simp
    then have hy: "int p + int t \<le> bitlen \<lfloor>y\<rfloor>"
      by (simp add: t_def)
    have hx: "bitlen \<lfloor>x\<rfloor> \<le> int p + int s"
      by (simp add: s_def)
    let ?B = "(2::int) ^ (p + t - 1)"
    from hy have "?B \<le> \<lfloor>y\<rfloor>"
      using bitlen_ge_iff_power [of "int p + int t" "\<lfloor>y\<rfloor>"] assms(3)
      by (simp add: nat_add_distrib)
    then have yB: "real_of_int ?B \<le> y"
      by linarith
    from hx st have "bitlen \<lfloor>x\<rfloor> \<le> int (p + t - 1)"
      by linarith
    then have "\<lfloor>x\<rfloor> < ?B"
      using bitlen_le_iff_power [of "\<lfloor>x\<rfloor>" "int (p + t - 1)"] by simp
    then have xB: "x \<le> real_of_int ?B"
      by linarith
    have Bt: "?B = 2 ^ (p - 1) * 2 ^ t"
      using assms(3) by (simp flip: power_add)
    have Bs: "?B = 2 ^ (p + t - 1 - s) * 2 ^ s"
      using st by (simp flip: power_add)
    from xB have "quantize s x \<le> ?B"
      unfolding Bs by (rule quantize_le)
    moreover from yB have "?B \<le> quantize t y"
      unfolding Bt by (rule quantize_ge)
    ultimately show ?thesis by linarith
  qed
  then show ?thesis
    by (simp only: s_def t_def)
qed

lemma round_to_nonneg_eq:
  "0 \<le> x \<Longrightarrow>
   round_to p d x
     = real_of_int (quantize (nat (bitlen \<lfloor>x * 2 ^ d\<rfloor> - int p)) (x * 2 ^ d)) / 2 ^ d"
  by (cases "x = 0") (simp_all add: round_to_def Let_def quantize_def)

lemma round_to_minus: "round_to p d (- x) = - round_to p d x"
  by (simp add: round_to_def Let_def sgn_minus)

lemma round_to_zero [simp]: "round_to p d 0 = 0"
  by (simp add: round_to_def)

lemma round_to_nonneg: "0 \<le> x \<Longrightarrow> 0 \<le> round_to p d x"
  by (simp add: round_to_nonneg_eq quantize_nonneg)

lemma round_to_nonpos: "x \<le> 0 \<Longrightarrow> round_to p d x \<le> 0"
  using round_to_nonneg [of "- x" p d] by (simp add: round_to_minus)

lemma round_to_mono_nonneg:
  assumes "0 \<le> x" and "x \<le> y" and "1 \<le> p"
  shows "round_to p d x \<le> round_to p d y"
proof -
  from assms have "0 \<le> x * 2 ^ d" "x * 2 ^ d \<le> y * 2 ^ d" "0 \<le> y" by simp_all
  with quantize_shift_mono [of "x * 2 ^ d" "y * 2 ^ d" p] assms
  show ?thesis
    by (simp add: round_to_nonneg_eq divide_right_mono)
qed

lemma round_to_mono:
  assumes "x \<le> y" and "1 \<le> p"
  shows "round_to p d x \<le> round_to p d y"
proof -
  consider "0 \<le> x" | "y \<le> 0" | "x \<le> 0" "0 \<le> y" by linarith
  then show ?thesis
  proof cases
    case 1
    with assms show ?thesis by (simp add: round_to_mono_nonneg)
  next
    case 2
    with assms have "0 \<le> - y" "- y \<le> - x" by simp_all
    from round_to_mono_nonneg [OF this assms(2), of d] show ?thesis
      by (simp add: round_to_minus)
  next
    case 3
    with round_to_nonpos [of x p d] round_to_nonneg [of y p d] show ?thesis by linarith
  qed
qed

text \<open>
  The value of a rounding, given the exponent: when \<open>\<bar>x\<bar> * 2 ^ k\<close> has exactly \<open>p\<close> bits
  before the point, \<open>x\<close> is rounded to a multiple of \<open>2 ^ - k\<close>.
\<close>

lemma round_to_normal:
  assumes "2 ^ (p - 1) \<le> \<bar>x\<bar> * 2 ^ k" and "\<bar>x\<bar> * 2 ^ k < 2 ^ p" and "k \<le> d" and "1 \<le> p"
  shows "round_to p d x = sgn x * real_of_int (round_half_even (\<bar>x\<bar> * 2 ^ k)) / 2 ^ k"
proof -
  let ?y = "\<bar>x\<bar> * 2 ^ d"
  let ?z = "\<bar>x\<bar> * 2 ^ k"
  from assms(3) have y: "?y = ?z * 2 ^ (d - k)"
    by (simp flip: power_add)
  from assms(1) have "(2::real) ^ (p - 1) * 2 ^ (d - k) \<le> ?z * 2 ^ (d - k)"
    by (intro mult_right_mono) simp_all
  then have "real_of_int (2 ^ (p - 1 + (d - k))) \<le> ?y"
    by (simp add: y power_add)
  then have lo: "2 ^ (p - 1 + (d - k)) \<le> \<lfloor>?y\<rfloor>"
    by (simp only: le_floor_iff)
  from assms(2) have "?z * 2 ^ (d - k) < (2::real) ^ p * 2 ^ (d - k)"
    by (intro mult_strict_right_mono) simp_all
  then have "?y < real_of_int (2 ^ (p + (d - k)))"
    by (simp add: y power_add)
  then have hi: "\<lfloor>?y\<rfloor> < 2 ^ (p + (d - k))"
    by (simp only: floor_less_iff)
  have "nat (int (p + (d - k))) - 1 = p - 1 + (d - k)"
    using assms(4) by simp
  with lo have "int (p + (d - k)) \<le> bitlen \<lfloor>?y\<rfloor>"
    by (simp only: bitlen_ge_iff_power) simp
  moreover from hi have "bitlen \<lfloor>?y\<rfloor> \<le> int (p + (d - k))"
    by (simp only: bitlen_le_iff_power nat_int) simp
  ultimately have "bitlen \<lfloor>?y\<rfloor> = int (p + (d - k))"
    by simp
  then have sh: "nat (bitlen \<lfloor>?y\<rfloor> - int p) = d - k"
    by simp
  have "?y / 2 ^ (d - k) = ?z"
    by (simp add: y)
  then have q: "quantize (d - k) ?y = round_half_even ?z * 2 ^ (d - k)"
    by (simp add: quantize_def)
  have e: "real_of_int (round_half_even ?z * 2 ^ (d - k)) / 2 ^ d
             = real_of_int (round_half_even ?z) / 2 ^ k"
  proof -
    from assms(3) have "(2::real) ^ d = 2 ^ k * 2 ^ (d - k)"
      by (simp flip: power_add)
    then show ?thesis by simp
  qed
  have "round_to p d x = sgn x * (real_of_int (quantize (d - k) ?y) / 2 ^ d)"
    by (simp add: round_to_def Let_def sh)
  also have "\<dots> = sgn x * (real_of_int (round_half_even ?z) / 2 ^ k)"
    by (simp only: q e)
  finally show ?thesis
    by simp
qed

text \<open>A power of two is representable, whatever its size.\<close>

lemma round_to_power2:
  assumes "1 \<le> p"
  shows "round_to p d (2 ^ n) = 2 ^ n"
proof -
  have y: "\<bar>(2::real) ^ n\<bar> * 2 ^ d = real_of_int (2 ^ (n + d))"
    by (simp add: power_add)
  have bl: "bitlen (2 ^ (n + d)) = int (n + d) + 1"
    using bitlen_twopow_add_eq [of 0 "n + d"] by simp
  define t where "t = nat (int (n + d) + 1 - int p)"
  from assms have t: "t \<le> n + d"
    by (simp add: t_def)
  then have "(2::int) ^ (n + d) = 2 ^ (n + d - t) * 2 ^ t"
    by (simp flip: power_add)
  then have "quantize t (real_of_int (2 ^ (n + d))) = 2 ^ (n + d)"
    by (simp only: quantize_multiple)
  then have "round_to p d (2 ^ n) = sgn ((2::real) ^ n) * real_of_int (2 ^ (n + d)) / 2 ^ d"
    unfolding round_to_def Let_def y floor_of_int bl t_def by simp
  then show ?thesis
    by (simp add: power_add)
qed

lemma double_power2: "double (2 ^ n) = 2 ^ n"
  by (simp add: double_def round_to_power2)

lemma double_of_0 [simp]: "double 0 = 0"
  by (simp add: double_def)

lemma float_of_0 [simp]: "float 0 = 0"
  by (simp add: float_def)

lemma double_mono: "x \<le> y \<Longrightarrow> double x \<le> double y"
  by (simp add: double_def round_to_mono)

lemma double_nonneg: "0 \<le> x \<Longrightarrow> 0 \<le> double x"
  by (simp add: double_def round_to_nonneg)

lemma double_nonpos: "x \<le> 0 \<Longrightarrow> double x \<le> 0"
  by (simp add: double_def round_to_nonpos)

lemma to_double_zero [simp]: "to_double 0 = Some 0"
  by (simp add: to_double_def finite_double_def)

lemma to_float_zero [simp]: "to_float 0 = Some 0"
  by (simp add: to_float_def finite_float_def)

lemma to_double_Some_iff: "to_double x = Some v \<longleftrightarrow> finite_double (double x) \<and> v = double x"
  by (auto simp add: to_double_def)

lemma to_double_None_iff: "to_double x = None \<longleftrightarrow> \<not> finite_double (double x)"
  by (simp add: to_double_def)

lemma to_double_mono:
  "to_double x = Some u \<Longrightarrow> to_double y = Some v \<Longrightarrow> x \<le> y \<Longrightarrow> u \<le> v"
  by (simp add: to_double_Some_iff double_mono)

lemma to_double_nonneg: "to_double x = Some u \<Longrightarrow> 0 \<le> x \<Longrightarrow> 0 \<le> u"
  by (simp add: to_double_Some_iff double_nonneg)

lemma to_double_nonpos: "to_double x = Some u \<Longrightarrow> x \<le> 0 \<Longrightarrow> u \<le> 0"
  by (simp add: to_double_Some_iff double_nonpos)

text \<open>
  The rules by which the roundings of the examples are computed: the exponent \<open>k\<close> is
  given, and what remains is arithmetic on numerals.
\<close>

lemma double_normal:
  assumes "2 ^ 52 \<le> \<bar>x\<bar> * 2 ^ k" and "\<bar>x\<bar> * 2 ^ k < 2 ^ 53" and "k \<le> 1074"
    and "sgn x * real_of_int (round_half_even (\<bar>x\<bar> * 2 ^ k)) / 2 ^ k = v"
  shows "double x = v"
  using round_to_normal [of 53 x k 1074] assms by (simp add: double_def)

lemma float_normal:
  assumes "2 ^ 23 \<le> \<bar>x\<bar> * 2 ^ k" and "\<bar>x\<bar> * 2 ^ k < 2 ^ 24" and "k \<le> 149"
    and "sgn x * real_of_int (round_half_even (\<bar>x\<bar> * 2 ^ k)) / 2 ^ k = v"
  shows "float x = v"
  using round_to_normal [of 24 x k 149] assms by (simp add: float_def)

lemma round_half_even_abs_le:
  assumes "0 \<le> z" and "z < 2 ^ p"
  shows "\<bar>real_of_int (round_half_even z)\<bar> \<le> 2 ^ p"
proof -
  from assms(2) have "\<lfloor>z\<rfloor> < 2 ^ p"
    by (simp add: floor_less_iff)
  with round_half_even_bounds [of z] have "round_half_even z \<le> 2 ^ p"
    by linarith
  moreover from assms(1) have "0 \<le> round_half_even z"
    by (rule round_half_even_nonneg)
  ultimately have "\<bar>round_half_even z\<bar> \<le> 2 ^ p"
    by simp
  then have "real_of_int \<bar>round_half_even z\<bar> \<le> real_of_int (2 ^ p)"
    by (simp only: of_int_le_iff)
  then show ?thesis
    by simp
qed

lemma normal_value_bound:
  assumes "\<bar>x\<bar> * 2 ^ k < 2 ^ p"
  shows "\<bar>sgn x * real_of_int (round_half_even (\<bar>x\<bar> * 2 ^ k)) / 2 ^ k\<bar> \<le> 2 ^ p"
proof -
  define A where "A = \<bar>real_of_int (round_half_even (\<bar>x\<bar> * 2 ^ k))\<bar>"
  have A: "0 \<le> A" "A \<le> 2 ^ p"
    unfolding A_def using assms by (simp_all add: round_half_even_abs_le)
  have "\<bar>sgn x * real_of_int (round_half_even (\<bar>x\<bar> * 2 ^ k)) / 2 ^ k\<bar> = \<bar>sgn x\<bar> * (A / 2 ^ k)"
    by (simp add: A_def abs_mult)
  also have "\<dots> \<le> 1 * (A / 2 ^ k)"
    using A(1) by (intro mult_right_mono) (simp_all add: abs_sgn_eq)
  also have "\<dots> \<le> A"
  proof -
    have "A * 1 \<le> A * 2 ^ k"
      using A(1) by (intro mult_left_mono) simp_all
    then show ?thesis
      by (simp add: field_simps)
  qed
  finally show ?thesis
    using A(2) by simp
qed

lemma finite_double_small: "\<bar>x\<bar> \<le> 2 ^ 53 \<Longrightarrow> finite_double x"
proof -
  assume "\<bar>x\<bar> \<le> 2 ^ 53"
  also have "(2::real) ^ 53 < 2 ^ 1024"
    by (rule power_strict_increasing) simp_all
  finally show ?thesis
    by (simp add: finite_double_def)
qed

lemma finite_float_small: "\<bar>x\<bar> \<le> 2 ^ 24 \<Longrightarrow> finite_float x"
proof -
  assume "\<bar>x\<bar> \<le> 2 ^ 24"
  also have "(2::real) ^ 24 < 2 ^ 128"
    by (rule power_strict_increasing) simp_all
  finally show ?thesis
    by (simp add: finite_float_def)
qed

lemma to_double_normal:
  assumes "2 ^ 52 \<le> \<bar>x\<bar> * 2 ^ k" and "\<bar>x\<bar> * 2 ^ k < 2 ^ 53" and "k \<le> 1074"
    and "sgn x * real_of_int (round_half_even (\<bar>x\<bar> * 2 ^ k)) / 2 ^ k = v"
  shows "to_double x = Some v"
proof -
  have "\<bar>v\<bar> \<le> 2 ^ 53"
    using normal_value_bound [OF assms(2)] assms(4) by simp
  then have "finite_double v"
    by (rule finite_double_small)
  then show ?thesis
    using double_normal [OF assms] by (simp add: to_double_def)
qed

lemma to_float_normal:
  assumes "2 ^ 23 \<le> \<bar>x\<bar> * 2 ^ k" and "\<bar>x\<bar> * 2 ^ k < 2 ^ 24" and "k \<le> 149"
    and "sgn x * real_of_int (round_half_even (\<bar>x\<bar> * 2 ^ k)) / 2 ^ k = v"
  shows "to_float x = Some v"
proof -
  have "\<bar>v\<bar> \<le> 2 ^ 24"
    using normal_value_bound [OF assms(2)] assms(4) by simp
  then have "finite_float v"
    by (rule finite_float_small)
  then show ?thesis
    using float_normal [OF assms] by (simp add: to_float_def)
qed


text \<open>
  The literals and the roundings of the examples, each with the exponent of its result.
\<close>

lemma double_literals:
  "double (1 / 10) = 3602879701896397 / 36028797018963968"
  "double (3 / 10) = 5404319552844595 / 18014398509481984"
  "double (7 / 20) = 3152519739159347 / 9007199254740992"
  "double (2 / 5) = 3602879701896397 / 9007199254740992"
  "double (3 / 5) = 5404319552844595 / 9007199254740992"
  "double (13 / 20) = 5854679515581645 / 9007199254740992"
  "double (11 / 10) = 2476979795053773 / 2251799813685248"
  "double (7 / 5) = 3152519739159347 / 2251799813685248"
proof -
  show "double (1 / 10) = 3602879701896397 / 36028797018963968"
    by (rule double_normal [where k = 56]) (simp_all add: round_half_even_def Let_def)
  show "double (3 / 10) = 5404319552844595 / 18014398509481984"
    by (rule double_normal [where k = 54]) (simp_all add: round_half_even_def Let_def)
  show "double (7 / 20) = 3152519739159347 / 9007199254740992"
    by (rule double_normal [where k = 54]) (simp_all add: round_half_even_def Let_def)
  show "double (2 / 5) = 3602879701896397 / 9007199254740992"
    by (rule double_normal [where k = 54]) (simp_all add: round_half_even_def Let_def)
  show "double (3 / 5) = 5404319552844595 / 9007199254740992"
    by (rule double_normal [where k = 53]) (simp_all add: round_half_even_def Let_def)
  show "double (13 / 20) = 5854679515581645 / 9007199254740992"
    by (rule double_normal [where k = 53]) (simp_all add: round_half_even_def Let_def)
  show "double (11 / 10) = 2476979795053773 / 2251799813685248"
    by (rule double_normal [where k = 52]) (simp_all add: round_half_even_def Let_def)
  show "double (7 / 5) = 3152519739159347 / 2251799813685248"
    by (rule double_normal [where k = 52]) (simp_all add: round_half_even_def Let_def)
qed

lemma to_double_values:
  "to_double (- (4235537568012571158425136833495 / 633825300114114700748351602688)) = Some (- (3761913063737917 / 562949953421312))"
  "to_double (- (52084129690539779 / 9007199254740992)) = Some (- (203453631603671 / 35184372088832))"
  "to_double (- (203453631603671 / 35184372088832)) = Some (- (203453631603671 / 35184372088832))"
  "to_double (- (11146409077741977 / 2251799813685248)) = Some (- (1393301134717747 / 281474976710656))"
  "to_double (- (17564038546744935 / 9007199254740992)) = Some (- (2195504818343117 / 1125899906842624))"
  "to_double (- (4357232639480955 / 4503599627370496)) = Some (- (4357232639480955 / 4503599627370496))"
  "to_double (- (6921372277246132723574983664599 / 10141204801825835211973625643008)) = Some (- (6147413491360727 / 9007199254740992))"
  "to_double (- (6921372277246131597675076821975 / 10141204801825835211973625643008)) = Some (- (3073706745680363 / 4503599627370496))"
  "to_double (- (3073706745680363 / 4503599627370496)) = Some (- (3073706745680363 / 4503599627370496))"
  "to_double (- (1503076375634903 / 2251799813685248)) = Some (- (1503076375634903 / 2251799813685248))"
  "to_double (- (5854679515581645 / 9007199254740992)) = Some (- (5854679515581645 / 9007199254740992))"
  "to_double (- (10808639105689191 / 18014398509481984)) = Some (- (1351079888211149 / 2251799813685248))"
  "to_double (- (19815838360430183 / 36028797018963968)) = Some (- (2476979795053773 / 4503599627370496))"
  "to_double (- (67108865 / 134217728)) = Some (- (67108865 / 134217728))"
  "to_double (- (2195504818343117 / 4503599627370496)) = Some (- (2195504818343117 / 4503599627370496))"
  "to_double (- (4053239664633447 / 9007199254740992)) = Some (- (4053239664633447 / 9007199254740992))"
  "to_double (- (16732987923012626973856575468339 / 40564819207303340847894502572032)) = Some (- (3715469692580659 / 9007199254740992))"
  "to_double (- (3152519739159347 / 9007199254740992)) = Some (- (3152519739159347 / 9007199254740992))"
  "to_double (- (9007199254740991 / 36028797018963968)) = Some (- (9007199254740991 / 36028797018963968))"
  "to_double (- (900719925474099 / 4503599627370496)) = Some (- (900719925474099 / 4503599627370496))"
  "to_double (- (3017411750338233 / 18014398509481984)) = Some (- (3017411750338233 / 18014398509481984))"
  "to_double (- (1351079888211149 / 9007199254740992)) = Some (- (1351079888211149 / 9007199254740992))"
  "to_double (5476250592985952635761623700603 / 81129638414606681695789005144064) = Some (4863887597560137 / 72057594037927936)"
  "to_double (1 / 10) = Some (3602879701896397 / 36028797018963968)"
  "to_double (3602879701896397 / 36028797018963968) = Some (3602879701896397 / 36028797018963968)"
  "to_double (225179981368525 / 2251799813685248) = Some (225179981368525 / 2251799813685248)"
  "to_double (1216944576219100135364842529751 / 10141204801825835211973625643008) = Some (1080863910568919 / 9007199254740992)"
  "to_double (1351079888211149 / 9007199254740992) = Some (1351079888211149 / 9007199254740992)"
  "to_double (12069647001352931 / 72057594037927936) = Some (3017411750338233 / 18014398509481984)"
  "to_double (3017411750338233 / 18014398509481984) = Some (3017411750338233 / 18014398509481984)"
  "to_double (29206669829258403248756220714025 / 162259276829213363391578010288128) = Some (3242591731706757 / 18014398509481984)"
  "to_double (1 / 5) = Some (3602879701896397 / 18014398509481984)"
  "to_double (3602879701896397 / 18014398509481984) = Some (3602879701896397 / 18014398509481984)"
  "to_double (979532918953083 / 4503599627370496) = Some (979532918953083 / 4503599627370496)"
  "to_double (1959065837906167 / 9007199254740992) = Some (1959065837906167 / 9007199254740992)"
  "to_double (1 / 4) = Some (1 / 4)"
  "to_double (5404319552844595 / 18014398509481984) = Some (5404319552844595 / 18014398509481984)"
  "to_double (5 / 16) = Some (5 / 16)"
  "to_double (3152519739159347 / 9007199254740992) = Some (3152519739159347 / 9007199254740992)"
  "to_double (3602879701896397 / 9007199254740992) = Some (3602879701896397 / 9007199254740992)"
  "to_double (17037224067067401444747832679465 / 40564819207303340847894502572032) = Some (7566047373982433 / 18014398509481984)"
  "to_double (2105432792241275 / 4503599627370496) = Some (2105432792241275 / 4503599627370496)"
  "to_double (2105432825795707 / 4503599627370496) = Some (2105432825795707 / 4503599627370496)"
  "to_double (33686925212731313 / 72057594037927936) = Some (2105432825795707 / 4503599627370496)"
  "to_double (2195504818343117 / 4503599627370496) = Some (2195504818343117 / 4503599627370496)"
  "to_double (1 / 2) = Some (1 / 2)"
  "to_double (21617278211378381 / 36028797018963968) = Some (5404319552844595 / 9007199254740992)"
  "to_double (2251799813685248 / 3602879701896397) = Some (5 / 8)"
  "to_double (5854679515581645 / 9007199254740992) = Some (5854679515581645 / 9007199254740992)"
  "to_double (1503076375634903 / 2251799813685248) = Some (1503076375634903 / 2251799813685248)"
  "to_double (48098444020316897 / 72057594037927936) = Some (1503076375634903 / 2251799813685248)"
  "to_double (3152519739159347 / 4503599627370496) = Some (3152519739159347 / 4503599627370496)"
  "to_double (27021597764222973 / 36028797018963968) = Some (6755399441055743 / 9007199254740992)"
  "to_double (8106479329266893 / 9007199254740992) = Some (8106479329266893 / 9007199254740992)"
  "to_double (4357232639480955 / 4503599627370496) = Some (4357232639480955 / 4503599627370496)"
  "to_double (69715722231695281 / 72057594037927936) = Some (4357232639480955 / 4503599627370496)"
  "to_double 1 = Some 1"
  "to_double (2296835809958953 / 2251799813685248) = Some (2296835809958953 / 2251799813685248)"
  "to_double (9457559217478041 / 9007199254740992) = Some (1182194902184755 / 1125899906842624)"
  "to_double (12159718993900339 / 9007199254740992) = Some (3039929748475085 / 2251799813685248)"
  "to_double (3 / 2) = Some (3 / 2)"
  "to_double (8 / 5) = Some (3602879701896397 / 2251799813685248)"
  "to_double (14861878770322637 / 9007199254740992) = Some (3715469692580659 / 2251799813685248)"
  "to_double 2 = Some 2"
  "to_double (27021597764222975 / 9007199254740992) = Some 3"
  "to_double 3 = Some 3"
  "to_double 5 = Some 5"
  "to_double (36028797018963968 / 3602879701896397) = Some 10"
  "to_double 10 = Some 10"
proof -
  show "to_double (- (4235537568012571158425136833495 / 633825300114114700748351602688)) = Some (- (3761913063737917 / 562949953421312))"
    by (rule to_double_normal [where k = 50]) (simp_all add: round_half_even_def Let_def)
  show "to_double (- (52084129690539779 / 9007199254740992)) = Some (- (203453631603671 / 35184372088832))"
    by (rule to_double_normal [where k = 50]) (simp_all add: round_half_even_def Let_def)
  show "to_double (- (203453631603671 / 35184372088832)) = Some (- (203453631603671 / 35184372088832))"
    by (rule to_double_normal [where k = 50]) (simp_all add: round_half_even_def Let_def)
  show "to_double (- (11146409077741977 / 2251799813685248)) = Some (- (1393301134717747 / 281474976710656))"
    by (rule to_double_normal [where k = 50]) (simp_all add: round_half_even_def Let_def)
  show "to_double (- (17564038546744935 / 9007199254740992)) = Some (- (2195504818343117 / 1125899906842624))"
    by (rule to_double_normal [where k = 52]) (simp_all add: round_half_even_def Let_def)
  show "to_double (- (4357232639480955 / 4503599627370496)) = Some (- (4357232639480955 / 4503599627370496))"
    by (rule to_double_normal [where k = 53]) (simp_all add: round_half_even_def Let_def)
  show "to_double (- (6921372277246132723574983664599 / 10141204801825835211973625643008)) = Some (- (6147413491360727 / 9007199254740992))"
    by (rule to_double_normal [where k = 53]) (simp_all add: round_half_even_def Let_def)
  show "to_double (- (6921372277246131597675076821975 / 10141204801825835211973625643008)) = Some (- (3073706745680363 / 4503599627370496))"
    by (rule to_double_normal [where k = 53]) (simp_all add: round_half_even_def Let_def)
  show "to_double (- (3073706745680363 / 4503599627370496)) = Some (- (3073706745680363 / 4503599627370496))"
    by (rule to_double_normal [where k = 53]) (simp_all add: round_half_even_def Let_def)
  show "to_double (- (1503076375634903 / 2251799813685248)) = Some (- (1503076375634903 / 2251799813685248))"
    by (rule to_double_normal [where k = 53]) (simp_all add: round_half_even_def Let_def)
  show "to_double (- (5854679515581645 / 9007199254740992)) = Some (- (5854679515581645 / 9007199254740992))"
    by (rule to_double_normal [where k = 53]) (simp_all add: round_half_even_def Let_def)
  show "to_double (- (10808639105689191 / 18014398509481984)) = Some (- (1351079888211149 / 2251799813685248))"
    by (rule to_double_normal [where k = 53]) (simp_all add: round_half_even_def Let_def)
  show "to_double (- (19815838360430183 / 36028797018963968)) = Some (- (2476979795053773 / 4503599627370496))"
    by (rule to_double_normal [where k = 53]) (simp_all add: round_half_even_def Let_def)
  show "to_double (- (67108865 / 134217728)) = Some (- (67108865 / 134217728))"
    by (rule to_double_normal [where k = 53]) (simp_all add: round_half_even_def Let_def)
  show "to_double (- (2195504818343117 / 4503599627370496)) = Some (- (2195504818343117 / 4503599627370496))"
    by (rule to_double_normal [where k = 54]) (simp_all add: round_half_even_def Let_def)
  show "to_double (- (4053239664633447 / 9007199254740992)) = Some (- (4053239664633447 / 9007199254740992))"
    by (rule to_double_normal [where k = 54]) (simp_all add: round_half_even_def Let_def)
  show "to_double (- (16732987923012626973856575468339 / 40564819207303340847894502572032)) = Some (- (3715469692580659 / 9007199254740992))"
    by (rule to_double_normal [where k = 54]) (simp_all add: round_half_even_def Let_def)
  show "to_double (- (3152519739159347 / 9007199254740992)) = Some (- (3152519739159347 / 9007199254740992))"
    by (rule to_double_normal [where k = 54]) (simp_all add: round_half_even_def Let_def)
  show "to_double (- (9007199254740991 / 36028797018963968)) = Some (- (9007199254740991 / 36028797018963968))"
    by (rule to_double_normal [where k = 55]) (simp_all add: round_half_even_def Let_def)
  show "to_double (- (900719925474099 / 4503599627370496)) = Some (- (900719925474099 / 4503599627370496))"
    by (rule to_double_normal [where k = 55]) (simp_all add: round_half_even_def Let_def)
  show "to_double (- (3017411750338233 / 18014398509481984)) = Some (- (3017411750338233 / 18014398509481984))"
    by (rule to_double_normal [where k = 55]) (simp_all add: round_half_even_def Let_def)
  show "to_double (- (1351079888211149 / 9007199254740992)) = Some (- (1351079888211149 / 9007199254740992))"
    by (rule to_double_normal [where k = 55]) (simp_all add: round_half_even_def Let_def)
  show "to_double (5476250592985952635761623700603 / 81129638414606681695789005144064) = Some (4863887597560137 / 72057594037927936)"
    by (rule to_double_normal [where k = 56]) (simp_all add: round_half_even_def Let_def)
  show "to_double (1 / 10) = Some (3602879701896397 / 36028797018963968)"
    by (rule to_double_normal [where k = 56]) (simp_all add: round_half_even_def Let_def)
  show "to_double (3602879701896397 / 36028797018963968) = Some (3602879701896397 / 36028797018963968)"
    by (rule to_double_normal [where k = 56]) (simp_all add: round_half_even_def Let_def)
  show "to_double (225179981368525 / 2251799813685248) = Some (225179981368525 / 2251799813685248)"
    by (rule to_double_normal [where k = 56]) (simp_all add: round_half_even_def Let_def)
  show "to_double (1216944576219100135364842529751 / 10141204801825835211973625643008) = Some (1080863910568919 / 9007199254740992)"
    by (rule to_double_normal [where k = 56]) (simp_all add: round_half_even_def Let_def)
  show "to_double (1351079888211149 / 9007199254740992) = Some (1351079888211149 / 9007199254740992)"
    by (rule to_double_normal [where k = 55]) (simp_all add: round_half_even_def Let_def)
  show "to_double (12069647001352931 / 72057594037927936) = Some (3017411750338233 / 18014398509481984)"
    by (rule to_double_normal [where k = 55]) (simp_all add: round_half_even_def Let_def)
  show "to_double (3017411750338233 / 18014398509481984) = Some (3017411750338233 / 18014398509481984)"
    by (rule to_double_normal [where k = 55]) (simp_all add: round_half_even_def Let_def)
  show "to_double (29206669829258403248756220714025 / 162259276829213363391578010288128) = Some (3242591731706757 / 18014398509481984)"
    by (rule to_double_normal [where k = 55]) (simp_all add: round_half_even_def Let_def)
  show "to_double (1 / 5) = Some (3602879701896397 / 18014398509481984)"
    by (rule to_double_normal [where k = 55]) (simp_all add: round_half_even_def Let_def)
  show "to_double (3602879701896397 / 18014398509481984) = Some (3602879701896397 / 18014398509481984)"
    by (rule to_double_normal [where k = 55]) (simp_all add: round_half_even_def Let_def)
  show "to_double (979532918953083 / 4503599627370496) = Some (979532918953083 / 4503599627370496)"
    by (rule to_double_normal [where k = 55]) (simp_all add: round_half_even_def Let_def)
  show "to_double (1959065837906167 / 9007199254740992) = Some (1959065837906167 / 9007199254740992)"
    by (rule to_double_normal [where k = 55]) (simp_all add: round_half_even_def Let_def)
  show "to_double (1 / 4) = Some (1 / 4)"
    by (rule to_double_normal [where k = 54]) (simp_all add: round_half_even_def Let_def)
  show "to_double (5404319552844595 / 18014398509481984) = Some (5404319552844595 / 18014398509481984)"
    by (rule to_double_normal [where k = 54]) (simp_all add: round_half_even_def Let_def)
  show "to_double (5 / 16) = Some (5 / 16)"
    by (rule to_double_normal [where k = 54]) (simp_all add: round_half_even_def Let_def)
  show "to_double (3152519739159347 / 9007199254740992) = Some (3152519739159347 / 9007199254740992)"
    by (rule to_double_normal [where k = 54]) (simp_all add: round_half_even_def Let_def)
  show "to_double (3602879701896397 / 9007199254740992) = Some (3602879701896397 / 9007199254740992)"
    by (rule to_double_normal [where k = 54]) (simp_all add: round_half_even_def Let_def)
  show "to_double (17037224067067401444747832679465 / 40564819207303340847894502572032) = Some (7566047373982433 / 18014398509481984)"
    by (rule to_double_normal [where k = 54]) (simp_all add: round_half_even_def Let_def)
  show "to_double (2105432792241275 / 4503599627370496) = Some (2105432792241275 / 4503599627370496)"
    by (rule to_double_normal [where k = 54]) (simp_all add: round_half_even_def Let_def)
  show "to_double (2105432825795707 / 4503599627370496) = Some (2105432825795707 / 4503599627370496)"
    by (rule to_double_normal [where k = 54]) (simp_all add: round_half_even_def Let_def)
  show "to_double (33686925212731313 / 72057594037927936) = Some (2105432825795707 / 4503599627370496)"
    by (rule to_double_normal [where k = 54]) (simp_all add: round_half_even_def Let_def)
  show "to_double (2195504818343117 / 4503599627370496) = Some (2195504818343117 / 4503599627370496)"
    by (rule to_double_normal [where k = 54]) (simp_all add: round_half_even_def Let_def)
  show "to_double (1 / 2) = Some (1 / 2)"
    by (rule to_double_normal [where k = 53]) (simp_all add: round_half_even_def Let_def)
  show "to_double (21617278211378381 / 36028797018963968) = Some (5404319552844595 / 9007199254740992)"
    by (rule to_double_normal [where k = 53]) (simp_all add: round_half_even_def Let_def)
  show "to_double (2251799813685248 / 3602879701896397) = Some (5 / 8)"
    by (rule to_double_normal [where k = 53]) (simp_all add: round_half_even_def Let_def)
  show "to_double (5854679515581645 / 9007199254740992) = Some (5854679515581645 / 9007199254740992)"
    by (rule to_double_normal [where k = 53]) (simp_all add: round_half_even_def Let_def)
  show "to_double (1503076375634903 / 2251799813685248) = Some (1503076375634903 / 2251799813685248)"
    by (rule to_double_normal [where k = 53]) (simp_all add: round_half_even_def Let_def)
  show "to_double (48098444020316897 / 72057594037927936) = Some (1503076375634903 / 2251799813685248)"
    by (rule to_double_normal [where k = 53]) (simp_all add: round_half_even_def Let_def)
  show "to_double (3152519739159347 / 4503599627370496) = Some (3152519739159347 / 4503599627370496)"
    by (rule to_double_normal [where k = 53]) (simp_all add: round_half_even_def Let_def)
  show "to_double (27021597764222973 / 36028797018963968) = Some (6755399441055743 / 9007199254740992)"
    by (rule to_double_normal [where k = 53]) (simp_all add: round_half_even_def Let_def)
  show "to_double (8106479329266893 / 9007199254740992) = Some (8106479329266893 / 9007199254740992)"
    by (rule to_double_normal [where k = 53]) (simp_all add: round_half_even_def Let_def)
  show "to_double (4357232639480955 / 4503599627370496) = Some (4357232639480955 / 4503599627370496)"
    by (rule to_double_normal [where k = 53]) (simp_all add: round_half_even_def Let_def)
  show "to_double (69715722231695281 / 72057594037927936) = Some (4357232639480955 / 4503599627370496)"
    by (rule to_double_normal [where k = 53]) (simp_all add: round_half_even_def Let_def)
  show "to_double 1 = Some 1"
    by (rule to_double_normal [where k = 52]) (simp_all add: round_half_even_def Let_def)
  show "to_double (2296835809958953 / 2251799813685248) = Some (2296835809958953 / 2251799813685248)"
    by (rule to_double_normal [where k = 52]) (simp_all add: round_half_even_def Let_def)
  show "to_double (9457559217478041 / 9007199254740992) = Some (1182194902184755 / 1125899906842624)"
    by (rule to_double_normal [where k = 52]) (simp_all add: round_half_even_def Let_def)
  show "to_double (12159718993900339 / 9007199254740992) = Some (3039929748475085 / 2251799813685248)"
    by (rule to_double_normal [where k = 52]) (simp_all add: round_half_even_def Let_def)
  show "to_double (3 / 2) = Some (3 / 2)"
    by (rule to_double_normal [where k = 52]) (simp_all add: round_half_even_def Let_def)
  show "to_double (8 / 5) = Some (3602879701896397 / 2251799813685248)"
    by (rule to_double_normal [where k = 52]) (simp_all add: round_half_even_def Let_def)
  show "to_double (14861878770322637 / 9007199254740992) = Some (3715469692580659 / 2251799813685248)"
    by (rule to_double_normal [where k = 52]) (simp_all add: round_half_even_def Let_def)
  show "to_double 2 = Some 2"
    by (rule to_double_normal [where k = 51]) (simp_all add: round_half_even_def Let_def)
  show "to_double (27021597764222975 / 9007199254740992) = Some 3"
    by (rule to_double_normal [where k = 51]) (simp_all add: round_half_even_def Let_def)
  show "to_double 3 = Some 3"
    by (rule to_double_normal [where k = 51]) (simp_all add: round_half_even_def Let_def)
  show "to_double 5 = Some 5"
    by (rule to_double_normal [where k = 50]) (simp_all add: round_half_even_def Let_def)
  show "to_double (36028797018963968 / 3602879701896397) = Some 10"
    by (rule to_double_normal [where k = 49]) (simp_all add: round_half_even_def Let_def)
  show "to_double 10 = Some 10"
    by (rule to_double_normal [where k = 49]) (simp_all add: round_half_even_def Let_def)
qed

lemma to_float_values:
  "to_float (225179981368525 / 2251799813685248) = Some (13421773 / 134217728)"
proof -
  show "to_float (225179981368525 / 2251799813685248) = Some (13421773 / 134217728)"
    by (rule to_float_normal [where k = 27]) (simp_all add: round_half_even_def Let_def)
qed

lemma double_values:
  "double (29206669829258403248756220714025 / 162259276829213363391578010288128) = 3242591731706757 / 18014398509481984"
  "double (1 / 5) = 3602879701896397 / 18014398509481984"
  "double (1 / 4) = 1 / 4"
  "double (5404319552844595 / 18014398509481984) = 5404319552844595 / 18014398509481984"
  "double (5 / 16) = 5 / 16"
  "double (17037224067067401444747832679465 / 40564819207303340847894502572032) = 7566047373982433 / 18014398509481984"
  "double (1 / 2) = 1 / 2"
  "double (2251799813685248 / 3602879701896397) = 5 / 8"
  "double (3152519739159347 / 4503599627370496) = 3152519739159347 / 4503599627370496"
  "double 1 = 1"
  "double (3 / 2) = 3 / 2"
  "double (8 / 5) = 3602879701896397 / 2251799813685248"
  "double 2 = 2"
  "double (27021597764222975 / 9007199254740992) = 3"
  "double 3 = 3"
  "double 5 = 5"
  "double (36028797018963968 / 3602879701896397) = 10"
  "double 10 = 10"
proof -
  show "double (29206669829258403248756220714025 / 162259276829213363391578010288128) = 3242591731706757 / 18014398509481984"
    by (rule double_normal [where k = 55]) (simp_all add: round_half_even_def Let_def)
  show "double (1 / 5) = 3602879701896397 / 18014398509481984"
    by (rule double_normal [where k = 55]) (simp_all add: round_half_even_def Let_def)
  show "double (1 / 4) = 1 / 4"
    by (rule double_normal [where k = 54]) (simp_all add: round_half_even_def Let_def)
  show "double (5404319552844595 / 18014398509481984) = 5404319552844595 / 18014398509481984"
    by (rule double_normal [where k = 54]) (simp_all add: round_half_even_def Let_def)
  show "double (5 / 16) = 5 / 16"
    by (rule double_normal [where k = 54]) (simp_all add: round_half_even_def Let_def)
  show "double (17037224067067401444747832679465 / 40564819207303340847894502572032) = 7566047373982433 / 18014398509481984"
    by (rule double_normal [where k = 54]) (simp_all add: round_half_even_def Let_def)
  show "double (1 / 2) = 1 / 2"
    by (rule double_normal [where k = 53]) (simp_all add: round_half_even_def Let_def)
  show "double (2251799813685248 / 3602879701896397) = 5 / 8"
    by (rule double_normal [where k = 53]) (simp_all add: round_half_even_def Let_def)
  show "double (3152519739159347 / 4503599627370496) = 3152519739159347 / 4503599627370496"
    by (rule double_normal [where k = 53]) (simp_all add: round_half_even_def Let_def)
  show "double 1 = 1"
    by (rule double_normal [where k = 52]) (simp_all add: round_half_even_def Let_def)
  show "double (3 / 2) = 3 / 2"
    by (rule double_normal [where k = 52]) (simp_all add: round_half_even_def Let_def)
  show "double (8 / 5) = 3602879701896397 / 2251799813685248"
    by (rule double_normal [where k = 52]) (simp_all add: round_half_even_def Let_def)
  show "double 2 = 2"
    by (rule double_normal [where k = 51]) (simp_all add: round_half_even_def Let_def)
  show "double (27021597764222975 / 9007199254740992) = 3"
    by (rule double_normal [where k = 51]) (simp_all add: round_half_even_def Let_def)
  show "double 3 = 3"
    by (rule double_normal [where k = 51]) (simp_all add: round_half_even_def Let_def)
  show "double 5 = 5"
    by (rule double_normal [where k = 50]) (simp_all add: round_half_even_def Let_def)
  show "double (36028797018963968 / 3602879701896397) = 10"
    by (rule double_normal [where k = 49]) (simp_all add: round_half_even_def Let_def)
  show "double 10 = 10"
    by (rule double_normal [where k = 49]) (simp_all add: round_half_even_def Let_def)
qed

lemmas roundings = double_literals to_double_values to_float_values double_values

section \<open>The confidence formula\<close>

lemma a_value: "a = - 3"
  by (simp add: a_def signed_divide_int_def)

lemma default_roots_simps [simp]:
  "root_1 default_roots = double 0.35" "root_2 default_roots = double 0.65"
  by (simp_all add: default_roots_def static_initialisation_def)

lemma test_bank_argument_simps [simp]:
  "ema_alpha test_bank_argument = 1"
  "base_confidence test_bank_argument = double 0.4"
  "nr_scans_in_bank test_bank_argument = 11"
  "topic_objects test_bank_argument = ''moving_objects''"
  by (simp_all add: test_bank_argument_def)

text \<open>The steps of a call that returns a finite value.\<close>

lemma calculateConfidence_Some_iff:
  "calculateConfidence g mo ba dt w u1 u2 u3 u4 u5 u6 = Some c \<longleftrightarrow>
     (\<exists>sum_1.
        to_double (base_confidence ba + (if u1 \<and> u2 \<and> u3 \<and> u4 \<and> u5 \<and> u6 then 0.5 else 0.0))
          = Some sum_1 \<and>
     (\<exists>factor_1. to_double (dt - root_1 g) = Some factor_1 \<and>
     (\<exists>product_1. to_double (- 3 * factor_1) = Some product_1 \<and>
     (\<exists>factor_2. to_double (dt - root_2 g) = Some factor_2 \<and>
     (\<exists>product_2. to_double (product_1 * factor_2) = Some product_2 \<and>
     (\<exists>sum_2. to_double (sum_1 + product_2) = Some sum_2 \<and>
     (\<exists>delta_width. to_double (seen_width mo - w) = Some delta_width \<and>
     (\<exists>abs_width. fabsf delta_width = Some abs_width \<and>
     (\<exists>product_3. to_double (- 5.0 * abs_width) = Some product_3 \<and>
     (\<exists>sum_3. to_double (sum_2 + product_3) = Some sum_3 \<and>
        to_double (ema_alpha ba * sum_3) = Some c))))))))))"
  by (simp only: calculateConfidence_def double_add_def double_sub_def double_mul_def a_value
      bind_eq_Some_conv)

text \<open>
  From the first sum and the parabola to the result, every step is monotone; the last one
  turns the order round when \<open>ema_alpha\<close> is negative.
\<close>

lemma confidence_tail_mono:
  assumes "to_double (sum_1 + product_2) = Some sum_2"
    and "to_double (sum_2 + product_3) = Some sum_3"
    and "to_double (alpha * sum_3) = Some c"
    and "to_double (sum_1' + product_2') = Some sum_2'"
    and "to_double (sum_2' + product_3) = Some sum_3'"
    and "to_double (alpha * sum_3') = Some c'"
    and "sum_1' \<le> sum_1" and "product_2' \<le> product_2"
  shows "(0 \<le> alpha \<longrightarrow> c' \<le> c) \<and> (alpha \<le> 0 \<longrightarrow> c \<le> c')"
proof -
  from assms(7,8) have "sum_1' + product_2' \<le> sum_1 + product_2" by simp
  with assms(4,1) have "sum_2' \<le> sum_2" by (rule to_double_mono)
  then have "sum_2' + product_3 \<le> sum_2 + product_3" by simp
  with assms(5,2) have s3: "sum_3' \<le> sum_3" by (rule to_double_mono)
  show ?thesis
  proof (intro conjI impI)
    assume "0 \<le> alpha"
    with s3 have "alpha * sum_3' \<le> alpha * sum_3" by (rule mult_left_mono)
    with assms(6,3) show "c' \<le> c" by (rule to_double_mono)
  next
    assume "alpha \<le> 0"
    with s3 have "alpha * sum_3 \<le> alpha * sum_3'" by (rule mult_left_mono_neg)
    with assms(3,6) show "c \<le> c'" by (rule to_double_mono)
  qed
qed

text \<open>
  The sign of the rounded parabola \<^verbatim>\<open>a*(dt-root_1)*(dt-root_2)\<close>, and its order on either
  side of the roots.
\<close>

lemma parabola_between:
  assumes "to_double (dt - r1) = Some factor_1" and "to_double (- 3 * factor_1) = Some product_1"
    and "to_double (dt - r2) = Some factor_2" and "to_double (product_1 * factor_2) = Some product_2"
    and "min r1 r2 \<le> dt" and "dt \<le> max r1 r2"
  shows "0 \<le> product_2"
proof (cases "r1 \<le> r2")
  case True
  with assms(5,6) have d: "0 \<le> dt - r1" "dt - r2 \<le> 0" by simp_all
  have f: "0 \<le> factor_1" "factor_2 \<le> 0"
    using assms(1) d(1) to_double_nonneg apply blast
    using assms(3) d(2) to_double_nonpos by blast
  then have "- 3 * factor_1 \<le> 0" by simp
  with assms(2) have "product_1 \<le> 0" by (rule to_double_nonpos)
  with f have "0 \<le> product_1 * factor_2" by (simp add: mult_nonpos_nonpos)
  with assms(4) show ?thesis by (rule to_double_nonneg)
next
  case False
  with assms(5,6) have d: "dt - r1 \<le> 0" "0 \<le> dt - r2" by simp_all
  have f: "factor_1 \<le> 0" "0 \<le> factor_2"
    using assms(1) d(1) to_double_nonpos apply blast
    using assms(3) d(2) to_double_nonneg by blast
  then have "0 \<le> - 3 * factor_1" by simp
  with assms(2) have "0 \<le> product_1" by (rule to_double_nonneg)
  with f have "0 \<le> product_1 * factor_2" by simp
  with assms(4) show ?thesis by (rule to_double_nonneg)
qed

lemma parabola_outside:
  assumes "to_double (dt - r1) = Some factor_1" and "to_double (- 3 * factor_1) = Some product_1"
    and "to_double (dt - r2) = Some factor_2" and "to_double (product_1 * factor_2) = Some product_2"
    and "dt \<le> min r1 r2 \<or> max r1 r2 \<le> dt"
  shows "product_2 \<le> 0"
proof (cases "dt \<le> min r1 r2")
  case True
  then have d: "dt - r1 \<le> 0" "dt - r2 \<le> 0" by simp_all
  have f: "factor_1 \<le> 0" "factor_2 \<le> 0"
    using assms(1) d(1) to_double_nonpos apply blast
    using assms(3) d(2) to_double_nonpos by blast
  then have "0 \<le> - 3 * factor_1" by simp
  with assms(2) have "0 \<le> product_1" by (rule to_double_nonneg)
  with f have "product_1 * factor_2 \<le> 0" by (simp add: mult_nonneg_nonpos)
  with assms(4) show ?thesis by (rule to_double_nonpos)
next
  case False
  with assms(5) have "max r1 r2 \<le> dt" by blast
  then have d: "0 \<le> dt - r1" "0 \<le> dt - r2" by simp_all
  have f: "0 \<le> factor_1" "0 \<le> factor_2"
    using assms(1) d(1) to_double_nonneg apply blast
    using assms(3) d(2) to_double_nonneg by blast
  then have "- 3 * factor_1 \<le> 0" by simp
  with assms(2) have "product_1 \<le> 0" by (rule to_double_nonpos)
  with f have "product_1 * factor_2 \<le> 0" by (simp add: mult_nonpos_nonneg)
  with assms(4) show ?thesis by (rule to_double_nonpos)
qed

lemma parabola_right:
  assumes "to_double (dt - r1) = Some factor_1" and "to_double (- 3 * factor_1) = Some product_1"
    and "to_double (dt - r2) = Some factor_2" and "to_double (product_1 * factor_2) = Some product_2"
    and "to_double (dt' - r1) = Some factor_1'" and "to_double (- 3 * factor_1') = Some product_1'"
    and "to_double (dt' - r2) = Some factor_2'"
    and "to_double (product_1' * factor_2') = Some product_2'"
    and "max r1 r2 \<le> dt" and "dt \<le> dt'"
  shows "product_2' \<le> product_2"
proof -
  from assms(9,10) have d: "0 \<le> dt - r1" "0 \<le> dt - r2" "dt - r1 \<le> dt' - r1"
    "dt - r2 \<le> dt' - r2"
    by simp_all
  from assms(1) d(1) have f1: "0 \<le> factor_1" by (rule to_double_nonneg)
  from assms(3) d(2) have f2: "0 \<le> factor_2" by (rule to_double_nonneg)
  from assms(1,5) d(3) have f3: "factor_1 \<le> factor_1'" by (rule to_double_mono)
  from assms(3,7) d(4) have f4: "factor_2 \<le> factor_2'" by (rule to_double_mono)
  from f1 f3 have "- 3 * factor_1 \<le> 0" "- 3 * factor_1' \<le> - 3 * factor_1" by simp_all
  with assms(2,6) have p: "product_1 \<le> 0" "product_1' \<le> product_1"
    using to_double_nonpos to_double_mono by blast+
  from f2 f4 have "0 \<le> factor_2'" by simp
  with p(2) have "product_1' * factor_2' \<le> product_1 * factor_2'"
    by (rule mult_right_mono)
  also from f4 p(1) have "product_1 * factor_2' \<le> product_1 * factor_2"
    by (rule mult_left_mono_neg)
  finally have "product_1' * factor_2' \<le> product_1 * factor_2" .
  with assms(8,4) show ?thesis
    by (rule to_double_mono)
qed

lemma parabola_left:
  assumes "to_double (dt - r1) = Some factor_1" and "to_double (- 3 * factor_1) = Some product_1"
    and "to_double (dt - r2) = Some factor_2" and "to_double (product_1 * factor_2) = Some product_2"
    and "to_double (dt' - r1) = Some factor_1'" and "to_double (- 3 * factor_1') = Some product_1'"
    and "to_double (dt' - r2) = Some factor_2'"
    and "to_double (product_1' * factor_2') = Some product_2'"
    and "dt \<le> min r1 r2" and "dt' \<le> dt"
  shows "product_2' \<le> product_2"
proof -
  from assms(9,10) have d: "dt - r1 \<le> 0" "dt - r2 \<le> 0" "dt' - r1 \<le> dt - r1"
    "dt' - r2 \<le> dt - r2"
    by simp_all
  from assms(1) d(1) have f1: "factor_1 \<le> 0" by (rule to_double_nonpos)
  from assms(3) d(2) have f2: "factor_2 \<le> 0" by (rule to_double_nonpos)
  from assms(5,1) d(3) have f3: "factor_1' \<le> factor_1" by (rule to_double_mono)
  from assms(7,3) d(4) have f4: "factor_2' \<le> factor_2" by (rule to_double_mono)
  from f1 f3 have "0 \<le> - 3 * factor_1" "- 3 * factor_1 \<le> - 3 * factor_1'" by simp_all
  with assms(2,6) have p: "0 \<le> product_1" "product_1 \<le> product_1'"
    using to_double_nonneg to_double_mono by blast+
  then have "0 \<le> product_1'" by simp
  with f4 have "product_1' * factor_2' \<le> product_1' * factor_2"
    by (rule mult_left_mono)
  also from p(2) f2 have "product_1' * factor_2 \<le> product_1 * factor_2"
    by (rule mult_right_mono_neg)
  finally have "product_1' * factor_2' \<le> product_1 * factor_2" .
  with assms(8,4) show ?thesis
    by (rule to_double_mono)
qed

lemmas confidence_eval =
  calculateConfidence_def double_add_def double_sub_def double_mul_def fabsf_def a_value roundings

text \<open>The confidence of the examples: default roots, equal widths.\<close>

lemma confidence_values:
  "calculateConfidence default_roots \<lparr>seen_width = 1\<rparr> test_bank_argument 0.5 1
     True True True True True True = Some (4357232639480955 / 4503599627370496)"
  "calculateConfidence default_roots \<lparr>seen_width = 1\<rparr> test_bank_argument 0.5 1
     True True False True True True = Some (2105432825795707 / 4503599627370496)"
  "calculateConfidence default_roots \<lparr>seen_width = 1\<rparr> test_bank_argument (double 0.1) 1
     True True True True True True = Some (2195504818343117 / 4503599627370496)"
  "calculateConfidence default_roots \<lparr>seen_width = 1\<rparr> test_bank_argument 1.0 1
     True True True True True True = Some (979532918953083 / 4503599627370496)"
  "calculateConfidence default_roots \<lparr>seen_width = 1\<rparr> test_bank_argument 0 1
     True True True True True True = Some (1959065837906167 / 9007199254740992)"
  "calculateConfidence default_roots \<lparr>seen_width = 1\<rparr> test_bank_argument 2 1
     True True True True True True = Some (- (203453631603671 / 35184372088832))"
  by (simp_all add: confidence_eval)

lemma confidence_values_negative_alpha:
  "calculateConfidence default_roots \<lparr>seen_width = 1\<rparr> (test_bank_argument\<lparr>ema_alpha := - 1\<rparr>)
     0.5 1 True True True True True True = Some (- (4357232639480955 / 4503599627370496))"
  "calculateConfidence default_roots \<lparr>seen_width = 1\<rparr> (test_bank_argument\<lparr>ema_alpha := - 1\<rparr>)
     (double 0.1) 1 True True True True True True = Some (- (2195504818343117 / 4503599627370496))"
  by (simp_all add: confidence_eval)


text \<open>
  Claim C1. The claim has \<^const>\<open>calculateConfidence\<close> return the formula of the
  specification with the coefficient \<open>-10/3\<close>. The source writes the coefficient as the
  quotient of two \<^verbatim>\<open>int\<close> literals, which is \<open>-3\<close>: with the default roots, a smoothing
  factor of one, no base confidence, no transform bonus, equal widths and a window of
  duration zero, the code returns the double \<open>-0.68249999999999988\<close> (the rounded
  \<open>-3 * 0.35 * 0.65\<close>) where the formula of the claim gives \<open>-91/120\<close>, that is
  \<open>-0.7583\<close>. The other terms are the ones of the claim, computed in \<^verbatim>\<open>double\<close>, except
  that the width difference passes through \<^verbatim>\<open>float\<close>: with the inputs of the example of
  the specification and a width that grows from 1 to 1.1 the code returns
  \<open>0.46749999254941943\<close>.
\<close>

theorem calculateConfidence_coefficient_divergence:
  "calculateConfidence default_roots \<lparr>seen_width = 0\<rparr>
       (test_bank_argument\<lparr>base_confidence := 0\<rparr>) 0 0 False False False False False False
     = Some (- (3073706745680363 / 4503599627370496))
   \<and> confidence_spec 1 0 0.35 0.65 False 0 0 0 = - 91 / 120
   \<and> a = - 3
   \<and> calculateConfidence default_roots \<lparr>seen_width = double 1.1\<rparr> test_bank_argument 0.5 1
       True True True True True True = Some (2105432792241275 / 4503599627370496)"
  by (simp add: confidence_eval confidence_spec_def)





text \<open>
  The duration enters the parabola only. Between the roots the rounded parabola is not
  negative, outside them it is not positive, and on either side of the roots it falls as
  the duration moves away.
\<close>

lemma calculateConfidence_duration_mono:
  assumes "0 \<le> ema_alpha ba"
    and "calculateConfidence g mo ba dt1 w u1 u2 u3 u4 u5 u6 = Some c1"
    and "calculateConfidence g mo ba dt2 w u1 u2 u3 u4 u5 u6 = Some c2"
    and "min (root_1 g) (root_2 g) \<le> dt1 \<and> dt1 \<le> max (root_1 g) (root_2 g)
           \<and> (dt2 \<le> min (root_1 g) (root_2 g) \<or> max (root_1 g) (root_2 g) \<le> dt2)
         \<or> max (root_1 g) (root_2 g) \<le> dt1 \<and> dt1 \<le> dt2
         \<or> dt2 \<le> dt1 \<and> dt1 \<le> min (root_1 g) (root_2 g)"
  shows "c2 \<le> c1"
proof -
  let ?b = "if u1 \<and> u2 \<and> u3 \<and> u4 \<and> u5 \<and> u6 then 0.5 else (0.0::real)"
  from assms(2) obtain sum_1 factor_1 product_1 factor_2 product_2 sum_2 delta_width abs_width
      product_3 sum_3
    where t: "to_double (base_confidence ba + ?b) = Some sum_1"
      "to_double (dt1 - root_1 g) = Some factor_1"
      "to_double (- 3 * factor_1) = Some product_1"
      "to_double (dt1 - root_2 g) = Some factor_2"
      "to_double (product_1 * factor_2) = Some product_2"
      "to_double (sum_1 + product_2) = Some sum_2"
      "to_double (seen_width mo - w) = Some delta_width"
      "fabsf delta_width = Some abs_width"
      "to_double (- 5.0 * abs_width) = Some product_3"
      "to_double (sum_2 + product_3) = Some sum_3"
      "to_double (ema_alpha ba * sum_3) = Some c1"
    unfolding calculateConfidence_Some_iff by auto
  from assms(3) obtain sum_1' factor_1' product_1' factor_2' product_2' sum_2' delta_width'
      abs_width' product_3' sum_3'
    where f: "to_double (base_confidence ba + ?b) = Some sum_1'"
      "to_double (dt2 - root_1 g) = Some factor_1'"
      "to_double (- 3 * factor_1') = Some product_1'"
      "to_double (dt2 - root_2 g) = Some factor_2'"
      "to_double (product_1' * factor_2') = Some product_2'"
      "to_double (sum_1' + product_2') = Some sum_2'"
      "to_double (seen_width mo - w) = Some delta_width'"
      "fabsf delta_width' = Some abs_width'"
      "to_double (- 5.0 * abs_width') = Some product_3'"
      "to_double (sum_2' + product_3') = Some sum_3'"
      "to_double (ema_alpha ba * sum_3') = Some c2"
    unfolding calculateConfidence_Some_iff by auto
  from t(1) f(1) have s1: "sum_1' \<le> sum_1" by simp
  from t(7-9) f(7-9) have p3: "product_3' = product_3" by simp
  from assms(4) consider
      (between) "min (root_1 g) (root_2 g) \<le> dt1" "dt1 \<le> max (root_1 g) (root_2 g)"
        "dt2 \<le> min (root_1 g) (root_2 g) \<or> max (root_1 g) (root_2 g) \<le> dt2"
    | (right) "max (root_1 g) (root_2 g) \<le> dt1" "dt1 \<le> dt2"
    | (left) "dt2 \<le> dt1" "dt1 \<le> min (root_1 g) (root_2 g)"
    by blast
  then have p2: "product_2' \<le> product_2"
  proof cases
    case between
    from t(2-5) between(1,2) have "0 \<le> product_2" by (rule parabola_between)
    moreover from f(2-5) between(3) have "product_2' \<le> 0" by (rule parabola_outside)
    ultimately show ?thesis by simp
  next
    case right
    from t(2-5) f(2-5) right show ?thesis by (rule parabola_right)
  next
    case left
    from t(2-5) f(2-5) left(2,1) show ?thesis by (rule parabola_left)
  qed
  from t(6) t(10) t(11) f(6) f(10) [unfolded p3] f(11) s1 p2
  have "(0 \<le> ema_alpha ba \<longrightarrow> c2 \<le> c1) \<and> (ema_alpha ba \<le> 0 \<longrightarrow> c1 \<le> c2)"
    by (rule confidence_tail_mono)
  with assms(1) show ?thesis by simp
qed

text \<open>
  Claim C4. As stated the claim fails twice. A negative \<open>ema_alpha\<close> turns the parabola
  upwards. And the rounded arithmetic does not follow the distance from the midpoint of the
  roots: with the inputs of the example, the durations 0 and 1 are equally far from the
  midpoint 0.5 of the default roots, and the confidence is \<open>0.21750000000000014\<close> at 0 and
  \<open>0.21750000000000003\<close> at 1. Amended: when \<open>ema_alpha\<close> is not negative and both
  results are finite, a duration between the two roots gives a confidence at least as large
  as a duration outside them, and of two durations on the same side outside the roots the
  one farther away gives a confidence at most as large, all else fixed; and with the inputs
  of the example (base confidence 0.4, \<open>ema_alpha\<close> 1, all transforms succeeding, equal
  widths, default roots) the confidence at 0.5 exceeds the ones at 0.1 and at 1.0.
\<close>

theorem calculateConfidence_parabola_order:
  "(0 \<le> ema_alpha ba
    \<and> calculateConfidence g mo ba dt1 w u1 u2 u3 u4 u5 u6 = Some c1
    \<and> calculateConfidence g mo ba dt2 w u1 u2 u3 u4 u5 u6 = Some c2
    \<and> (min (root_1 g) (root_2 g) \<le> dt1 \<and> dt1 \<le> max (root_1 g) (root_2 g)
          \<and> (dt2 \<le> min (root_1 g) (root_2 g) \<or> max (root_1 g) (root_2 g) \<le> dt2)
        \<or> max (root_1 g) (root_2 g) \<le> dt1 \<and> dt1 \<le> dt2
        \<or> dt2 \<le> dt1 \<and> dt1 \<le> min (root_1 g) (root_2 g)) \<longrightarrow>
      c2 \<le> c1)
   \<and> (\<exists>c_mid c_low c_high.
        calculateConfidence default_roots \<lparr>seen_width = 1\<rparr> test_bank_argument 0.5 1
          True True True True True True = Some c_mid
      \<and> calculateConfidence default_roots \<lparr>seen_width = 1\<rparr> test_bank_argument (double 0.1) 1
          True True True True True True = Some c_low
      \<and> calculateConfidence default_roots \<lparr>seen_width = 1\<rparr> test_bank_argument 1.0 1
          True True True True True True = Some c_high
      \<and> c_low < c_mid \<and> c_high < c_mid)"
proof -
  have general: "0 \<le> ema_alpha ba
    \<and> calculateConfidence g mo ba dt1 w u1 u2 u3 u4 u5 u6 = Some c1
    \<and> calculateConfidence g mo ba dt2 w u1 u2 u3 u4 u5 u6 = Some c2
    \<and> (min (root_1 g) (root_2 g) \<le> dt1 \<and> dt1 \<le> max (root_1 g) (root_2 g)
          \<and> (dt2 \<le> min (root_1 g) (root_2 g) \<or> max (root_1 g) (root_2 g) \<le> dt2)
        \<or> max (root_1 g) (root_2 g) \<le> dt1 \<and> dt1 \<le> dt2
        \<or> dt2 \<le> dt1 \<and> dt1 \<le> min (root_1 g) (root_2 g)) \<longrightarrow>
      c2 \<le> c1"
    using calculateConfidence_duration_mono [of ba g mo dt1 w u1 u2 u3 u4 u5 u6 c1 dt2 c2]
    by blast
  have "(2195504818343117 / 4503599627370496 :: real) < 4357232639480955 / 4503599627370496"
    "(979532918953083 / 4503599627370496 :: real) < 4357232639480955 / 4503599627370496"
    by simp_all
  with confidence_values(1,3,4)
  have "\<exists>c_mid c_low c_high.
        calculateConfidence default_roots \<lparr>seen_width = 1\<rparr> test_bank_argument 0.5 1
          True True True True True True = Some c_mid
      \<and> calculateConfidence default_roots \<lparr>seen_width = 1\<rparr> test_bank_argument (double 0.1) 1
          True True True True True True = Some c_low
      \<and> calculateConfidence default_roots \<lparr>seen_width = 1\<rparr> test_bank_argument 1.0 1
          True True True True True True = Some c_high
      \<and> c_low < c_mid \<and> c_high < c_mid"
    by blast
  with general show ?thesis
    by (rule conjI)
qed

lemma default_roots_values:
  "min (root_1 default_roots) (root_2 default_roots) = 3152519739159347 / 9007199254740992"
  "max (root_1 default_roots) (root_2 default_roots) = 5854679515581645 / 9007199254740992"
  "(root_1 default_roots + root_2 default_roots) / 2 = 1 / 2"
  by (simp_all add: double_literals)

theorem calculateConfidence_parabola_order_witness:
  "0 \<le> ema_alpha test_bank_argument
   \<and> calculateConfidence default_roots \<lparr>seen_width = 1\<rparr> test_bank_argument 0.5 1
       True True True True True True = Some (4357232639480955 / 4503599627370496)
   \<and> calculateConfidence default_roots \<lparr>seen_width = 1\<rparr> test_bank_argument (double 0.1) 1
       True True True True True True = Some (2195504818343117 / 4503599627370496)
   \<and> calculateConfidence default_roots \<lparr>seen_width = 1\<rparr> test_bank_argument 1.0 1
       True True True True True True = Some (979532918953083 / 4503599627370496)
   \<and> calculateConfidence default_roots \<lparr>seen_width = 1\<rparr> test_bank_argument 0 1
       True True True True True True = Some (1959065837906167 / 9007199254740992)
   \<and> calculateConfidence default_roots \<lparr>seen_width = 1\<rparr> test_bank_argument 2 1
       True True True True True True = Some (- (203453631603671 / 35184372088832))
   \<and> min (root_1 default_roots) (root_2 default_roots) \<le> 0.5
   \<and> 0.5 \<le> max (root_1 default_roots) (root_2 default_roots)
   \<and> double 0.1 \<le> min (root_1 default_roots) (root_2 default_roots)
   \<and> max (root_1 default_roots) (root_2 default_roots) \<le> 1.0
   \<and> (1.0 :: real) \<le> 2
   \<and> (0 :: real) \<le> double 0.1
   \<and> (2195504818343117 / 4503599627370496 :: real) \<le> 4357232639480955 / 4503599627370496
   \<and> (- (203453631603671 / 35184372088832) :: real) \<le> 979532918953083 / 4503599627370496
   \<and> (1959065837906167 / 9007199254740992 :: real) \<le> 2195504818343117 / 4503599627370496"
proof -
  have al: "0 \<le> ema_alpha test_bank_argument"
    by simp
  have r: "min (root_1 default_roots) (root_2 default_roots) \<le> 0.5"
    "0.5 \<le> max (root_1 default_roots) (root_2 default_roots)"
    "double 0.1 \<le> min (root_1 default_roots) (root_2 default_roots)"
    "max (root_1 default_roots) (root_2 default_roots) \<le> 1.0"
    "(1.0 :: real) \<le> 2"
    "(0 :: real) \<le> double 0.1"
    by (simp_all add: default_roots_values double_literals)
  note v = confidence_values
  from calculateConfidence_parabola_order
    [where ba = test_bank_argument and g = default_roots and mo = "\<lparr>seen_width = 1\<rparr>" and w = 1
       and ?u1.0 = True and ?u2.0 = True and ?u3.0 = True and ?u4.0 = True and ?u5.0 = True
       and ?u6.0 = True and ?dt1.0 = "0.5" and ?dt2.0 = "double 0.1"
       and ?c1.0 = "4357232639480955 / 4503599627370496"
       and ?c2.0 = "2195504818343117 / 4503599627370496"]
    al v(1,3) r(1,2,3)
  have c1: "(2195504818343117 / 4503599627370496 :: real) \<le> 4357232639480955 / 4503599627370496"
    by blast
  from calculateConfidence_parabola_order
    [where ba = test_bank_argument and g = default_roots and mo = "\<lparr>seen_width = 1\<rparr>" and w = 1
       and ?u1.0 = True and ?u2.0 = True and ?u3.0 = True and ?u4.0 = True and ?u5.0 = True
       and ?u6.0 = True and ?dt1.0 = "1.0" and ?dt2.0 = 2
       and ?c1.0 = "979532918953083 / 4503599627370496"
       and ?c2.0 = "- (203453631603671 / 35184372088832)"]
    al v(4,6) r(4,5)
  have c2: "(- (203453631603671 / 35184372088832) :: real) \<le> 979532918953083 / 4503599627370496"
    by blast
  from calculateConfidence_parabola_order
    [where ba = test_bank_argument and g = default_roots and mo = "\<lparr>seen_width = 1\<rparr>" and w = 1
       and ?u1.0 = True and ?u2.0 = True and ?u3.0 = True and ?u4.0 = True and ?u5.0 = True
       and ?u6.0 = True and ?dt1.0 = "double 0.1" and ?dt2.0 = 0
       and ?c1.0 = "2195504818343117 / 4503599627370496"
       and ?c2.0 = "1959065837906167 / 9007199254740992"]
    al v(3,5) r(3,6)
  have c3: "(1959065837906167 / 9007199254740992 :: real) \<le> 2195504818343117 / 4503599627370496"
    by blast
  from al v r c1 c2 c3 show ?thesis
    by blast
qed

theorem calculateConfidence_parabola_counterexample:
  "\<bar>1 - (root_1 default_roots + root_2 default_roots) / 2\<bar>
     \<le> \<bar>0 - (root_1 default_roots + root_2 default_roots) / 2\<bar>
   \<and> calculateConfidence default_roots \<lparr>seen_width = 1\<rparr> test_bank_argument 0 1
       True True True True True True = Some (1959065837906167 / 9007199254740992)
   \<and> calculateConfidence default_roots \<lparr>seen_width = 1\<rparr> test_bank_argument 1.0 1
       True True True True True True = Some (979532918953083 / 4503599627370496)
   \<and> \<not> (1959065837906167 / 9007199254740992 :: real) \<le> 979532918953083 / 4503599627370496
   \<and> \<bar>0.5 - (root_1 default_roots + root_2 default_roots) / 2\<bar>
     \<le> \<bar>double 0.1 - (root_1 default_roots + root_2 default_roots) / 2\<bar>
   \<and> calculateConfidence default_roots \<lparr>seen_width = 1\<rparr> (test_bank_argument\<lparr>ema_alpha := - 1\<rparr>)
       (double 0.1) 1 True True True True True True
       = Some (- (2195504818343117 / 4503599627370496))
   \<and> calculateConfidence default_roots \<lparr>seen_width = 1\<rparr> (test_bank_argument\<lparr>ema_alpha := - 1\<rparr>)
       0.5 1 True True True True True True = Some (- (4357232639480955 / 4503599627370496))
   \<and> \<not> (- (2195504818343117 / 4503599627370496) :: real)
         \<le> - (4357232639480955 / 4503599627370496)"
proof -
  have "\<bar>1 - (root_1 default_roots + root_2 default_roots) / 2\<bar>
     \<le> \<bar>0 - (root_1 default_roots + root_2 default_roots) / 2\<bar>"
    "\<bar>0.5 - (root_1 default_roots + root_2 default_roots) / 2\<bar>
     \<le> \<bar>double 0.1 - (root_1 default_roots + root_2 default_roots) / 2\<bar>"
    "\<not> (1959065837906167 / 9007199254740992 :: real) \<le> 979532918953083 / 4503599627370496"
    "\<not> (- (2195504818343117 / 4503599627370496) :: real)
         \<le> - (4357232639480955 / 4503599627370496)"
    by (simp_all add: default_roots_values double_literals)
  with confidence_values(4,5) confidence_values_negative_alpha show ?thesis
    by blast
qed


section \<open>The scan count of the rate calculation\<close>

lemma trunc_of_int [simp]: "trunc (real_of_int k) = k"
  by (simp add: trunc_def)

lemma trunc_bounds: "\<lfloor>x\<rfloor> \<le> trunc x \<and> trunc x \<le> \<lfloor>x\<rfloor> + 1"
  unfolding trunc_def by (simp add: ceiling_altdef)

lemma trunc_exact_iff: "x - real_of_int (trunc x) = 0 \<longleftrightarrow> real_of_int \<lfloor>x\<rfloor> = x"
proof (cases "real_of_int \<lfloor>x\<rfloor> = x")
  case True
  then have "x = real_of_int \<lfloor>x\<rfloor>" by (rule sym)
  then have "trunc x = \<lfloor>x\<rfloor>" by (metis trunc_of_int)
  with True show ?thesis by (simp del: of_int_floor_cancel)
next
  case False
  have "real_of_int (trunc x) \<noteq> x"
  proof
    assume "real_of_int (trunc x) = x"
    then have "real_of_int \<lfloor>x\<rfloor> = x" by (metis floor_of_int)
    with False show False ..
  qed
  with False show ?thesis by simp
qed

lemma ceiling_floor_plus_one: "real_of_int \<lfloor>x\<rfloor> \<noteq> x \<Longrightarrow> \<lceil>x\<rceil> = \<lfloor>x\<rfloor> + 1"
  by (simp add: ceiling_altdef)

lemma floor_plus_one_exact: "real_of_int \<lfloor>x\<rfloor> = x \<Longrightarrow> trunc (x + 1) = \<lfloor>x\<rfloor> + 1"
proof -
  assume "real_of_int \<lfloor>x\<rfloor> = x"
  then have "x = real_of_int \<lfloor>x\<rfloor>" by (rule sym)
  then have "x + 1 = real_of_int (\<lfloor>x\<rfloor> + 1)" by (simp del: of_int_floor_cancel)
  then show ?thesis by (simp only: trunc_of_int)
qed

text \<open>
  Whatever the branch, the stored count is the floor plus one, and it is defined exactly
  when the two conversions are.
\<close>

lemma optimized_nr_scans_eq:
  "optimized_nr_scans x =
     (if - (2 ^ 63) \<le> trunc x \<and> trunc x < 2 ^ 63 \<and>
         - (2 ^ 31) \<le> \<lfloor>x\<rfloor> + 1 \<and> \<lfloor>x\<rfloor> + 1 < 2 ^ 31
      then Some (\<lfloor>x\<rfloor> + 1) else None)"
proof (cases "real_of_int \<lfloor>x\<rfloor> = x")
  case True
  then have "x - real_of_int (trunc x) = 0" by (simp only: trunc_exact_iff)
  moreover have "trunc (x + 1) = \<lfloor>x\<rfloor> + 1" using True by (rule floor_plus_one_exact)
  ultimately show ?thesis
    unfolding optimized_nr_scans_def long_of_double_def int_of_double_def
    by (simp del: of_int_floor_cancel)
next
  case False
  then have "x - real_of_int (trunc x) \<noteq> 0" by (simp only: trunc_exact_iff not_False_eq_True)
  moreover have "\<lceil>x\<rceil> = \<lfloor>x\<rfloor> + 1" using False by (rule ceiling_floor_plus_one)
  moreover have "trunc (real_of_int (\<lfloor>x\<rfloor> + 1)) = \<lfloor>x\<rfloor> + 1" by (rule trunc_of_int)
  ultimately show ?thesis
    unfolding optimized_nr_scans_def long_of_double_def int_of_double_def
    by (simp del: of_int_floor_cancel of_int_add)
qed

lemma optimized_nr_scans_in_range:
  assumes "- (2 ^ 31) \<le> \<lfloor>x\<rfloor> + 1" "\<lfloor>x\<rfloor> + 1 < 2 ^ 31"
  shows "optimized_nr_scans x = Some (\<lfloor>x\<rfloor> + 1)"
proof -
  have "(2::int) ^ 31 < 2 ^ 63" by simp
  then have "- (2 ^ 63) \<le> trunc x \<and> trunc x < 2 ^ 63"
    using trunc_bounds [of x] assms by linarith
  with assms show ?thesis by (simp add: optimized_nr_scans_eq)
qed

lemma optimized_nr_scans_None:
  assumes "\<not> (- (2 ^ 31) \<le> \<lfloor>x\<rfloor> + 1 \<and> \<lfloor>x\<rfloor> + 1 < 2 ^ 31)"
  shows "optimized_nr_scans x = None"
  using assms by (auto simp add: optimized_nr_scans_eq)

lemma optimized_nr_scans_Some_iff:
  "optimized_nr_scans x = Some n \<longleftrightarrow>
     n = \<lfloor>x\<rfloor> + 1 \<and> - (2 ^ 31) \<le> \<lfloor>x\<rfloor> + 1 \<and> \<lfloor>x\<rfloor> + 1 < 2 ^ 31"
proof (cases "- (2 ^ 31) \<le> \<lfloor>x\<rfloor> + 1 \<and> \<lfloor>x\<rfloor> + 1 < 2 ^ 31")
  case True
  then show ?thesis using optimized_nr_scans_in_range [of x] by auto
next
  case False
  then show ?thesis using optimized_nr_scans_None [of x] by auto
qed

lemma sanity_check_ge_2: "2 \<le> sanity_check n"
  by (simp add: sanity_check_def)

text \<open>
  Claim C2. As stated, for every rate, the claim fails: the count is stored in a 32-bit
  \<^verbatim>\<open>int\<close>, which cannot hold the integer plus one of a product such as \<open>2147483647\<close>.
  Amended: for every target and rate whose count (the integer plus one, or the ceiling) is
  representable in \<^verbatim>\<open>int\<close>, the computed count is the integer plus one when the product is
  exactly integral and the ceiling when it is not, and the stored \<open>nr_scans_in_bank\<close>,
  after the sanity check, is at least 2.
\<close>

theorem optimized_nr_scans_boundary:
  fixes target hz :: real
  assumes "- (2 ^ 31) \<le> \<lfloor>target * hz\<rfloor> + 1" and "\<lfloor>target * hz\<rfloor> + 1 < 2 ^ 31"
  shows "(\<forall>k. target * hz = real_of_int k \<longrightarrow> optimized_nr_scans (target * hz) = Some (k + 1))
       \<and> (target * hz \<notin> \<int> \<longrightarrow> optimized_nr_scans (target * hz) = Some \<lceil>target * hz\<rceil>)
       \<and> (\<exists>n. optimized_nr_scans (target * hz) = Some n \<and> 2 \<le> sanity_check n)"
proof (intro conjI allI impI)
  fix k assume "target * hz = real_of_int k"
  then have "\<lfloor>target * hz\<rfloor> = k" by simp
  with optimized_nr_scans_in_range [OF assms]
  show "optimized_nr_scans (target * hz) = Some (k + 1)" by simp
next
  assume "target * hz \<notin> \<int>"
  then have "real_of_int \<lfloor>target * hz\<rfloor> \<noteq> target * hz"
    by (metis Ints_of_int)
  then have "\<lceil>target * hz\<rceil> = \<lfloor>target * hz\<rfloor> + 1"
    by (rule ceiling_floor_plus_one)
  with optimized_nr_scans_in_range [OF assms]
  show "optimized_nr_scans (target * hz) = Some \<lceil>target * hz\<rceil>" by simp
next
  show "\<exists>n. optimized_nr_scans (target * hz) = Some n \<and> 2 \<le> sanity_check n"
    using optimized_nr_scans_in_range [OF assms] by (simp add: sanity_check_ge_2)
qed

theorem optimized_nr_scans_boundary_witness:
  "- (2 ^ 31) \<le> \<lfloor>0.5 * 10 :: real\<rfloor> + 1 \<and> \<lfloor>0.5 * 10 :: real\<rfloor> + 1 < 2 ^ 31
   \<and> - (2 ^ 31) \<le> \<lfloor>0.5 * 25 :: real\<rfloor> + 1 \<and> \<lfloor>0.5 * 25 :: real\<rfloor> + 1 < 2 ^ 31
   \<and> (0.5 * 10 :: real) = real_of_int 5 \<and> optimized_nr_scans (0.5 * 10) = Some 6
   \<and> (0.5 * 25 :: real) \<notin> \<int> \<and> optimized_nr_scans (0.5 * 25) = Some 13
   \<and> sanity_check 6 = 6 \<and> sanity_check 13 = 13"
  using optimized_nr_scans_boundary [of "0.5" 10] optimized_nr_scans_boundary [of "0.5" 25]
  by (simp add: sanity_check_def)

theorem optimized_nr_scans_overflow_counterexample:
  "(1 :: real) * 2147483647 = real_of_int 2147483647
   \<and> optimized_nr_scans (1 * 2147483647) \<noteq> Some (2147483647 + 1)
   \<and> optimized_nr_scans (1 * 2147483647) = None"
  by (simp add: optimized_nr_scans_None)


section \<open>The rate calculation callback\<close>

lemma hzCalculationCallback_continue:
  "finite_double (elapsed now s) \<Longrightarrow> \<not> warm_up_done max_time max_messages now s \<Longrightarrow>
   hzCalculationCallback max_time max_messages now s
     = Some (s\<lparr>received_messages := received_messages s + 1\<rparr>)"
  by (simp add: hzCalculationCallback_def warm_up_done_def elapsed_def double_sub_def
      to_double_def Let_def)

lemma hzCalculationCallback_overflow:
  "\<not> finite_double (elapsed now s) \<Longrightarrow> hzCalculationCallback max_time max_messages now s = None"
  by (simp add: hzCalculationCallback_def elapsed_def double_sub_def to_double_def Let_def)

lemma hzCalculationCallback_done:
  "warm_up_done max_time max_messages now s \<Longrightarrow>
   hzCalculationCallback max_time max_messages now s =
     (if finite_double (elapsed now s) \<and> elapsed now s \<noteq> 0
         \<and> finite_double (measured_hz now s) \<and> finite_double (measured_nr_scans now s)
         \<and> finite_double (double (optimize_nr_scans_in_bank s * double 0.6))
         \<and> finite_double (double (optimize_nr_scans_in_bank s * double 1.4))
      then case optimized_nr_scans (measured_nr_scans now s) of
             None \<Rightarrow> None
           | Some n \<Rightarrow>
               Some (s\<lparr>received_messages := received_messages s + 1,
                       bank_argument := (bank_argument s)\<lparr>nr_scans_in_bank := sanity_check n\<rparr>,
                       root_1 := double (optimize_nr_scans_in_bank s * double 0.6),
                       root_2 := double (optimize_nr_scans_in_bank s * double 1.4),
                       sub := Sub_CallbackFirst\<rparr>)
      else None)"
  by (simp add: hzCalculationCallback_def warm_up_done_def elapsed_def measured_hz_def
      measured_nr_scans_def double_sub_def double_div_def double_mul_def to_double_def Let_def
      split: option.splits)

lemma hzCalculationCallback_array_continue:
  "finite_double (elapsed now s) \<Longrightarrow> \<not> warm_up_done max_time max_messages now s \<Longrightarrow>
   hzCalculationCallback_array max_time max_messages now s
     = Some (s\<lparr>received_messages := received_messages s + 1\<rparr>)"
  by (simp add: hzCalculationCallback_array_def warm_up_done_def elapsed_def double_sub_def
      to_double_def Let_def)

lemma hzCalculationCallback_array_overflow:
  "\<not> finite_double (elapsed now s) \<Longrightarrow>
   hzCalculationCallback_array max_time max_messages now s = None"
  by (simp add: hzCalculationCallback_array_def elapsed_def double_sub_def to_double_def Let_def)

lemma hzCalculationCallback_array_done:
  "warm_up_done max_time max_messages now s \<Longrightarrow>
   hzCalculationCallback_array max_time max_messages now s =
     (if finite_double (elapsed now s) \<and> elapsed now s \<noteq> 0
         \<and> finite_double (measured_hz now s) \<and> finite_double (measured_nr_scans now s)
         \<and> finite_double (double (optimize_nr_scans_in_bank s * double 0.6))
         \<and> finite_double (double (optimize_nr_scans_in_bank s * double 1.4))
      then case optimized_nr_scans (measured_nr_scans now s) of
             None \<Rightarrow> None
           | Some n \<Rightarrow>
               if bank_arguments s = [] then None
               else Some (s\<lparr>received_messages := received_messages s + 1,
                       bank_arguments := (bank_arguments s)
                         [0 := (bank_arguments s ! 0)\<lparr>nr_scans_in_bank := sanity_check n\<rparr>],
                       root_1 := double (optimize_nr_scans_in_bank s * double 0.6),
                       root_2 := double (optimize_nr_scans_in_bank s * double 1.4),
                       sub := Sub_CallbackFirst\<rparr>)
      else None)"
  by (simp add: hzCalculationCallback_array_def warm_up_done_def elapsed_def measured_hz_def
      measured_nr_scans_def double_sub_def double_div_def double_mul_def to_double_def Let_def
      split: option.splits)

section \<open>The loops over the array\<close>

lemma fold_update_length:
  "length (fold (\<lambda>i xs. xs[i := f i xs]) js xs) = length xs"
  by (induction js arbitrary: xs) simp_all

lemma fold_update_nth:
  "k \<le> length xs \<Longrightarrow> i < length xs \<Longrightarrow>
   fold (\<lambda>i xs. xs[i := f i (xs ! i)]) [0..<k] xs ! i = (if i < k then f i (xs ! i) else xs ! i)"
proof (induction k arbitrary: i)
  case 0
  then show ?case by simp
next
  case (Suc k)
  let ?r = "fold (\<lambda>i xs. xs[i := f i (xs ! i)]) [0..<k] xs"
  have len: "length ?r = length xs"
    by (rule fold_update_length [where f = "\<lambda>i xs. f i (xs ! i)"])
  from Suc.prems have k: "k < length xs" by simp
  with Suc.IH [of k] have rk: "?r ! k = xs ! k" by simp
  from Suc.prems k Suc.IH [of i] have ri: "?r ! i = (if i < k then f i (xs ! i) else xs ! i)"
    by simp
  show ?case
    using len k rk ri Suc.prems by (simp add: nth_list_update less_Suc_eq)
qed

lemma fold_copy_first_nth:
  "k \<le> length xs \<Longrightarrow> i < length xs \<Longrightarrow>
   fold (\<lambda>i xs. xs[i := xs ! 0]) [0..<k] xs ! i = (if i < k then xs ! 0 else xs ! i)"
proof (induction k arbitrary: i)
  case 0
  then show ?case by simp
next
  case (Suc k)
  let ?r = "fold (\<lambda>i xs. xs[i := xs ! 0]) [0..<k] xs"
  have len: "length ?r = length xs"
    by (rule fold_update_length [where f = "\<lambda>i xs. xs ! 0"])
  from Suc.prems have k: "k < length xs" by simp
  then have "0 < length xs" by auto
  with k Suc.IH [of 0] have r0: "?r ! 0 = xs ! 0" by simp
  from Suc.prems k Suc.IH [of i] have ri: "?r ! i = (if i < k then xs ! 0 else xs ! i)"
    by simp
  show ?case
    using len k r0 ri Suc.prems by (simp add: nth_list_update less_Suc_eq)
qed

lemma fold_pair:
  "fold (\<lambda>i (x, y). (F i x, G i y)) js (x, y) = (fold F js x, fold G js y)"
  by (induction js arbitrary: x y) simp_all

lemma length_resize [simp]: "length (resize n d xs) = n"
  by (simp add: resize_def)

lemma resize_nth_0: "xs \<noteq> [] \<Longrightarrow> 0 < n \<Longrightarrow> resize n d xs ! 0 = xs ! 0"
  by (cases xs) (simp_all add: resize_def nth_append)

lemma create_banks_eq:
  "create_banks B d n (bas, bs) =
     (fold (\<lambda>i bas. bas[i := append_str (''_'' @ to_string i) (bas ! i)]) [0..<n]
        (fold (\<lambda>i bas. bas[i := bas ! 0]) [0..<n] (resize n d bas)),
      fold (\<lambda>i bs. bs[i := new_Bank B]) [0..<n] (resize n (new_Bank B) bs))"
  by (simp add: create_banks_def fold_pair)

lemma create_banks_length:
  "length (fst (create_banks B d n (bas, bs))) = n"
  "length (snd (create_banks B d n (bas, bs))) = n"
proof -
  let ?c = "fold (\<lambda>i bas. bas[i := bas ! 0]) [0..<n] (resize n d bas)"
  have "length ?c = n"
    by (simp add: fold_update_length [where f = "\<lambda>i bas. bas ! 0"])
  moreover have "length (fold (\<lambda>i bas. bas[i := append_str (''_'' @ to_string i) (bas ! i)])
                          [0..<n] ?c) = length ?c"
    by (rule fold_update_length [where f = "\<lambda>i bas. append_str (''_'' @ to_string i) (bas ! i)"])
  ultimately show "length (fst (create_banks B d n (bas, bs))) = n"
    by (simp only: create_banks_eq fst_conv)
  show "length (snd (create_banks B d n (bas, bs))) = n"
    by (simp add: create_banks_eq fold_update_length [where f = "\<lambda>i bs. new_Bank B"])
qed

lemma create_banks_nth:
  assumes "i < n"
  shows "fst (create_banks B d n (bas, bs)) ! i
           = append_str (''_'' @ to_string i) (resize n d bas ! 0)"
proof -
  let ?c = "fold (\<lambda>i bas. bas[i := bas ! 0]) [0..<n] (resize n d bas)"
  have len: "length ?c = n"
    by (simp add: fold_update_length [where f = "\<lambda>i bas. bas ! 0"])
  have "?c ! i = resize n d bas ! 0"
    using assms fold_copy_first_nth [of n "resize n d bas" i] by simp
  moreover have "fold (\<lambda>i bas. bas[i := append_str (''_'' @ to_string i) (bas ! i)]) [0..<n] ?c ! i
                   = append_str (''_'' @ to_string i) (?c ! i)"
    using assms len fold_update_nth [of n ?c i "\<lambda>i. append_str (''_'' @ to_string i)"] by simp
  ultimately show ?thesis
    by (simp add: create_banks_eq)
qed


section \<open>Steady state, single-scan class\<close>

lemma deliver_steady:
  assumes "steady s" and "deliver B max_time max_messages ev s = Some s'"
  shows "steady s' \<and> root_1 s' = root_1 s \<and> root_2 s' = root_2 s
         \<and> bank_argument s' = bank_argument s"
  using assms
  by (auto simp add: steady_def deliver_def laserScanCallbackFirst_def laserScanCallback_def
      Let_def split: prod.splits if_splits)

lemma run_steady:
  assumes "steady s" and "run B max_time max_messages evs s = Some s'"
  shows "steady s' \<and> root_1 s' = root_1 s \<and> root_2 s' = root_2 s
         \<and> bank_argument s' = bank_argument s"
  using assms
proof (induction evs arbitrary: s)
  case Nil
  then show ?case by simp
next
  case (Cons ev evs)
  from Cons.prems(2) obtain t where t: "deliver B max_time max_messages ev s = Some t"
    and r: "run B max_time max_messages evs t = Some s'"
    by (auto split: option.splits)
  from deliver_steady [OF Cons.prems(1) t] Cons.IH [OF _ r] show ?case
    by simp
qed

section \<open>Steady state, scan-array class\<close>

lemma laserScanArrayCallback_Some:
  assumes "laserScanArrayCallback B msgs s = Some s'"
  shows "sub s' = sub s \<and> root_1 s' = root_1 s \<and> root_2 s' = root_2 s
         \<and> bank_arguments s' = bank_arguments s \<and> length (banks s') = length (banks s)"
proof -
  let ?f = "\<lambda>i bs. let (rc, b) = addMessage B (msgs ! i) (bs ! i)
                    in if rc \<noteq> 0 then b else findAndReportMovingObjects B b"
  have eq: "(\<lambda>i bs. let (rc, b) = addMessage B (msgs ! i) (bs ! i)
                     in if rc \<noteq> 0 then bs[i := b]
                        else bs[i := findAndReportMovingObjects B b])
            = (\<lambda>i bs. bs[i := ?f i bs])"
    by (auto simp add: Let_def fun_eq_iff split: prod.splits)
  from assms show ?thesis
    unfolding laserScanArrayCallback_def eq
    by (auto simp add: fold_update_length split: if_splits)
qed

lemma laserScanArrayCallbackFirst_create:
  assumes "banks s = []"
  shows "laserScanArrayCallbackFirst B d msgs s =
           Some (s\<lparr>bank_arguments := fst (create_banks B d (length msgs) (bank_arguments s, [])),
                   banks := fold (\<lambda>i bs. bs[i := snd (init B
                                    (fst (create_banks B d (length msgs) (bank_arguments s, [])) ! i)
                                    (msgs ! i) (bs ! i))])
                              [0..<length msgs]
                              (snd (create_banks B d (length msgs) (bank_arguments s, []))),
                   sub := Sub_Callback\<rparr>)"
proof -
  obtain bas bs where cb: "create_banks B d (length msgs) (bank_arguments s, []) = (bas, bs)"
    by (cases "create_banks B d (length msgs) (bank_arguments s, [])")
  with create_banks_length [of B d "length msgs" "bank_arguments s" "[]"]
  have "length bas = length msgs" "length bs = length msgs" by simp_all
  with assms cb show ?thesis
    by (simp add: laserScanArrayCallbackFirst_def Let_def)
qed

lemma laserScanArrayCallbackFirst_Some:
  assumes "laserScanArrayCallbackFirst B d msgs s = Some s'"
  shows "sub s' = Sub_Callback \<and> root_1 s' = root_1 s \<and> root_2 s' = root_2 s"
  using assms
  by (auto simp add: laserScanArrayCallbackFirst_def Let_def split: prod.splits if_splits)

lemma nr_scans_in_bank_append_str [simp]:
  "nr_scans_in_bank (append_str str ba) = nr_scans_in_bank ba"
  by (simp add: append_str_def)

lemma topic_objects_append_str [simp]:
  "topic_objects (append_str str ba) = topic_objects ba"
  by (simp add: append_str_def)

lemma laserScanArrayCallbackFirst_created:
  assumes "banks s = []" and "bank_arguments s \<noteq> []"
    and "laserScanArrayCallbackFirst B d msgs s = Some s'"
  shows "length (banks s') = length msgs \<and> length (bank_arguments s') = length msgs
         \<and> (\<forall>i<length msgs.
               bank_arguments s' ! i = append_str (''_'' @ to_string i) (bank_arguments s ! 0))"
proof -
  let ?n = "length msgs"
  let ?cb = "create_banks B d ?n (bank_arguments s, [])"
  from assms(3) have s': "s' = s\<lparr>bank_arguments := fst ?cb,
         banks := fold (\<lambda>i bs. bs[i := snd (init B (fst ?cb ! i) (msgs ! i) (bs ! i))])
                    [0..<?n] (snd ?cb),
         sub := Sub_Callback\<rparr>"
    by (simp add: laserScanArrayCallbackFirst_create [OF assms(1)])
  have "length (fold (\<lambda>i bs. bs[i := snd (init B (fst ?cb ! i) (msgs ! i) (bs ! i))])
                  [0..<?n] (snd ?cb)) = length (snd ?cb)"
    by (rule fold_update_length
          [where f = "\<lambda>i bs. snd (init B (fst ?cb ! i) (msgs ! i) (bs ! i))"])
  then have lb: "length (banks s') = ?n"
    by (simp add: s' create_banks_length)
  have la: "length (bank_arguments s') = ?n"
    by (simp add: s' create_banks_length)
  have "\<forall>i<?n. bank_arguments s' ! i = append_str (''_'' @ to_string i) (bank_arguments s ! 0)"
  proof (intro allI impI)
    fix i assume i: "i < ?n"
    then have "0 < ?n" by auto
    with assms(2) have "resize ?n d (bank_arguments s) ! 0 = bank_arguments s ! 0"
      by (simp add: resize_nth_0)
    with create_banks_nth [OF i, of B d "bank_arguments s" "[]"]
    show "bank_arguments s' ! i = append_str (''_'' @ to_string i) (bank_arguments s ! 0)"
      by (simp add: s')
  qed
  with lb la show ?thesis by simp
qed

lemma run_array_Callback:
  assumes "sub s = Sub_Callback" and "run_array B d max_time max_messages evs s = Some s'"
  shows "sub s' = Sub_Callback \<and> root_1 s' = root_1 s \<and> root_2 s' = root_2 s
         \<and> bank_arguments s' = bank_arguments s \<and> length (banks s') = length (banks s)"
  using assms
proof (induction evs arbitrary: s)
  case Nil
  then show ?case by simp
next
  case (Cons ev evs)
  from Cons.prems obtain t where t: "laserScanArrayCallback B (snd ev) s = Some t"
    and r: "run_array B d max_time max_messages evs t = Some s'"
    by (auto simp add: deliver_array_def split: option.splits)
  from laserScanArrayCallback_Some [OF t] Cons.prems(1) Cons.IH [OF _ r] show ?case
    by simp
qed

lemma run_array_First:
  assumes "sub s = Sub_CallbackFirst" and "banks s = []" and "bank_arguments s = [ba]"
    and "run_array B d max_time max_messages evs s = Some s'"
  shows "steady s' \<and> root_1 s' = root_1 s \<and> root_2 s' = root_2 s
         \<and> (\<forall>x\<in>set (bank_arguments s'). nr_scans_in_bank x = nr_scans_in_bank ba)"
proof (cases evs)
  case Nil
  with assms show ?thesis by (simp add: steady_def)
next
  case (Cons ev evs')
  with assms obtain t where t: "laserScanArrayCallbackFirst B d (snd ev) s = Some t"
    and r: "run_array B d max_time max_messages evs' t = Some s'"
    by (auto simp add: deliver_array_def split: option.splits)
  from laserScanArrayCallbackFirst_Some [OF t]
  have t1: "sub t = Sub_Callback" "root_1 t = root_1 s" "root_2 t = root_2 s" by simp_all
  from laserScanArrayCallbackFirst_created [OF assms(2) _ t] assms(3)
  have t2: "length (bank_arguments t) = length (snd ev)"
    "\<forall>i<length (snd ev). bank_arguments t ! i = append_str (''_'' @ to_string i) ba"
    by simp_all
  have "\<forall>x\<in>set (bank_arguments t). nr_scans_in_bank x = nr_scans_in_bank ba"
  proof
    fix x assume "x \<in> set (bank_arguments t)"
    then obtain i where "i < length (bank_arguments t)" "x = bank_arguments t ! i"
      by (auto simp add: in_set_conv_nth)
    with t2 show "nr_scans_in_bank x = nr_scans_in_bank ba" by simp
  qed
  with run_array_Callback [OF t1(1) r] t1 show ?thesis
    by (simp add: steady_def)
qed


section \<open>The end of the warm-up\<close>

lemma hzCalculationCallback_None_iff:
  assumes "warm_up_done max_time max_messages now s"
  shows "hzCalculationCallback max_time max_messages now s = None \<longleftrightarrow>
           \<not> finite_double (elapsed now s) \<or> elapsed now s = 0
           \<or> \<not> finite_double (measured_hz now s) \<or> \<not> finite_double (measured_nr_scans now s)
           \<or> \<not> (- (2 ^ 31) \<le> \<lfloor>measured_nr_scans now s\<rfloor> + 1
                \<and> \<lfloor>measured_nr_scans now s\<rfloor> + 1 < 2 ^ 31)
           \<or> \<not> finite_double (double (optimize_nr_scans_in_bank s * double 0.6))
           \<or> \<not> finite_double (double (optimize_nr_scans_in_bank s * double 1.4))"
proof (cases "optimized_nr_scans (measured_nr_scans now s)")
  case None
  then show ?thesis
    using optimized_nr_scans_in_range [of "measured_nr_scans now s"]
    by (auto simp add: hzCalculationCallback_done [OF assms])
next
  case (Some n)
  then show ?thesis
    using optimized_nr_scans_None [of "measured_nr_scans now s"]
    by (auto simp add: hzCalculationCallback_done [OF assms])
qed

lemma hzCalculationCallback_Some:
  assumes "warm_up_done max_time max_messages now s"
    and "hzCalculationCallback max_time max_messages now s = Some s'"
  shows "s' = s\<lparr>received_messages := received_messages s + 1,
                 bank_argument := (bank_argument s)
                   \<lparr>nr_scans_in_bank := sanity_check (\<lfloor>measured_nr_scans now s\<rfloor> + 1)\<rparr>,
                 root_1 := double (optimize_nr_scans_in_bank s * double 0.6),
                 root_2 := double (optimize_nr_scans_in_bank s * double 1.4),
                 sub := Sub_CallbackFirst\<rparr>"
  using assms(2)
  by (auto simp add: hzCalculationCallback_done [OF assms(1)] optimized_nr_scans_Some_iff
      split: if_splits option.splits)

lemma hzCalculationCallback_Some_fields:
  assumes "warm_up_done max_time max_messages now s"
    and "hzCalculationCallback max_time max_messages now s = Some s'"
  shows "root_1 s' = double (optimize_nr_scans_in_bank s * double 0.6)"
    and "root_2 s' = double (optimize_nr_scans_in_bank s * double 1.4)"
    and "sub s' = Sub_CallbackFirst"
    and "received_messages s' = received_messages s + 1"
    and "nr_scans_in_bank (bank_argument s') = sanity_check (\<lfloor>measured_nr_scans now s\<rfloor> + 1)"
  by (simp_all add: hzCalculationCallback_Some [OF assms])

lemma hzCalculationCallback_array_None_iff:
  assumes "warm_up_done max_time max_messages now s"
  shows "hzCalculationCallback_array max_time max_messages now s = None \<longleftrightarrow>
           \<not> finite_double (elapsed now s) \<or> elapsed now s = 0
           \<or> \<not> finite_double (measured_hz now s) \<or> \<not> finite_double (measured_nr_scans now s)
           \<or> \<not> (- (2 ^ 31) \<le> \<lfloor>measured_nr_scans now s\<rfloor> + 1
                \<and> \<lfloor>measured_nr_scans now s\<rfloor> + 1 < 2 ^ 31)
           \<or> \<not> finite_double (double (optimize_nr_scans_in_bank s * double 0.6))
           \<or> \<not> finite_double (double (optimize_nr_scans_in_bank s * double 1.4))
           \<or> bank_arguments s = []"
proof (cases "optimized_nr_scans (measured_nr_scans now s)")
  case None
  then show ?thesis
    using optimized_nr_scans_in_range [of "measured_nr_scans now s"]
    by (auto simp add: hzCalculationCallback_array_done [OF assms])
next
  case (Some n)
  then show ?thesis
    using optimized_nr_scans_None [of "measured_nr_scans now s"]
    by (auto simp add: hzCalculationCallback_array_done [OF assms])
qed

lemma hzCalculationCallback_array_Some:
  assumes "warm_up_done max_time max_messages now s"
    and "hzCalculationCallback_array max_time max_messages now s = Some s'"
  shows "s' = s\<lparr>received_messages := received_messages s + 1,
                 bank_arguments := (bank_arguments s)
                   [0 := (bank_arguments s ! 0)
                      \<lparr>nr_scans_in_bank := sanity_check (\<lfloor>measured_nr_scans now s\<rfloor> + 1)\<rparr>],
                 root_1 := double (optimize_nr_scans_in_bank s * double 0.6),
                 root_2 := double (optimize_nr_scans_in_bank s * double 1.4),
                 sub := Sub_CallbackFirst\<rparr>
         \<and> bank_arguments s \<noteq> []"
  using assms(2)
  by (auto simp add: hzCalculationCallback_array_done [OF assms(1)] optimized_nr_scans_Some_iff
      split: if_splits option.splits)

lemma hzCalculationCallback_array_Some_fields:
  assumes "warm_up_done max_time max_messages now s"
    and "hzCalculationCallback_array max_time max_messages now s = Some s'"
  shows "root_1 s' = double (optimize_nr_scans_in_bank s * double 0.6)"
    and "root_2 s' = double (optimize_nr_scans_in_bank s * double 1.4)"
    and "sub s' = Sub_CallbackFirst"
    and "received_messages s' = received_messages s + 1"
    and "bank_arguments s' = (bank_arguments s)
            [0 := (bank_arguments s ! 0)
               \<lparr>nr_scans_in_bank := sanity_check (\<lfloor>measured_nr_scans now s\<rfloor> + 1)\<rparr>]"
    and "banks s' = banks s" and "bank_arguments s \<noteq> []"
  using hzCalculationCallback_array_Some [OF assms] by simp_all

text \<open>
  While no message reaches a ceiling the callback only counts, so that a run of such
  messages followed by one more is the callback on the last message in the state that has
  counted the others.
\<close>

lemma warm_up_done_counter [simp]:
  "warm_up_done max_time max_messages now (s\<lparr>received_messages := n\<rparr>)
     \<longleftrightarrow> max_time \<le> elapsed now s \<or> max_messages \<le> n + 1"
  "elapsed now (s\<lparr>received_messages := n\<rparr>) = elapsed now s"
  by (simp_all add: warm_up_done_def elapsed_def)

lemma run_warm_up_counts:
  assumes "sub s = Sub_hzCalculationCallback"
    and "\<forall>i<length evs. finite_double (elapsed (fst (evs ! i)) s)
           \<and> \<not> warm_up_done max_time max_messages (fst (evs ! i))
                 (s\<lparr>received_messages := received_messages s + int i\<rparr>)"
  shows "run B max_time max_messages (evs @ [ev]) s
         = hzCalculationCallback max_time max_messages (fst ev)
             (s\<lparr>received_messages := received_messages s + int (length evs)\<rparr>)"
  using assms
proof (induction evs arbitrary: s)
  case Nil
  then show ?case
    by (simp add: deliver_def split: option.splits)
next
  case (Cons e evs)
  let ?s1 = "s\<lparr>received_messages := received_messages s + 1\<rparr>"
  from Cons.prems(2) have "finite_double (elapsed (fst ((e # evs) ! 0)) s)
      \<and> \<not> warm_up_done max_time max_messages (fst ((e # evs) ! 0))
            (s\<lparr>received_messages := received_messages s + int 0\<rparr>)"
    by blast
  then have "finite_double (elapsed (fst e) s)"
    "\<not> warm_up_done max_time max_messages (fst e) s"
    by (simp_all add: warm_up_done_def)
  then have d: "deliver B max_time max_messages e s = Some ?s1"
    using Cons.prems(1) by (simp add: deliver_def hzCalculationCallback_continue)
  have sub1: "sub ?s1 = Sub_hzCalculationCallback"
    using Cons.prems(1) by simp
  have rest: "\<forall>i<length evs. finite_double (elapsed (fst (evs ! i)) ?s1)
           \<and> \<not> warm_up_done max_time max_messages (fst (evs ! i))
                 (?s1\<lparr>received_messages := received_messages ?s1 + int i\<rparr>)"
  proof (intro allI impI)
    fix i assume "i < length evs"
    then have "Suc i < length (e # evs)" by simp
    with Cons.prems(2) have "finite_double (elapsed (fst ((e # evs) ! Suc i)) s)
           \<and> \<not> warm_up_done max_time max_messages (fst ((e # evs) ! Suc i))
                 (s\<lparr>received_messages := received_messages s + int (Suc i)\<rparr>)"
      by blast
    then show "finite_double (elapsed (fst (evs ! i)) ?s1)
           \<and> \<not> warm_up_done max_time max_messages (fst (evs ! i))
                 (?s1\<lparr>received_messages := received_messages ?s1 + int i\<rparr>)"
      by (simp add: algebra_simps)
  qed
  from Cons.IH [OF sub1 rest] d show ?case
    by (simp add: algebra_simps)
qed

lemma run_array_warm_up_counts:
  assumes "sub s = Sub_hzCalculationCallback"
    and "\<forall>i<length evs. finite_double (elapsed (fst (evs ! i)) s)
           \<and> \<not> warm_up_done max_time max_messages (fst (evs ! i))
                 (s\<lparr>received_messages := received_messages s + int i\<rparr>)"
  shows "run_array B d max_time max_messages (evs @ [ev]) s
         = hzCalculationCallback_array max_time max_messages (fst ev)
             (s\<lparr>received_messages := received_messages s + int (length evs)\<rparr>)"
  using assms
proof (induction evs arbitrary: s)
  case Nil
  then show ?case
    by (simp add: deliver_array_def split: option.splits)
next
  case (Cons e evs)
  let ?s1 = "s\<lparr>received_messages := received_messages s + 1\<rparr>"
  from Cons.prems(2) have "finite_double (elapsed (fst ((e # evs) ! 0)) s)
      \<and> \<not> warm_up_done max_time max_messages (fst ((e # evs) ! 0))
            (s\<lparr>received_messages := received_messages s + int 0\<rparr>)"
    by blast
  then have "finite_double (elapsed (fst e) s)"
    "\<not> warm_up_done max_time max_messages (fst e) s"
    by (simp_all add: warm_up_done_def)
  then have d: "deliver_array B d max_time max_messages e s = Some ?s1"
    using Cons.prems(1) by (simp add: deliver_array_def hzCalculationCallback_array_continue)
  have sub1: "sub ?s1 = Sub_hzCalculationCallback"
    using Cons.prems(1) by simp
  have rest: "\<forall>i<length evs. finite_double (elapsed (fst (evs ! i)) ?s1)
           \<and> \<not> warm_up_done max_time max_messages (fst (evs ! i))
                 (?s1\<lparr>received_messages := received_messages ?s1 + int i\<rparr>)"
  proof (intro allI impI)
    fix i assume "i < length evs"
    then have "Suc i < length (e # evs)" by simp
    with Cons.prems(2) have "finite_double (elapsed (fst ((e # evs) ! Suc i)) s)
           \<and> \<not> warm_up_done max_time max_messages (fst ((e # evs) ! Suc i))
                 (s\<lparr>received_messages := received_messages s + int (Suc i)\<rparr>)"
      by blast
    then show "finite_double (elapsed (fst (evs ! i)) ?s1)
           \<and> \<not> warm_up_done max_time max_messages (fst (evs ! i))
                 (?s1\<lparr>received_messages := received_messages ?s1 + int i\<rparr>)"
      by (simp add: algebra_simps)
  qed
  from Cons.IH [OF sub1 rest] d show ?case
    by (simp add: algebra_simps)
qed

lemma run_warm_up_ends:
  assumes "sub s = Sub_hzCalculationCallback" and "evs \<noteq> []"
    and "max_messages \<le> received_messages s + int (length evs)"
    and "run B max_time max_messages evs s = Some s'"
  shows "steady s'"
  using assms
proof (induction evs arbitrary: s)
  case Nil
  then show ?case by simp
next
  case (Cons ev evs)
  from Cons.prems(1,4) obtain t
    where t: "hzCalculationCallback max_time max_messages (fst ev) s = Some t"
      and r: "run B max_time max_messages evs t = Some s'"
    by (auto simp add: deliver_def split: option.splits)
  show ?case
  proof (cases "warm_up_done max_time max_messages (fst ev) s")
    case True
    from hzCalculationCallback_Some_fields(3) [OF True t] have "steady t"
      by (simp add: steady_def)
    from run_steady [OF this r] show ?thesis by simp
  next
    case False
    from t have "finite_double (elapsed (fst ev) s)"
      using hzCalculationCallback_overflow [of "fst ev" s max_time max_messages] by auto
    with False t have t': "t = s\<lparr>received_messages := received_messages s + 1\<rparr>"
      by (simp add: hzCalculationCallback_continue)
    from False have "\<not> max_messages \<le> received_messages s + 1"
      by (simp add: warm_up_done_def)
    with Cons.prems(3) have ne: "evs \<noteq> []"
      by auto
    from Cons.prems(1) t' have hz: "sub t = Sub_hzCalculationCallback"
      by simp
    from Cons.prems(3) t' have "max_messages \<le> received_messages t + int (length evs)"
      by simp
    with hz ne show ?thesis
      using r by (intro Cons.IH)
  qed
qed


section \<open>The state after start-up\<close>

lemma nr_scans_in_bank_read_parameters [simp]:
  "nr_scans_in_bank (read_parameters p ba) = nr_scans_in_bank (param_bank_argument p)"
  by (simp add: read_parameters_def)

lemma test_parameters_simps [simp]:
  "param_optimize_nr_scans_in_bank (test_parameters t) = t"
  "param_bank_argument (test_parameters t) = test_bank_argument"
  by (simp_all add: test_parameters_def)

lemma read_parameters_test [simp]:
  "read_parameters (test_parameters t) test_bank_argument = test_bank_argument"
  by (simp add: read_parameters_def test_parameters_def test_bank_argument_def)

lemma start_up_fields:
  "sub (start_up B p m) =
     (if param_optimize_nr_scans_in_bank p \<noteq> 0 then Sub_waitForFirstMessageCallback
      else Sub_CallbackFirst)"
  "root_1 (start_up B p m) = double 0.35"
  "root_2 (start_up B p m) = double 0.65"
  "bank_argument (start_up B p m) = read_parameters p (bank_argument m)"
  "received_messages (start_up B p m) = 0"
  "optimize_nr_scans_in_bank (start_up B p m) = param_optimize_nr_scans_in_bank p"
  "bank (start_up B p m) = new_Bank B"
  by (simp_all add: start_up_def onInit_def LaserScanInterpreterNode_def
      static_initialisation_def Let_def)

lemma start_up_array_fields:
  "sub (start_up_array d p ma) =
     (if param_optimize_nr_scans_in_bank p \<noteq> 0 then Sub_waitForFirstMessageCallback
      else Sub_CallbackFirst)"
  "root_1 (start_up_array d p ma) = double 0.35"
  "root_2 (start_up_array d p ma) = double 0.65"
  "bank_arguments (start_up_array d p ma) = [read_parameters p d]"
  "banks (start_up_array d p ma) = []"
  "received_messages (start_up_array d p ma) = 0"
  "optimize_nr_scans_in_bank (start_up_array d p ma) = param_optimize_nr_scans_in_bank p"
  by (simp_all add: start_up_array_def onInit_array_def LaserScanArrayInterpreterNode_def
      static_initialisation_def Let_def)


section \<open>The example data\<close>

lemma to_string_small: "to_string 0 = ''0''" "to_string 1 = ''1''" "to_string 12 = ''12''"
  by code_simp+

lemma to_string_Suc_0: "to_string (Suc 0) = ''1''"
  using to_string_small(2) by simp

lemma test_Bank_simps [simp]:
  "new_Bank test_Bank = 0"
  "init test_Bank ba msg b = (if msg = [] then (- 1, b) else (0, 1))"
  "addMessage test_Bank msg b = (if msg = [] then (- 1, b) else (0, b + 1))"
  "findAndReportMovingObjects test_Bank b = b"
  by (simp_all add: test_Bank_def)

lemma test_node_fields [simp]:
  "sub (test_node t) = (if t \<noteq> 0 then Sub_waitForFirstMessageCallback else Sub_CallbackFirst)"
  "root_1 (test_node t) = double 0.35"
  "root_2 (test_node t) = double 0.65"
  "bank_argument (test_node t) = test_bank_argument"
  "received_messages (test_node t) = 0"
  "optimize_nr_scans_in_bank (test_node t) = t"
  "bank (test_node t) = 0"
  by (simp_all add: test_node_def start_up_fields)

lemma test_array_node_fields [simp]:
  "sub (test_array_node t) = (if t \<noteq> 0 then Sub_waitForFirstMessageCallback else Sub_CallbackFirst)"
  "root_1 (test_array_node t) = double 0.35"
  "root_2 (test_array_node t) = double 0.65"
  "bank_arguments (test_array_node t) = [test_bank_argument]"
  "banks (test_array_node t) = []"
  "received_messages (test_array_node t) = 0"
  "optimize_nr_scans_in_bank (test_array_node t) = t"
  by (simp_all add: test_array_node_def start_up_array_fields)

lemma waitForFirstMessageCallback_fields [simp]:
  "sub (waitForFirstMessageCallback now s) = Sub_hzCalculationCallback"
  "start_time (waitForFirstMessageCallback now s) = now"
  "root_1 (waitForFirstMessageCallback now s) = root_1 s"
  "root_2 (waitForFirstMessageCallback now s) = root_2 s"
  "received_messages (waitForFirstMessageCallback now s) = received_messages s"
  "optimize_nr_scans_in_bank (waitForFirstMessageCallback now s) = optimize_nr_scans_in_bank s"
  by (simp_all add: waitForFirstMessageCallback_def)

lemma waitForFirstMessageCallback_more [simp]:
  "bank_argument (waitForFirstMessageCallback now s) = bank_argument s"
  "bank_arguments (waitForFirstMessageCallback now sa) = bank_arguments sa"
  "banks (waitForFirstMessageCallback now sa) = banks sa"
  by (simp_all add: waitForFirstMessageCallback_def)


section \<open>Runs that are defined\<close>

lemma run_steady_total:
  "steady s \<Longrightarrow> \<exists>s'. run B max_time max_messages evs s = Some s'"
proof (induction evs arbitrary: s)
  case Nil
  then show ?case by simp
next
  case (Cons ev evs)
  from Cons.prems obtain t where t: "deliver B max_time max_messages ev s = Some t"
    by (auto simp add: steady_def deliver_def)
  from deliver_steady [OF Cons.prems t] have "steady t" by simp
  from Cons.IH [OF this] t show ?case by simp
qed

lemma laserScanArrayCallback_defined:
  "length msgs \<le> length (banks s) \<Longrightarrow> \<exists>s'. laserScanArrayCallback B msgs s = Some s'"
  by (simp add: laserScanArrayCallback_def)

lemma run_array_Callback_total:
  assumes "sub s = Sub_Callback" and "\<forall>ev\<in>set evs. length (snd ev) \<le> length (banks s)"
  shows "\<exists>s'. run_array B d max_time max_messages evs s = Some s'"
  using assms
proof (induction evs arbitrary: s)
  case Nil
  then show ?case by simp
next
  case (Cons ev evs)
  from Cons.prems(2) have "length (snd ev) \<le> length (banks s)" by simp
  from laserScanArrayCallback_defined [OF this]
  obtain t where t: "laserScanArrayCallback B (snd ev) s = Some t" by blast
  from laserScanArrayCallback_Some [OF t] Cons.prems
  have "sub t = Sub_Callback" "\<forall>ev\<in>set evs. length (snd ev) \<le> length (banks t)"
    by simp_all
  from Cons.IH [OF this] t Cons.prems(1) show ?case
    by (simp add: deliver_array_def)
qed

lemma run_array_First_total:
  assumes "sub s = Sub_CallbackFirst" and "banks s = []" and "bank_arguments s \<noteq> []"
    and "\<forall>ev\<in>set evs. length (snd ev) \<le> length (snd e)"
  shows "\<exists>s'. run_array B d max_time max_messages (e # evs) s = Some s'"
proof -
  from laserScanArrayCallbackFirst_create [OF assms(2)]
  obtain t where t: "laserScanArrayCallbackFirst B d (snd e) s = Some t" by blast
  from laserScanArrayCallbackFirst_created [OF assms(2,3) t]
  have "length (banks t) = length (snd e)" by simp
  with assms(4) have "\<forall>ev\<in>set evs. length (snd ev) \<le> length (banks t)" by simp
  from run_array_Callback_total [OF _ this] laserScanArrayCallbackFirst_Some [OF t]
  obtain s' where "run_array B d max_time max_messages evs t = Some s'" by blast
  with t assms(1) show ?thesis
    by (simp add: deliver_array_def)
qed


section \<open>Calibration, start-up and the first message\<close>

lemma elapsed_example [simp]:
  "elapsed now (waitForFirstMessageCallback 0 s) = double now"
  by (simp add: elapsed_def)

lemma elapsed_overflow_example:
  "\<not> finite_double (elapsed (2 ^ 1024) (waitForFirstMessageCallback 0 s))"
  unfolding elapsed_example double_power2 finite_double_def by simp

text \<open>
  Claim C7. A message that reaches neither ceiling is counted and nothing else changes; the
  subscriber stays on the rate calculation. At the first message for which the elapsed time
  has reached \<open>max_time\<close> or the incremented counter has reached \<open>max_messages\<close>, the
  callback computes the rate as the counter over the elapsed time, stores the scan count of
  target times rate (after the sanity check), sets \<open>root_1\<close> to target times 0.6 and
  \<open>root_2\<close> to target times 1.4 and hands over to the first-scan callback; all of these
  are doubles, each operation rounded, and nothing else in the state changes. Hence a run of
  messages none of which reaches a ceiling, followed by one more message, is the callback on
  that message in the state that has counted the others. The executions without a result
  are the ones with an elapsed time of zero, with a rate or a scan count that is not
  finite, with a count outside \<^verbatim>\<open>int\<close>, with (scan-array class) an empty argument
  vector, which are undefined in C++, and the ones in which the elapsed time or a root
  overflows.
\<close>

theorem hzCalculationCallback_ends_warm_up:
  fixes s :: "'bank LaserScanInterpreter" and sa :: "'bank LaserScanArrayInterpreter"
  shows "(finite_double (elapsed now s) \<and> \<not> warm_up_done max_time max_messages now s \<longrightarrow>
            hzCalculationCallback max_time max_messages now s
              = Some (s\<lparr>received_messages := received_messages s + 1\<rparr>))
       \<and> (warm_up_done max_time max_messages now s \<longrightarrow>
            (hzCalculationCallback max_time max_messages now s = None \<longleftrightarrow>
               \<not> finite_double (elapsed now s) \<or> elapsed now s = 0
               \<or> \<not> finite_double (measured_hz now s) \<or> \<not> finite_double (measured_nr_scans now s)
               \<or> \<not> (- (2 ^ 31) \<le> \<lfloor>measured_nr_scans now s\<rfloor> + 1
                    \<and> \<lfloor>measured_nr_scans now s\<rfloor> + 1 < 2 ^ 31)
               \<or> \<not> finite_double (double (optimize_nr_scans_in_bank s * double 0.6))
               \<or> \<not> finite_double (double (optimize_nr_scans_in_bank s * double 1.4)))
          \<and> (\<forall>s'. hzCalculationCallback max_time max_messages now s = Some s' \<longrightarrow>
                s' = s\<lparr>received_messages := received_messages s + 1,
                       bank_argument := (bank_argument s)
                         \<lparr>nr_scans_in_bank := sanity_check (\<lfloor>measured_nr_scans now s\<rfloor> + 1)\<rparr>,
                       root_1 := double (optimize_nr_scans_in_bank s * double 0.6),
                       root_2 := double (optimize_nr_scans_in_bank s * double 1.4),
                       sub := Sub_CallbackFirst\<rparr>))
       \<and> (\<not> finite_double (elapsed now s) \<longrightarrow>
            hzCalculationCallback max_time max_messages now s = None)
       \<and> (sub s = Sub_hzCalculationCallback
          \<and> (\<forall>i<length evs. finite_double (elapsed (fst (evs ! i)) s)
                \<and> \<not> warm_up_done max_time max_messages (fst (evs ! i))
                      (s\<lparr>received_messages := received_messages s + int i\<rparr>)) \<longrightarrow>
            run B max_time max_messages (evs @ [ev]) s
              = hzCalculationCallback max_time max_messages (fst ev)
                  (s\<lparr>received_messages := received_messages s + int (length evs)\<rparr>))
       \<and> measured_hz now s
            = double (real_of_int (received_messages s + 1) / double (now - start_time s))
       \<and> measured_nr_scans now s = double (optimize_nr_scans_in_bank s * measured_hz now s)
       \<and> (finite_double (elapsed now sa) \<and> \<not> warm_up_done max_time max_messages now sa \<longrightarrow>
            hzCalculationCallback_array max_time max_messages now sa
              = Some (sa\<lparr>received_messages := received_messages sa + 1\<rparr>))
       \<and> (warm_up_done max_time max_messages now sa \<longrightarrow>
            (hzCalculationCallback_array max_time max_messages now sa = None \<longleftrightarrow>
               \<not> finite_double (elapsed now sa) \<or> elapsed now sa = 0
               \<or> \<not> finite_double (measured_hz now sa) \<or> \<not> finite_double (measured_nr_scans now sa)
               \<or> \<not> (- (2 ^ 31) \<le> \<lfloor>measured_nr_scans now sa\<rfloor> + 1
                    \<and> \<lfloor>measured_nr_scans now sa\<rfloor> + 1 < 2 ^ 31)
               \<or> \<not> finite_double (double (optimize_nr_scans_in_bank sa * double 0.6))
               \<or> \<not> finite_double (double (optimize_nr_scans_in_bank sa * double 1.4))
               \<or> bank_arguments sa = [])
          \<and> (\<forall>sa'. hzCalculationCallback_array max_time max_messages now sa = Some sa' \<longrightarrow>
                sa' = sa\<lparr>received_messages := received_messages sa + 1,
                         bank_arguments := (bank_arguments sa)
                           [0 := (bank_arguments sa ! 0)
                              \<lparr>nr_scans_in_bank :=
                                 sanity_check (\<lfloor>measured_nr_scans now sa\<rfloor> + 1)\<rparr>],
                         root_1 := double (optimize_nr_scans_in_bank sa * double 0.6),
                         root_2 := double (optimize_nr_scans_in_bank sa * double 1.4),
                         sub := Sub_CallbackFirst\<rparr>))
       \<and> (\<not> finite_double (elapsed now sa) \<longrightarrow>
            hzCalculationCallback_array max_time max_messages now sa = None)
       \<and> (sub sa = Sub_hzCalculationCallback
          \<and> (\<forall>i<length evsa. finite_double (elapsed (fst (evsa ! i)) sa)
                \<and> \<not> warm_up_done max_time max_messages (fst (evsa ! i))
                      (sa\<lparr>received_messages := received_messages sa + int i\<rparr>)) \<longrightarrow>
            run_array B d max_time max_messages (evsa @ [eva]) sa
              = hzCalculationCallback_array max_time max_messages (fst eva)
                  (sa\<lparr>received_messages := received_messages sa + int (length evsa)\<rparr>))"
proof (intro conjI impI allI)
  assume "finite_double (elapsed now s) \<and> \<not> warm_up_done max_time max_messages now s"
  then show "hzCalculationCallback max_time max_messages now s
               = Some (s\<lparr>received_messages := received_messages s + 1\<rparr>)"
    by (simp add: hzCalculationCallback_continue)
next
  assume "finite_double (elapsed now sa) \<and> \<not> warm_up_done max_time max_messages now sa"
  then show "hzCalculationCallback_array max_time max_messages now sa
               = Some (sa\<lparr>received_messages := received_messages sa + 1\<rparr>)"
    by (simp add: hzCalculationCallback_array_continue)
next
  assume "warm_up_done max_time max_messages now s"
  then show "hzCalculationCallback max_time max_messages now s = None \<longleftrightarrow>
               \<not> finite_double (elapsed now s) \<or> elapsed now s = 0
               \<or> \<not> finite_double (measured_hz now s) \<or> \<not> finite_double (measured_nr_scans now s)
               \<or> \<not> (- (2 ^ 31) \<le> \<lfloor>measured_nr_scans now s\<rfloor> + 1
                    \<and> \<lfloor>measured_nr_scans now s\<rfloor> + 1 < 2 ^ 31)
               \<or> \<not> finite_double (double (optimize_nr_scans_in_bank s * double 0.6))
               \<or> \<not> finite_double (double (optimize_nr_scans_in_bank s * double 1.4))"
    by (rule hzCalculationCallback_None_iff)
next
  assume "warm_up_done max_time max_messages now sa"
  then show "hzCalculationCallback_array max_time max_messages now sa = None \<longleftrightarrow>
               \<not> finite_double (elapsed now sa) \<or> elapsed now sa = 0
               \<or> \<not> finite_double (measured_hz now sa) \<or> \<not> finite_double (measured_nr_scans now sa)
               \<or> \<not> (- (2 ^ 31) \<le> \<lfloor>measured_nr_scans now sa\<rfloor> + 1
                    \<and> \<lfloor>measured_nr_scans now sa\<rfloor> + 1 < 2 ^ 31)
               \<or> \<not> finite_double (double (optimize_nr_scans_in_bank sa * double 0.6))
               \<or> \<not> finite_double (double (optimize_nr_scans_in_bank sa * double 1.4))
               \<or> bank_arguments sa = []"
    by (rule hzCalculationCallback_array_None_iff)
next
  fix s' assume "warm_up_done max_time max_messages now s"
    and "hzCalculationCallback max_time max_messages now s = Some s'"
  then show "s' = s\<lparr>received_messages := received_messages s + 1,
                       bank_argument := (bank_argument s)
                         \<lparr>nr_scans_in_bank := sanity_check (\<lfloor>measured_nr_scans now s\<rfloor> + 1)\<rparr>,
                       root_1 := double (optimize_nr_scans_in_bank s * double 0.6),
                       root_2 := double (optimize_nr_scans_in_bank s * double 1.4),
                       sub := Sub_CallbackFirst\<rparr>"
    by (rule hzCalculationCallback_Some)
next
  fix sa' assume "warm_up_done max_time max_messages now sa"
    and "hzCalculationCallback_array max_time max_messages now sa = Some sa'"
  then show "sa' = sa\<lparr>received_messages := received_messages sa + 1,
                         bank_arguments := (bank_arguments sa)
                           [0 := (bank_arguments sa ! 0)
                              \<lparr>nr_scans_in_bank :=
                                 sanity_check (\<lfloor>measured_nr_scans now sa\<rfloor> + 1)\<rparr>],
                         root_1 := double (optimize_nr_scans_in_bank sa * double 0.6),
                         root_2 := double (optimize_nr_scans_in_bank sa * double 1.4),
                         sub := Sub_CallbackFirst\<rparr>"
    using hzCalculationCallback_array_Some by blast
next
  assume "\<not> finite_double (elapsed now s)"
  then show "hzCalculationCallback max_time max_messages now s = None"
    by (rule hzCalculationCallback_overflow)
next
  assume "\<not> finite_double (elapsed now sa)"
  then show "hzCalculationCallback_array max_time max_messages now sa = None"
    by (rule hzCalculationCallback_array_overflow)
next
  assume "sub s = Sub_hzCalculationCallback
          \<and> (\<forall>i<length evs. finite_double (elapsed (fst (evs ! i)) s)
                \<and> \<not> warm_up_done max_time max_messages (fst (evs ! i))
                      (s\<lparr>received_messages := received_messages s + int i\<rparr>))"
  then show "run B max_time max_messages (evs @ [ev]) s
              = hzCalculationCallback max_time max_messages (fst ev)
                  (s\<lparr>received_messages := received_messages s + int (length evs)\<rparr>)"
    by (intro run_warm_up_counts) simp_all
next
  assume "sub sa = Sub_hzCalculationCallback
          \<and> (\<forall>i<length evsa. finite_double (elapsed (fst (evsa ! i)) sa)
                \<and> \<not> warm_up_done max_time max_messages (fst (evsa ! i))
                      (sa\<lparr>received_messages := received_messages sa + int i\<rparr>))"
  then show "run_array B d max_time max_messages (evsa @ [eva]) sa
              = hzCalculationCallback_array max_time max_messages (fst eva)
                  (sa\<lparr>received_messages := received_messages sa + int (length evsa)\<rparr>)"
    by (intro run_array_warm_up_counts) simp_all
qed (simp_all add: measured_hz_def measured_nr_scans_def elapsed_def)

lemmas rate_eval =
  warm_up_done_def measured_hz_def measured_nr_scans_def roundings finite_double_small
  sanity_check_def

theorem hzCalculationCallback_ends_warm_up_witness:
  "finite_double (elapsed 1 (waitForFirstMessageCallback 0 (test_node 0.5)))
   \<and> \<not> warm_up_done 1.5 100 1 (waitForFirstMessageCallback 0 (test_node 0.5))
   \<and> hzCalculationCallback 1.5 100 1 (waitForFirstMessageCallback 0 (test_node 0.5))
       = Some ((waitForFirstMessageCallback 0 (test_node 0.5))\<lparr>received_messages := 1\<rparr>)
   \<and> warm_up_done 1.5 10 1
       ((waitForFirstMessageCallback 0 (test_node (double 0.3)))\<lparr>received_messages := 9\<rparr>)
   \<and> measured_hz 1
       ((waitForFirstMessageCallback 0 (test_node (double 0.3)))\<lparr>received_messages := 9\<rparr>) = 10
   \<and> measured_nr_scans 1
       ((waitForFirstMessageCallback 0 (test_node (double 0.3)))\<lparr>received_messages := 9\<rparr>) = 3
   \<and> (\<exists>s'. hzCalculationCallback 1.5 10 1
              ((waitForFirstMessageCallback 0 (test_node (double 0.3)))\<lparr>received_messages := 9\<rparr>)
              = Some s'
          \<and> nr_scans_in_bank (bank_argument s') = 4
          \<and> root_1 s' = 3242591731706757 / 18014398509481984
          \<and> root_2 s' = 7566047373982433 / 18014398509481984
          \<and> sub s' = Sub_CallbackFirst \<and> received_messages s' = 10)
   \<and> \<not> finite_double (elapsed (2 ^ 1024) (waitForFirstMessageCallback 0 (test_node 0.5)))
   \<and> hzCalculationCallback 1.5 100 (2 ^ 1024) (waitForFirstMessageCallback 0 (test_node 0.5))
       = None
   \<and> sub (waitForFirstMessageCallback 0 (test_node 0.5)) = Sub_hzCalculationCallback
   \<and> (\<exists>s'. run test_Bank 1.5 3 ([(0.25, [1]), (0.5, [1])] @ [(1, [1])])
              (waitForFirstMessageCallback 0 (test_node 0.5)) = Some s'
          \<and> received_messages s' = 3 \<and> nr_scans_in_bank (bank_argument s') = 2
          \<and> root_1 s' = 5404319552844595 / 18014398509481984
          \<and> root_2 s' = 3152519739159347 / 4503599627370496
          \<and> sub s' = Sub_CallbackFirst)
   \<and> warm_up_done 1.5 100 2 (waitForFirstMessageCallback 0 (test_array_node 0.5))
   \<and> (\<exists>sa'. hzCalculationCallback_array 1.5 100 2
               (waitForFirstMessageCallback 0 (test_array_node 0.5)) = Some sa'
          \<and> nr_scans_in_bank (bank_arguments sa' ! 0) = 2
          \<and> root_1 sa' = 5404319552844595 / 18014398509481984
          \<and> root_2 sa' = 3152519739159347 / 4503599627370496
          \<and> sub sa' = Sub_CallbackFirst \<and> received_messages sa' = 1)"
proof -
  let ?s0 = "waitForFirstMessageCallback 0 (test_node 0.5)"
  let ?s9 = "(waitForFirstMessageCallback 0 (test_node (double 0.3)))\<lparr>received_messages := 9\<rparr>"
  let ?sa = "waitForFirstMessageCallback 0 (test_array_node 0.5)"
  let ?evs = "[(0.25, [1]), (0.5, [1])] :: (real \<times> real list) list"
  let ?ev = "(1, [1]) :: real \<times> real list"
  let ?s2 = "?s0\<lparr>received_messages := received_messages ?s0 + int (length ?evs)\<rparr>"
  note th = hzCalculationCallback_ends_warm_up
    [where B = test_Bank and d = test_bank_argument and evs = ?evs and ev = ?ev
       and evsa = "[]" and eva = "(0, [])" and sa = ?sa]
  have a: "finite_double (elapsed 1 ?s0) \<and> \<not> warm_up_done 1.5 100 1 ?s0"
    by (simp add: rate_eval)
  from th [where s = ?s0 and max_time = "1.5" and max_messages = 100 and now = 1,
      THEN conjunct1, THEN mp, OF a]
  have a': "hzCalculationCallback 1.5 100 1 ?s0 = Some (?s0\<lparr>received_messages := 1\<rparr>)"
    by simp
  have b: "warm_up_done 1.5 10 1 ?s9" "measured_hz 1 ?s9 = 10" "measured_nr_scans 1 ?s9 = 3"
    by (simp_all add: rate_eval)
  note th9 = th [where s = ?s9 and max_time = "1.5" and max_messages = 10 and now = 1,
      THEN conjunct2, THEN conjunct1, THEN mp, OF b(1)]
  from th9 [THEN conjunct1] b have "hzCalculationCallback 1.5 10 1 ?s9 \<noteq> None"
    by (simp add: rate_eval)
  then obtain s' where s': "hzCalculationCallback 1.5 10 1 ?s9 = Some s'"
    by blast
  from th9 [THEN conjunct2, THEN spec, THEN mp, OF s'] b
  have b': "nr_scans_in_bank (bank_argument s') = 4"
    "root_1 s' = 3242591731706757 / 18014398509481984"
    "root_2 s' = 7566047373982433 / 18014398509481984"
    "sub s' = Sub_CallbackFirst" "received_messages s' = 10"
    by (simp_all add: rate_eval)
  have c: "\<not> finite_double (elapsed (2 ^ 1024) ?s0)"
    by (rule elapsed_overflow_example)
  have c': "hzCalculationCallback 1.5 100 (2 ^ 1024) ?s0 = None"
    by (rule th [where s = ?s0 and max_time = "1.5" and max_messages = 100 and now = "2 ^ 1024",
          THEN conjunct2, THEN conjunct2, THEN conjunct1, THEN mp, OF c])
  have d: "sub ?s0 = Sub_hzCalculationCallback"
    by simp
  have d1: "\<forall>i<length ?evs. finite_double (elapsed (fst (?evs ! i)) ?s0)
              \<and> \<not> warm_up_done 1.5 3 (fst (?evs ! i))
                    (?s0\<lparr>received_messages := received_messages ?s0 + int i\<rparr>)"
    by (simp add: rate_eval less_Suc_eq)
  from d d1 have "sub ?s0 = Sub_hzCalculationCallback
      \<and> (\<forall>i<length ?evs. finite_double (elapsed (fst (?evs ! i)) ?s0)
              \<and> \<not> warm_up_done 1.5 3 (fst (?evs ! i))
                    (?s0\<lparr>received_messages := received_messages ?s0 + int i\<rparr>))"
    by (rule conjI)
  note r = th [where s = ?s0 and max_time = "1.5" and max_messages = 3 and now = 1,
      THEN conjunct2, THEN conjunct2, THEN conjunct2, THEN conjunct1, THEN mp, OF this]
  have e: "warm_up_done 1.5 3 (fst ?ev) ?s2" "measured_nr_scans (fst ?ev) ?s2 = 3 / 2"
    by (simp_all add: rate_eval)
  note th2 = th [where s = ?s2 and max_time = "1.5" and max_messages = 3 and now = "fst ?ev",
      THEN conjunct2, THEN conjunct1, THEN mp, OF e(1)]
  from th2 [THEN conjunct1] e have "hzCalculationCallback 1.5 3 (fst ?ev) ?s2 \<noteq> None"
    by (simp add: rate_eval)
  then obtain t' where t': "hzCalculationCallback 1.5 3 (fst ?ev) ?s2 = Some t'"
    by blast
  from th2 [THEN conjunct2, THEN spec, THEN mp, OF t'] e
  have e': "received_messages t' = 3" "nr_scans_in_bank (bank_argument t') = 2"
    "root_1 t' = 5404319552844595 / 18014398509481984"
    "root_2 t' = 3152519739159347 / 4503599627370496"
    "sub t' = Sub_CallbackFirst"
    by (simp_all add: rate_eval)
  from r t' have r': "run test_Bank 1.5 3 (?evs @ [?ev]) ?s0 = Some t'"
    by simp
  have f: "warm_up_done 1.5 100 2 ?sa" "measured_nr_scans 2 ?sa = 1 / 4"
    by (simp_all add: rate_eval)
  note tha = th [where s = ?s0 and max_time = "1.5" and max_messages = 100 and now = 2,
      THEN conjunct2, THEN conjunct2, THEN conjunct2, THEN conjunct2, THEN conjunct2,
      THEN conjunct2, THEN conjunct2, THEN conjunct1, THEN mp, OF f(1)]
  from tha [THEN conjunct1] f have "hzCalculationCallback_array 1.5 100 2 ?sa \<noteq> None"
    by (simp add: rate_eval)
  then obtain sa' where sa': "hzCalculationCallback_array 1.5 100 2 ?sa = Some sa'"
    by blast
  from tha [THEN conjunct2, THEN spec, THEN mp, OF sa'] f
  have f': "nr_scans_in_bank (bank_arguments sa' ! 0) = 2"
    "root_1 sa' = 5404319552844595 / 18014398509481984"
    "root_2 sa' = 3152519739159347 / 4503599627370496"
    "sub sa' = Sub_CallbackFirst" "received_messages sa' = 1"
    by (simp_all add: rate_eval)
  from a a' b s' b' c c' d r' e' f(1) sa' f' show ?thesis
    by blast
qed

text \<open>
  Claim C6. The warm-up ends once and for good. When the callback of the rate calculation
  meets the time or the message ceiling and has computed the window size and the roots, it
  rebinds the subscriber to the first-scan callback, and whatever messages follow, the
  subscriber stays on the two scan callbacks and the roots and every window size stay as
  computed; this holds for the single-scan class and for the scan-array class (started with
  its one configured argument and no banks). The end is reached: a node in the rate
  calculation that receives as many messages as the message ceiling asks for has left it.
\<close>

theorem calibration_one_shot:
  fixes s s' s'' t t' :: "'bank LaserScanInterpreter"
    and sa sa' sa'' :: "'bank LaserScanArrayInterpreter"
  shows "(warm_up_done max_time max_messages now s
          \<and> hzCalculationCallback max_time max_messages now s = Some s'
          \<and> run B max_time max_messages evs s' = Some s'' \<longrightarrow>
            sub s' = Sub_CallbackFirst \<and> steady s''
          \<and> root_1 s'' = root_1 s' \<and> root_2 s'' = root_2 s'
          \<and> nr_scans_in_bank (bank_argument s'') = nr_scans_in_bank (bank_argument s'))
       \<and> (warm_up_done max_time max_messages now sa
          \<and> bank_arguments sa = [ba] \<and> banks sa = []
          \<and> hzCalculationCallback_array max_time max_messages now sa = Some sa'
          \<and> run_array B d max_time max_messages evsa sa' = Some sa'' \<longrightarrow>
            sub sa' = Sub_CallbackFirst \<and> steady sa''
          \<and> root_1 sa'' = root_1 sa' \<and> root_2 sa'' = root_2 sa'
          \<and> (\<forall>x\<in>set (bank_arguments sa'').
                nr_scans_in_bank x = nr_scans_in_bank (bank_arguments sa' ! 0)))
       \<and> (sub t = Sub_hzCalculationCallback \<and> evt \<noteq> []
          \<and> max_messages \<le> received_messages t + int (length evt)
          \<and> run B max_time max_messages evt t = Some t' \<longrightarrow> steady t')"
proof (intro conjI impI)
  assume h: "warm_up_done max_time max_messages now s
          \<and> hzCalculationCallback max_time max_messages now s = Some s'
          \<and> run B max_time max_messages evs s' = Some s''"
  then have f: "sub s' = Sub_CallbackFirst"
    using hzCalculationCallback_Some_fields(3) by blast
  then have st: "steady s'" by (simp add: steady_def)
  from h have r: "run B max_time max_messages evs s' = Some s''" by simp
  from run_steady [OF st r] f
  show "sub s' = Sub_CallbackFirst" "steady s''" "root_1 s'' = root_1 s'"
    "root_2 s'' = root_2 s'"
    "nr_scans_in_bank (bank_argument s'') = nr_scans_in_bank (bank_argument s')"
    by simp_all
next
  assume h: "warm_up_done max_time max_messages now sa
          \<and> bank_arguments sa = [ba] \<and> banks sa = []
          \<and> hzCalculationCallback_array max_time max_messages now sa = Some sa'
          \<and> run_array B d max_time max_messages evsa sa' = Some sa''"
  then have p: "sub sa' = Sub_CallbackFirst" "banks sa' = []"
    "bank_arguments sa' = [bank_arguments sa' ! 0]"
    using hzCalculationCallback_array_Some_fields(3,5,6) [of max_time max_messages now sa sa']
    by simp_all
  from h have r: "run_array B d max_time max_messages evsa sa' = Some sa''" by simp
  from run_array_First [OF p r] p(1)
  show "sub sa' = Sub_CallbackFirst" "steady sa''" "root_1 sa'' = root_1 sa'"
    "root_2 sa'' = root_2 sa'"
    "\<forall>x\<in>set (bank_arguments sa''). nr_scans_in_bank x = nr_scans_in_bank (bank_arguments sa' ! 0)"
    by simp_all
next
  assume "sub t = Sub_hzCalculationCallback \<and> evt \<noteq> []
          \<and> max_messages \<le> received_messages t + int (length evt)
          \<and> run B max_time max_messages evt t = Some t'"
  then show "steady t'"
    using run_warm_up_ends by blast
qed

theorem calibration_one_shot_witness:
  "warm_up_done 1.5 100 1.6 (waitForFirstMessageCallback 0 (test_node 0.5))
   \<and> warm_up_done 1.5 100 1.6 (waitForFirstMessageCallback 0 (test_array_node 0.5))
   \<and> bank_arguments (waitForFirstMessageCallback 0 (test_array_node 0.5)) = [test_bank_argument]
   \<and> banks (waitForFirstMessageCallback 0 (test_array_node 0.5)) = []
   \<and> (\<exists>s' s''. hzCalculationCallback 1.5 100 1.6 (waitForFirstMessageCallback 0 (test_node 0.5))
                  = Some s'
          \<and> run test_Bank 1.5 100 [(1.7, [1]), (1.8, [2])] s' = Some s''
          \<and> steady s'' \<and> root_1 s'' = root_1 s' \<and> root_2 s'' = root_2 s'
          \<and> nr_scans_in_bank (bank_argument s'') = nr_scans_in_bank (bank_argument s'))
   \<and> (\<exists>sa' sa''. hzCalculationCallback_array 1.5 100 1.6
                    (waitForFirstMessageCallback 0 (test_array_node 0.5)) = Some sa'
          \<and> run_array test_Bank test_bank_argument 1.5 100 [(1.7, [[1], [1]]), (1.8, [[2], [2]])] sa'
               = Some sa''
          \<and> steady sa'' \<and> root_1 sa'' = root_1 sa' \<and> root_2 sa'' = root_2 sa'
          \<and> (\<forall>x\<in>set (bank_arguments sa'').
                nr_scans_in_bank x = nr_scans_in_bank (bank_arguments sa' ! 0)))
   \<and> sub (waitForFirstMessageCallback 0 (test_node 0.5)) = Sub_hzCalculationCallback
   \<and> (\<exists>t'. run test_Bank 1.5 2 [(0.1, [1]), (0.2, [1])]
               (waitForFirstMessageCallback 0 (test_node 0.5)) = Some t' \<and> steady t')"
proof -
  let ?s = "waitForFirstMessageCallback 0 (test_node 0.5)"
  let ?sa = "waitForFirstMessageCallback 0 (test_array_node 0.5)"
  let ?evs = "[(1.7, [1]), (1.8, [2])] :: (real \<times> real list) list"
  let ?evsa = "[(1.7, [[1], [1]]), (1.8, [[2], [2]])] :: (real \<times> real list list) list"
  let ?evt = "[(0.1, [1]), (0.2, [1])] :: (real \<times> real list) list"
  have w: "warm_up_done 1.5 100 1.6 ?s" "warm_up_done 1.5 100 1.6 ?sa"
    by (simp_all add: rate_eval)
  have "hzCalculationCallback 1.5 100 1.6 ?s \<noteq> None"
    using hzCalculationCallback_None_iff [OF w(1)] by (simp add: rate_eval)
  then obtain s' where s': "hzCalculationCallback 1.5 100 1.6 ?s = Some s'"
    by blast
  from hzCalculationCallback_Some_fields(3) [OF w(1) s'] have "steady s'"
    by (simp add: steady_def)
  from run_steady_total [OF this] obtain s''
    where s'': "run test_Bank 1.5 100 ?evs s' = Some s''"
    by blast
  have "hzCalculationCallback_array 1.5 100 1.6 ?sa \<noteq> None"
    using hzCalculationCallback_array_None_iff [OF w(2)] by (simp add: rate_eval)
  then obtain sa' where sa': "hzCalculationCallback_array 1.5 100 1.6 ?sa = Some sa'"
    by blast
  from hzCalculationCallback_array_Some_fields [OF w(2) sa']
  have f: "sub sa' = Sub_CallbackFirst" "banks sa' = []" "bank_arguments sa' \<noteq> []"
    by simp_all
  have "\<exists>sa''. run_array test_Bank test_bank_argument 1.5 100 ?evsa sa' = Some sa''"
    by (rule run_array_First_total [OF f]) simp
  then obtain sa'' where sa'': "run_array test_Bank test_bank_argument 1.5 100 ?evsa sa' = Some sa''"
    by blast
  have t0: "sub ?s = Sub_hzCalculationCallback" by simp
  have "\<exists>t'. run test_Bank 1.5 2 ?evt ?s = Some t'"
    by (simp add: deliver_def hzCalculationCallback_def double_sub_def double_div_def
        double_mul_def roundings Let_def optimized_nr_scans_in_range)
  then obtain t' where t': "run test_Bank 1.5 2 ?evt ?s = Some t'"
    by blast
  have len: "(2::int) \<le> received_messages ?s + int (length ?evt)" "?evt \<noteq> []"
    by simp_all
  note th = calibration_one_shot [where s = ?s and s' = s' and s'' = s'' and B = test_Bank
      and max_time = "1.5" and max_messages = 100 and now = "1.6" and evs = ?evs and sa = ?sa
      and sa' = sa' and sa'' = sa'' and ba = test_bank_argument and d = test_bank_argument
      and evsa = ?evsa]
  note th2 = calibration_one_shot [where t = ?s and t' = t' and B = test_Bank and max_time = "1.5"
      and max_messages = 2 and evt = ?evt]
  from th2 t0 t' len have "steady t'" 
    by blast
  moreover from th w s' s'' sa' sa'' have "steady s'' \<and> root_1 s'' = root_1 s' \<and> root_2 s'' = root_2 s'
          \<and> nr_scans_in_bank (bank_argument s'') = nr_scans_in_bank (bank_argument s')"
    "steady sa'' \<and> root_1 sa'' = root_1 sa' \<and> root_2 sa'' = root_2 sa'
          \<and> (\<forall>x\<in>set (bank_arguments sa'').
                nr_scans_in_bank x = nr_scans_in_bank (bank_arguments sa' ! 0))"
    by simp_all
  ultimately show ?thesis
    using w s' s'' sa' sa'' t' by auto
qed

text \<open>
  Claim C9. After start-up the subscriber is bound to the callback that waits for the first
  message, and from there to the rate calculation, exactly when the configured
  \<^verbatim>\<open>optimize_nr_scans_in_bank\<close> is not zero, negative values included. When it is zero the
  subscriber is bound to the first-scan callback, and whatever messages follow, the node
  stays on the scan callbacks, the roots stay the doubles nearest 0.35 and 0.65, and the
  configured argument (in the scan-array class: the configured window size of every
  argument) stays as configured.
\<close>

theorem onInit_calibrator_iff:
  fixes m :: "'bank LaserScanInterpreter" and ma :: "'bank LaserScanArrayInterpreter"
  shows "(sub (start_up B p m) = Sub_waitForFirstMessageCallback
            \<longleftrightarrow> param_optimize_nr_scans_in_bank p \<noteq> 0)
       \<and> (sub (start_up_array d p ma) = Sub_waitForFirstMessageCallback
            \<longleftrightarrow> param_optimize_nr_scans_in_bank p \<noteq> 0)
       \<and> (param_optimize_nr_scans_in_bank p = 0 \<longrightarrow>
            sub (start_up B p m) = Sub_CallbackFirst
          \<and> sub (start_up_array d p ma) = Sub_CallbackFirst
          \<and> (\<forall>evs s'. run B max_time max_messages evs (start_up B p m) = Some s' \<longrightarrow>
                steady s' \<and> bank_argument s' = read_parameters p (bank_argument m)
              \<and> nr_scans_in_bank (bank_argument s') = nr_scans_in_bank (param_bank_argument p)
              \<and> root_1 s' = double 0.35 \<and> root_2 s' = double 0.65)
          \<and> (\<forall>evs s'. run_array B d max_time max_messages evs (start_up_array d p ma) = Some s' \<longrightarrow>
                steady s' \<and> root_1 s' = double 0.35 \<and> root_2 s' = double 0.65
              \<and> (\<forall>x\<in>set (bank_arguments s').
                    nr_scans_in_bank x = nr_scans_in_bank (param_bank_argument p))))
       \<and> (param_optimize_nr_scans_in_bank p < 0 \<longrightarrow>
            sub (start_up B p m) = Sub_waitForFirstMessageCallback
          \<and> sub (start_up_array d p ma) = Sub_waitForFirstMessageCallback)
       \<and> (param_optimize_nr_scans_in_bank p \<noteq> 0 \<longrightarrow>
            map_option sub (deliver B max_time max_messages ev (start_up B p m))
              = Some Sub_hzCalculationCallback
          \<and> map_option sub (deliver_array B d max_time max_messages eva (start_up_array d p ma))
              = Some Sub_hzCalculationCallback)"
proof (intro conjI impI allI)
  assume z: "param_optimize_nr_scans_in_bank p = 0"
  then have st: "steady (start_up B p m)"
    by (simp add: steady_def start_up_fields)
  fix evs s' assume "run B max_time max_messages evs (start_up B p m) = Some s'"
  from run_steady [OF st this]
  show "steady s'" "bank_argument s' = read_parameters p (bank_argument m)"
    "nr_scans_in_bank (bank_argument s') = nr_scans_in_bank (param_bank_argument p)"
    "root_1 s' = double 0.35" "root_2 s' = double 0.65"
    by (simp_all add: start_up_fields)
next
  assume z: "param_optimize_nr_scans_in_bank p = 0"
  fix evs s' assume r: "run_array B d max_time max_messages evs (start_up_array d p ma) = Some s'"
  from z have "sub (start_up_array d p ma) = Sub_CallbackFirst"
    by (simp add: start_up_array_fields)
  from run_array_First [OF this _ _ r, of "read_parameters p d"]
  show "steady s'" "root_1 s' = double 0.35" "root_2 s' = double 0.65"
    "\<forall>x\<in>set (bank_arguments s'). nr_scans_in_bank x = nr_scans_in_bank (param_bank_argument p)"
    by (simp_all add: start_up_array_fields)
qed (simp_all add: start_up_fields start_up_array_fields deliver_def deliver_array_def
      waitForFirstMessageCallback_def)

theorem onInit_calibrator_iff_witness:
  "param_optimize_nr_scans_in_bank (test_parameters 0) = 0
   \<and> param_optimize_nr_scans_in_bank (test_parameters (- 1)) < 0
   \<and> sub (test_node 0) = Sub_CallbackFirst
   \<and> sub (test_array_node 0) = Sub_CallbackFirst
   \<and> sub (test_node (- 1)) = Sub_waitForFirstMessageCallback
   \<and> sub (test_array_node (- 1)) = Sub_waitForFirstMessageCallback
   \<and> (\<exists>s'. run test_Bank 1.5 100 [(0, [1]), (0.1, [2])] (test_node 0) = Some s'
          \<and> steady s' \<and> bank_argument s' = test_bank_argument
          \<and> root_1 s' = double 0.35 \<and> root_2 s' = double 0.65)
   \<and> (\<exists>s'. run_array test_Bank test_bank_argument 1.5 100 [(0, [[1], [1]]), (0.1, [[2], [2]])]
               (test_array_node 0) = Some s'
          \<and> steady s' \<and> root_1 s' = double 0.35 \<and> root_2 s' = double 0.65
          \<and> (\<forall>x\<in>set (bank_arguments s'). nr_scans_in_bank x = 11))
   \<and> map_option sub (deliver test_Bank 1.5 100 (0, [1]) (test_node (- 1)))
       = Some Sub_hzCalculationCallback"
proof -
  let ?m = "\<lparr>root_1 = 0, root_2 = 0, sub = Sub_Callback, subscribe_topic = [],
        subscribe_buffer_size = 0, received_messages = 7,
        optimize_nr_scans_in_bank = 7, start_time = 7,
        bank_argument = test_bank_argument, bank = 7\<rparr> :: nat LaserScanInterpreter"
  let ?ma = "\<lparr>root_1 = 0, root_2 = 0, sub = Sub_Callback, subscribe_topic = [],
        subscribe_buffer_size = 0, received_messages = 7,
        optimize_nr_scans_in_bank = 7, start_time = 7,
        bank_arguments = [test_bank_argument], banks = [7]\<rparr> :: nat LaserScanArrayInterpreter"
  let ?evs = "[(0, [1]), (0.1, [2])] :: (real \<times> real list) list"
  let ?evsa = "[(0, [[1], [1]]), (0.1, [[2], [2]])] :: (real \<times> real list list) list"
  have p: "param_optimize_nr_scans_in_bank (test_parameters 0) = 0"
    "param_optimize_nr_scans_in_bank (test_parameters (- 1)) < 0"
    "param_bank_argument (test_parameters 0) = test_bank_argument"
    by (simp_all add: test_parameters_def)
  have n: "test_node t = start_up test_Bank (test_parameters t) ?m"
    "test_array_node t = start_up_array test_bank_argument (test_parameters t) ?ma" for t
    by (simp_all add: test_node_def test_array_node_def)
  note z = onInit_calibrator_iff [where p = "test_parameters 0" and B = test_Bank and m = ?m and ma = ?ma
      and d = test_bank_argument and max_time = "1.5" and max_messages = 100]
  note neg = onInit_calibrator_iff [where p = "test_parameters (- 1)" and B = test_Bank and m = ?m and ma = ?ma
      and d = test_bank_argument and max_time = "1.5" and max_messages = 100
      and ev = "(0, [1])"]
  from z p have first: "sub (test_node 0) = Sub_CallbackFirst"
    "sub (test_array_node 0) = Sub_CallbackFirst"
    unfolding n by simp_all
  then have "steady (test_node 0)" by (simp add: steady_def)
  from run_steady_total [OF this] obtain s'
    where s': "run test_Bank 1.5 100 ?evs (test_node 0) = Some s'" by blast
  have "\<exists>sa'. run_array test_Bank test_bank_argument 1.5 100 ?evsa (test_array_node 0) = Some sa'"
    by (rule run_array_First_total [OF first(2)]) simp_all
  then obtain sa'
    where sa': "run_array test_Bank test_bank_argument 1.5 100 ?evsa (test_array_node 0) = Some sa'"
    by blast
  from z p have all1: "\<forall>evs s'. run test_Bank 1.5 100 evs (test_node 0) = Some s' \<longrightarrow>
          steady s' \<and> bank_argument s' = test_bank_argument
          \<and> root_1 s' = double 0.35 \<and> root_2 s' = double 0.65"
    and all2: "\<forall>evs s'. run_array test_Bank test_bank_argument 1.5 100 evs (test_array_node 0)
                  = Some s' \<longrightarrow>
          steady s' \<and> root_1 s' = double 0.35 \<and> root_2 s' = double 0.65
          \<and> (\<forall>x\<in>set (bank_arguments s'). nr_scans_in_bank x = 11)"
    unfolding n by simp_all
  from all1 s' have c1: "steady s' \<and> bank_argument s' = test_bank_argument
          \<and> root_1 s' = double 0.35 \<and> root_2 s' = double 0.65"
    by blast
  from all2 sa' have c2: "steady sa' \<and> root_1 sa' = double 0.35 \<and> root_2 sa' = double 0.65
          \<and> (\<forall>x\<in>set (bank_arguments sa'). nr_scans_in_bank x = 11)"
    by blast
  from neg p have c3: "sub (test_node (- 1)) = Sub_waitForFirstMessageCallback"
    "sub (test_array_node (- 1)) = Sub_waitForFirstMessageCallback"
    "map_option sub (deliver test_Bank 1.5 100 (0, [1]) (test_node (- 1)))
       = Some Sub_hzCalculationCallback"
    unfolding n by simp_all
  from p first s' sa' c1 c2 c3 show ?thesis
    by blast
qed

text \<open>
  Claim C8. As stated, for both classes, the claim fails: the scan-array callback ignores the
  return codes of \<open>init\<close> and rebinds the subscriber in any case. Amended: in the
  single-scan class, when \<open>init\<close> returns a non-zero code for a first record, the callback
  changes nothing but the bank as \<open>init\<close> left it (so nothing at all when \<open>init\<close> leaves
  the bank alone), the first-scan callback stays subscribed, and the next record is passed to
  \<open>init\<close> again.
\<close>

theorem laserScanCallbackFirst_init_failure:
  assumes "fst (init B (bank_argument s) msg (bank s)) \<noteq> 0"
  shows "laserScanCallbackFirst B msg s = s\<lparr>bank := snd (init B (bank_argument s) msg (bank s))\<rparr>
       \<and> (snd (init B (bank_argument s) msg (bank s)) = bank s \<longrightarrow>
            laserScanCallbackFirst B msg s = s)
       \<and> (sub s = Sub_CallbackFirst \<longrightarrow>
            deliver B max_time max_messages (now, msg) s = Some (laserScanCallbackFirst B msg s)
          \<and> sub (laserScanCallbackFirst B msg s) = Sub_CallbackFirst
          \<and> deliver B max_time max_messages (now', msg') (laserScanCallbackFirst B msg s)
              = Some (laserScanCallbackFirst B msg' (laserScanCallbackFirst B msg s)))"
proof -
  from assms have eq: "laserScanCallbackFirst B msg s
                         = s\<lparr>bank := snd (init B (bank_argument s) msg (bank s))\<rparr>"
    by (cases "init B (bank_argument s) msg (bank s)")
      (simp add: laserScanCallbackFirst_def Let_def)
  then have "sub (laserScanCallbackFirst B msg s) = sub s"
    by simp
  with eq show ?thesis
    by (simp add: deliver_def)
qed

theorem laserScanCallbackFirst_init_failure_witness:
  "fst (init test_Bank (bank_argument (test_node 0)) [] (bank (test_node 0))) \<noteq> 0
   \<and> snd (init test_Bank (bank_argument (test_node 0)) [] (bank (test_node 0)))
       = bank (test_node 0)
   \<and> sub (test_node 0) = Sub_CallbackFirst
   \<and> laserScanCallbackFirst test_Bank [] (test_node 0) = test_node 0
   \<and> deliver test_Bank 1.5 100 (0, []) (test_node 0)
       = Some (laserScanCallbackFirst test_Bank [] (test_node 0))
   \<and> sub (laserScanCallbackFirst test_Bank [] (test_node 0)) = Sub_CallbackFirst
   \<and> deliver test_Bank 1.5 100 (1, [1]) (laserScanCallbackFirst test_Bank [] (test_node 0))
       = Some (laserScanCallbackFirst test_Bank [1]
                 (laserScanCallbackFirst test_Bank [] (test_node 0)))"
proof -
  have h: "fst (init test_Bank (bank_argument (test_node 0)) [] (bank (test_node 0))) \<noteq> 0"
    "snd (init test_Bank (bank_argument (test_node 0)) [] (bank (test_node 0)))
       = bank (test_node 0)"
    "sub (test_node 0) = Sub_CallbackFirst"
    by simp_all
  from laserScanCallbackFirst_init_failure [OF h(1), where max_time = "1.5" and max_messages = 100 and now = 0 and now' = 1
      and msg' = "[1]"] h
  show ?thesis by blast
qed

theorem laserScanArrayCallbackFirst_no_retry_counterexample:
  "fst (init test_Bank (append_str (''_'' @ to_string 0) test_bank_argument) []
          (new_Bank test_Bank)) \<noteq> 0
   \<and> sub (test_array_node 0) = Sub_CallbackFirst
   \<and> map_option sub (deliver_array test_Bank test_bank_argument 1.5 100 (0, [[]])
                        (test_array_node 0)) = Some Sub_Callback
   \<and> map_option (\<lambda>s. length (banks s))
        (deliver_array test_Bank test_bank_argument 1.5 100 (0, [[]]) (test_array_node 0))
       = Some 1
   \<and> length (banks (test_array_node 0)) = 0"
proof -
  have b: "banks (test_array_node 0) = []" "bank_arguments (test_array_node 0) \<noteq> []"
    by simp_all
  from laserScanArrayCallbackFirst_create [OF b(1)] obtain s'
    where s': "laserScanArrayCallbackFirst test_Bank test_bank_argument [[]] (test_array_node 0)
                 = Some s'"
    by blast
  from laserScanArrayCallbackFirst_created [OF b s'] laserScanArrayCallbackFirst_Some [OF s']
  have "sub s' = Sub_Callback" "length (banks s') = 1" by simp_all
  with s' show ?thesis
    by (simp add: deliver_array_def)
qed

text \<open>
  Claim C10. As stated the claim fails for one topic name: \<open>topic_objects\<close> is copied
  without a suffix. Amended: on the first array message (no banks yet, the configured
  argument in the vector) the callback creates as many banks and arguments as the message
  has scans; the argument of stream \<open>i\<close> is the configured one with "_" followed by the
  decimal \<open>i\<close> appended to the five topic names \<open>topic_ema\<close>,
  \<open>topic_objects_closest_point_markers\<close>, \<open>topic_objects_velocity_arrows\<close>,
  \<open>topic_objects_delta_position_lines\<close> and \<open>topic_objects_width_lines\<close>, to the three
  namespace strings and to the node-name suffix, all other fields (\<open>topic_objects\<close> among
  them) unchanged; afterwards the number of banks and the arguments never change.
\<close>

theorem laserScanArrayCallbackFirst_creates_banks:
  assumes "banks s = []" and "bank_arguments s \<noteq> []"
  shows "\<exists>s'. laserScanArrayCallbackFirst B d msgs s = Some s'
          \<and> length (banks s') = length msgs
          \<and> length (bank_arguments s') = length msgs
          \<and> (\<forall>i<length msgs.
                bank_arguments s' ! i = append_str (''_'' @ to_string i) (bank_arguments s ! 0)
              \<and> topic_objects (bank_arguments s' ! i) = topic_objects (bank_arguments s ! 0))
          \<and> sub s' = Sub_Callback
          \<and> (\<forall>evs s''. run_array B d max_time max_messages evs s' = Some s'' \<longrightarrow>
                sub s'' = Sub_Callback
              \<and> length (banks s'') = length msgs
              \<and> bank_arguments s'' = bank_arguments s')"
proof -
  from laserScanArrayCallbackFirst_create [OF assms(1)]
  obtain s' where s': "laserScanArrayCallbackFirst B d msgs s = Some s'"
    by blast
  from laserScanArrayCallbackFirst_created [OF assms s']
  have c: "length (banks s') = length msgs" "length (bank_arguments s') = length msgs"
    "\<forall>i<length msgs.
        bank_arguments s' ! i = append_str (''_'' @ to_string i) (bank_arguments s ! 0)"
    by simp_all
  from laserScanArrayCallbackFirst_Some [OF s'] have cb: "sub s' = Sub_Callback"
    by simp
  have "\<forall>evs s''. run_array B d max_time max_messages evs s' = Some s'' \<longrightarrow>
                sub s'' = Sub_Callback
              \<and> length (banks s'') = length msgs
              \<and> bank_arguments s'' = bank_arguments s'"
  proof (intro allI impI)
    fix evs s'' assume "run_array B d max_time max_messages evs s' = Some s''"
    from run_array_Callback [OF cb this] c(1)
    show "sub s'' = Sub_Callback \<and> length (banks s'') = length msgs
          \<and> bank_arguments s'' = bank_arguments s'"
      by simp
  qed
  with s' c cb show ?thesis
    by simp
qed

theorem laserScanArrayCallbackFirst_creates_banks_witness:
  "banks (test_array_node 0) = [] \<and> bank_arguments (test_array_node 0) \<noteq> []
   \<and> (\<exists>s'. laserScanArrayCallbackFirst test_Bank test_bank_argument [[1], [2]] (test_array_node 0)
              = Some s'
          \<and> length (banks s') = 2 \<and> length (bank_arguments s') = 2
          \<and> bank_arguments s' ! 1 = append_str ''_1'' test_bank_argument
          \<and> topic_ema (bank_arguments s' ! 1) = ''ema_1''
          \<and> node_name_suffix (bank_arguments s' ! 0) = ''_0''
          \<and> topic_objects (bank_arguments s' ! 1) = ''moving_objects''
          \<and> (\<exists>s''. run_array test_Bank test_bank_argument 1.5 100 [(0.1, [[3], []])] s' = Some s''
                \<and> length (banks s'') = 2 \<and> bank_arguments s'' = bank_arguments s'))"
proof -
  have b: "banks (test_array_node 0) = []" "bank_arguments (test_array_node 0) \<noteq> []"
    by simp_all
  from laserScanArrayCallbackFirst_creates_banks [OF b, where B = test_Bank and d = test_bank_argument and msgs = "[[1], [2]]"
      and max_time = "1.5" and max_messages = 100]
  obtain s' where s': "laserScanArrayCallbackFirst test_Bank test_bank_argument [[1], [2]]
                         (test_array_node 0) = Some s'"
    and c: "length (banks s') = 2" "length (bank_arguments s') = 2"
      "\<forall>i<2. bank_arguments s' ! i = append_str (''_'' @ to_string i) test_bank_argument
             \<and> topic_objects (bank_arguments s' ! i) = ''moving_objects''"
      "sub s' = Sub_Callback"
    and r: "\<forall>evs s''. run_array test_Bank test_bank_argument 1.5 100 evs s' = Some s'' \<longrightarrow>
               sub s'' = Sub_Callback \<and> length (banks s'') = 2
             \<and> bank_arguments s'' = bank_arguments s'"
    by auto
  from c(3) have e: "bank_arguments s' ! 1 = append_str ''_1'' test_bank_argument"
    "bank_arguments s' ! 0 = append_str ''_0'' test_bank_argument"
    "topic_objects (bank_arguments s' ! 1) = ''moving_objects''"
    by (simp_all add: to_string_small to_string_Suc_0)
  then have f: "topic_ema (bank_arguments s' ! 1) = ''ema_1''"
    "node_name_suffix (bank_arguments s' ! 0) = ''_0''"
    by (simp_all add: append_str_def test_bank_argument_def)
  have "\<exists>s''. run_array test_Bank test_bank_argument 1.5 100 [(0.1, [[3], []])] s' = Some s''"
    by (rule run_array_Callback_total [OF c(4)]) (simp add: c(1))
  then obtain s'' where s'': "run_array test_Bank test_bank_argument 1.5 100 [(0.1, [[3], []])] s'
                               = Some s''"
    by blast
  with r have "length (banks s'') = 2 \<and> bank_arguments s'' = bank_arguments s'"
    by blast
  with b s' c e f s'' show ?thesis
    by auto
qed

theorem topic_objects_not_suffixed_counterexample:
  "map_option (\<lambda>s. topic_objects (bank_arguments s ! 1))
      (laserScanArrayCallbackFirst test_Bank test_bank_argument [[1], [2]] (test_array_node 0))
     = Some ''moving_objects''
   \<and> topic_objects test_bank_argument @ ''_'' @ to_string 1 = ''moving_objects_1''
   \<and> map_option (\<lambda>s. topic_ema (bank_arguments s ! 1))
      (laserScanArrayCallbackFirst test_Bank test_bank_argument [[1], [2]] (test_array_node 0))
     = Some ''ema_1''"
proof -
  have b: "banks (test_array_node 0) = []" "bank_arguments (test_array_node 0) \<noteq> []"
    by simp_all
  from laserScanArrayCallbackFirst_create [OF b(1)] obtain s'
    where s': "laserScanArrayCallbackFirst test_Bank test_bank_argument [[1], [2]]
                 (test_array_node 0) = Some s'"
    by blast
  from laserScanArrayCallbackFirst_created [OF b s']
  have "bank_arguments s' ! 1 = append_str ''_1'' test_bank_argument"
    by (simp add: to_string_small to_string_Suc_0)
  then have "topic_objects (bank_arguments s' ! 1) = ''moving_objects''"
    "topic_ema (bank_arguments s' ! 1) = ''ema_1''"
    by (simp_all add: append_str_def test_bank_argument_def)
  with s' show ?thesis
    by (simp add: to_string_small to_string_Suc_0)
qed

text \<open>
  Claim C5. As stated the claim fails: the function reads the file-level variables
  \<open>root_1\<close> and \<open>root_2\<close>, which the rate calculation overwrites, so the same
  arguments give \<open>0.9675\<close> before the calibration and \<open>1.02\<close> after it (the doubles
  nearest to these). Amended: \<^const>\<open>calculateConfidence\<close> changes no state (in the model
  it returns a value and nothing else), and its value is determined by its listed arguments
  together with the
  current values of the two roots: two calls with the same arguments, in any two states
  that agree on \<open>root_1\<close> and \<open>root_2\<close>, return the same value.
\<close>

theorem calculateConfidence_reads_roots:
  assumes "root_1 g = root_1 g'" and "root_2 g = root_2 g'"
  shows "calculateConfidence g mo ba dt w u1 u2 u3 u4 u5 u6
         = calculateConfidence g' mo ba dt w u1 u2 u3 u4 u5 u6"
  using assms by (simp add: calculateConfidence_def)

theorem calculateConfidence_reads_roots_witness:
  "root_1 default_roots = root_1 (test_node 0) \<and> root_2 default_roots = root_2 (test_node 0)
   \<and> calculateConfidence default_roots \<lparr>seen_width = 1\<rparr> test_bank_argument 0.5 1
        True True True True True True
     = calculateConfidence (test_node 0) \<lparr>seen_width = 1\<rparr> test_bank_argument 0.5 1
        True True True True True True"
proof -
  have r: "root_1 default_roots = root_1 (test_node 0)"
    "root_2 default_roots = root_2 (test_node 0)"
    by simp_all
  from calculateConfidence_reads_roots [OF r] r show ?thesis by simp
qed

theorem calculateConfidence_calibration_counterexample:
  "calculateConfidence (test_node 0.5) \<lparr>seen_width = 1\<rparr> test_bank_argument 0.5 1
        True True True True True True = Some (4357232639480955 / 4503599627370496)
   \<and> map_option (\<lambda>s. calculateConfidence s \<lparr>seen_width = 1\<rparr> test_bank_argument 0.5 1
                        True True True True True True)
        (run test_Bank 1.5 100 [(0, [1]), (1.6, [1])] (test_node 0.5))
       = Some (Some (2296835809958953 / 2251799813685248))"
proof -
  let ?s = "waitForFirstMessageCallback 0 (test_node 0.5)"
  have w: "warm_up_done 1.5 100 1.6 ?s"
    by (simp add: rate_eval)
  have "hzCalculationCallback 1.5 100 1.6 ?s \<noteq> None"
    using hzCalculationCallback_None_iff [OF w] by (simp add: rate_eval)
  then obtain s' where s': "hzCalculationCallback 1.5 100 1.6 ?s = Some s'"
    by blast
  from hzCalculationCallback_Some_fields(1,2) [OF w s']
  have r: "root_1 s' = 5404319552844595 / 18014398509481984"
    "root_2 s' = 3152519739159347 / 4503599627370496"
    by (simp_all add: roundings)
  have "calculateConfidence s' \<lparr>seen_width = 1\<rparr> test_bank_argument 0.5 1
               True True True True True True = Some (2296835809958953 / 2251799813685248)"
    by (simp add: confidence_eval r)
  with s' show ?thesis
    by (simp add: deliver_def confidence_eval)
qed

end
